(* ===== verification/Prelude.thy ===== *)
theory Prelude
  imports Main "HOL-Library.Sublist"
begin

text \<open>
  Shared vocabulary of the Naamrot development: the JavaScript string built-ins the
  converter relies on (\<open>toUpperCase\<close>, \<open>toLowerCase\<close>, \<open>endsWith\<close>,
  \<open>startsWith\<close>) on the ASCII range, the evaluation rules that let the simplifier run
  them on literal strings, and list facts shared by the component theories.
  JavaScript strings are UTF-16; the model's \<open>char\<close> is a byte, and every
  definition here agrees with the JavaScript built-in on ASCII text, which is all the
  word-token regular expression of the converter ever hands to the rules.
\<close>

named_theorems text_simps "evaluation rules for ASCII characters and literal strings"
named_theorems origin_rules "each rule stage keeps the origin invariant of its input"
named_theorems letter_rules "each rule stage maps letters-only segments to letters-only segments"

definition is_ascii :: "char \<Rightarrow> bool" where
  "is_ascii c \<longleftrightarrow> of_char c < (128::nat)"

definition is_ascii_lower :: "char \<Rightarrow> bool" where
  "is_ascii_lower c \<longleftrightarrow> (let n = of_char c in 97 \<le> n \<and> n \<le> (122::nat))"

definition is_ascii_upper :: "char \<Rightarrow> bool" where
  "is_ascii_upper c \<longleftrightarrow> (let n = of_char c in 65 \<le> n \<and> n \<le> (90::nat))"

text \<open>\<open>String.prototype.toUpperCase\<close> and \<open>toLowerCase\<close> on one ASCII code unit.\<close>

definition to_upper_char :: "char \<Rightarrow> char" where
  "to_upper_char c = (if is_ascii_lower c then char_of (of_char c - (32::nat)) else c)"

definition to_lower_char :: "char \<Rightarrow> char" where
  "to_lower_char c = (if is_ascii_upper c then char_of (of_char c + (32::nat)) else c)"

definition to_upper :: "string \<Rightarrow> string" where
  "to_upper s = map to_upper_char s"

definition to_lower :: "string \<Rightarrow> string" where
  "to_lower s = map to_lower_char s"

text \<open>\<open>s.endsWith(suf)\<close> and \<open>s.startsWith(pre)\<close>.\<close>

definition ends_with :: "string \<Rightarrow> string \<Rightarrow> bool" where
  "ends_with s suf \<longleftrightarrow> length suf \<le> length s \<and> drop (length s - length suf) s = suf"

definition starts_with :: "string \<Rightarrow> string \<Rightarrow> bool" where
  "starts_with s pre \<longleftrightarrow> take (length pre) s = pre"

text \<open>The two ASCII alphabets, used only to evaluate the case mappings quickly.\<close>

definition LOWER_ALPHA :: string where
  "LOWER_ALPHA = ''abcdefghijklmnopqrstuvwxyz''"

definition UPPER_ALPHA :: string where
  "UPPER_ALPHA = ''ABCDEFGHIJKLMNOPQRSTUVWXYZ''"

lemmas [text_simps] = char_of_eq_iff is_ascii_def is_ascii_lower_def is_ascii_upper_def
  to_upper_char_def to_lower_char_def to_upper_def to_lower_def ends_with_def starts_with_def

subsection \<open>Case mapping\<close>

lemma to_upper_Nil [simp]: "to_upper [] = []"
  by (simp add: to_upper_def)

lemma to_upper_Cons [simp]: "to_upper (c # s) = to_upper_char c # to_upper s"
  by (simp add: to_upper_def)

lemma to_upper_append [simp]: "to_upper (xs @ ys) = to_upper xs @ to_upper ys"
  by (simp add: to_upper_def)

lemma length_to_upper [simp]: "length (to_upper s) = length s"
  by (simp add: to_upper_def)

lemma to_lower_Nil [simp]: "to_lower [] = []"
  by (simp add: to_lower_def)

lemma to_lower_Cons [simp]: "to_lower (c # s) = to_lower_char c # to_lower s"
  by (simp add: to_lower_def)

lemma length_to_lower [simp]: "length (to_lower s) = length s"
  by (simp add: to_lower_def)

lemma of_char_to_upper_char:
  "of_char (to_upper_char c) =
     (if is_ascii_lower c then of_char c - 32 else (of_char c :: nat))"
proof -
  have "of_char c < (256::nat)" by (rule nat_of_char_less_256)
  then show ?thesis
    by (auto simp: to_upper_char_def is_ascii_lower_def Let_def)
qed

lemma to_upper_char_not_lower [simp]: "\<not> is_ascii_lower (to_upper_char c)"
  by (auto simp: of_char_to_upper_char is_ascii_lower_def Let_def)

lemma to_upper_char_idem [simp]: "to_upper_char (to_upper_char c) = to_upper_char c"
  by (simp add: to_upper_char_def [of "to_upper_char c"])

lemma to_upper_idem [simp]: "to_upper (to_upper s) = to_upper s"
  by (induction s) auto

lemma to_upper_id: "\<forall>c \<in> set s. \<not> is_ascii_lower c \<Longrightarrow> to_upper s = s"
  by (induction s) (auto simp: to_upper_char_def)

lemma to_upper_no_lower: "c \<in> set (to_upper s) \<Longrightarrow> \<not> is_ascii_lower c"
  by (auto simp: to_upper_def)

subsection \<open>Table form of the case mappings, for evaluation\<close>

text \<open>
  The definitions above follow the character codes; evaluating \<open>of_char\<close> and
  \<open>char_of\<close> bit by bit is slow, so the code equations below look the character up
  in the alphabet instead. They are proved equal to the definitions.
\<close>

lemma map_char_of_lower: "map char_of [97..<123::nat] = LOWER_ALPHA"
  by (simp add: LOWER_ALPHA_def upt_rec char_of_eq_iff)

lemma map_char_of_upper: "map char_of [65..<91::nat] = UPPER_ALPHA"
  by (simp add: UPPER_ALPHA_def upt_rec char_of_eq_iff)

lemma char_in_code_range:
  "a \<le> of_char c \<Longrightarrow> of_char c < (b::nat) \<Longrightarrow> c \<in> set (map char_of [a..<b])"
  by (simp add: image_iff) (metis char_of_char atLeastLessThan_iff)

lemma is_ascii_lower_iff: "is_ascii_lower c \<longleftrightarrow> c \<in> set LOWER_ALPHA"
proof
  assume "is_ascii_lower c"
  then have "c \<in> set (map char_of [97..<123::nat])"
    by (intro char_in_code_range) (simp_all add: is_ascii_lower_def Let_def)
  then show "c \<in> set LOWER_ALPHA" by (simp only: map_char_of_lower)
next
  assume "c \<in> set LOWER_ALPHA"
  then show "is_ascii_lower c" by (auto simp: LOWER_ALPHA_def is_ascii_lower_def)
qed

lemma is_ascii_upper_iff: "is_ascii_upper c \<longleftrightarrow> c \<in> set UPPER_ALPHA"
proof
  assume "is_ascii_upper c"
  then have "c \<in> set (map char_of [65..<91::nat])"
    by (intro char_in_code_range) (simp_all add: is_ascii_upper_def Let_def)
  then show "c \<in> set UPPER_ALPHA" by (simp only: map_char_of_upper)
next
  assume "c \<in> set UPPER_ALPHA"
  then show "is_ascii_upper c" by (auto simp: UPPER_ALPHA_def is_ascii_upper_def)
qed

lemma table_lookup_eq:
  assumes "map f xs = ys" and "distinct xs" and "\<And>c. c \<notin> set xs \<Longrightarrow> f c = c"
  shows "f c = (case map_of (zip xs ys) c of Some d \<Rightarrow> d | None \<Rightarrow> c)"
proof (cases "c \<in> set xs")
  case True
  then obtain k where k: "k < length xs" "c = xs ! k" by (auto simp: in_set_conv_nth)
  have "map_of (zip xs ys) (xs ! k) = Some (ys ! k)"
    using assms(1,2) k(1) by (intro map_of_zip_nth) auto
  then show ?thesis using assms(1) k by auto
next
  case False
  have "length xs = length ys" using assms(1) by auto
  then have "map_of (zip xs ys) c = None" using False by simp
  then show ?thesis using False assms(3) by simp
qed

lemma to_upper_char_code [code]:
  "to_upper_char c = (case map_of (zip LOWER_ALPHA UPPER_ALPHA) c of Some d \<Rightarrow> d | None \<Rightarrow> c)"
proof (rule table_lookup_eq)
  show "map to_upper_char LOWER_ALPHA = UPPER_ALPHA"
    by (simp add: LOWER_ALPHA_def UPPER_ALPHA_def to_upper_char_def is_ascii_lower_def char_of_eq_iff)
qed (simp add: LOWER_ALPHA_def, simp add: to_upper_char_def is_ascii_lower_iff)

lemma to_lower_char_code [code]:
  "to_lower_char c = (case map_of (zip UPPER_ALPHA LOWER_ALPHA) c of Some d \<Rightarrow> d | None \<Rightarrow> c)"
proof (rule table_lookup_eq)
  show "map to_lower_char UPPER_ALPHA = LOWER_ALPHA"
    by (simp add: LOWER_ALPHA_def UPPER_ALPHA_def to_lower_char_def is_ascii_upper_def char_of_eq_iff)
qed (simp add: UPPER_ALPHA_def, simp add: to_lower_char_def is_ascii_upper_iff)

lemma is_ascii_lower_code [code]: "is_ascii_lower c \<longleftrightarrow> c \<in> set LOWER_ALPHA"
  by (rule is_ascii_lower_iff)

subsection \<open>Suffixes and prefixes\<close>

lemma ends_with_iff_suffix: "ends_with s suf \<longleftrightarrow> suffix suf s"
proof
  assume "ends_with s suf"
  then have "s = take (length s - length suf) s @ suf"
    by (metis append_take_drop_id ends_with_def)
  then show "suffix suf s" by (metis suffix_def)
next
  assume "suffix suf s"
  then obtain zs where "s = zs @ suf" by (auto simp: suffix_def)
  then show "ends_with s suf" by (simp add: ends_with_def)
qed

lemma ends_with_append_self [simp]: "ends_with (xs @ ys) ys"
  by (simp add: ends_with_def)

lemma starts_with_iff_prefix: "starts_with s pre \<longleftrightarrow> prefix pre s"
  by (metis append_eq_conv_conj prefix_def starts_with_def)

end
