(* ===== verification/Segments.thy ===== *)
theory Segments
  imports Prelude
begin

text \<open>
  The segment model of \<open>src/unnamed/part_000\<close> (lines 57--84): a word-part is held
  as an array of segments \<open>{ch, origin}\<close>; \<open>origin = true\<close> marks a character the
  user typed, \<open>origin = false\<close> one a rule wrote. Every rule edits the array only
  through \<open>spliceSegs\<close>, inserting segments built by \<open>segFromString(str, false)\<close>.
  The theory also holds the character classes the rules test (\<open>isLetter\<close>,
  \<open>isConsonantLetter\<close>, \<open>VOWELS\<close>, \<open>SWAPPABLE\<close>) and the invariant
  \<open>keeps_origin\<close>: the origin-true segments after an edit are a subsequence of those
  before it, so no rule ever marks its own output as user-typed.
\<close>

record seg =
  ch :: char
  origin :: bool

type_synonym segs = "seg list"

definition seg_from_string :: "string \<Rightarrow> bool \<Rightarrow> segs" where
  "seg_from_string str orig = map (\<lambda>c. \<lparr>ch = c, origin = orig\<rparr>) str"

definition seg_to_string :: "segs \<Rightarrow> string" where
  "seg_to_string segs = map ch segs"

text \<open>
  \<open>segs.splice(start, end - start, ...insertSegs)\<close>: a start past the end is clamped
  to the length (\<open>take\<close>, \<open>drop\<close>) and a negative delete count deletes nothing,
  which is what the truncating \<open>nat\<close> subtraction \<open>stop - start\<close> gives.
\<close>

definition splice_segs :: "segs \<Rightarrow> nat \<Rightarrow> nat \<Rightarrow> segs \<Rightarrow> segs" where
  "splice_segs segs start stop ins = take start segs @ ins @ drop (start + (stop - start)) segs"

definition is_letter :: "char \<Rightarrow> bool" where
  "is_letter c \<longleftrightarrow> (let n = of_char c in (65 \<le> n \<and> n \<le> (90::nat)) \<or> (97 \<le> n \<and> n \<le> 122))"

definition VOWELS :: "char list" where
  "VOWELS = ''AEIOU''"

definition SWAPPABLE :: "char list" where
  "SWAPPABLE = ''AEI''"

definition is_consonant_letter :: "char \<Rightarrow> bool" where
  "is_consonant_letter c \<longleftrightarrow> is_letter c \<and> to_upper_char c \<notin> set VOWELS"

text \<open>The invariant every rule keeps (not code: the property the origin flags exist for).\<close>

definition keeps_origin :: "segs \<Rightarrow> segs \<Rightarrow> bool" where
  "keeps_origin segs' segs \<longleftrightarrow> subseq (filter origin segs') (filter origin segs)"

definition all_letters :: "segs \<Rightarrow> bool" where
  "all_letters segs \<longleftrightarrow> (\<forall>s \<in> set segs. is_letter (ch s))"

lemmas [text_simps] = is_letter_def VOWELS_def SWAPPABLE_def is_consonant_letter_def
  seg_from_string_def seg_to_string_def splice_segs_def

subsection \<open>The primitives\<close>

lemma seg_to_string_from [simp]: "seg_to_string (seg_from_string s b) = s"
  by (simp add: seg_to_string_def seg_from_string_def comp_def)

lemma length_seg_from [simp]: "length (seg_from_string s b) = length s"
  by (simp add: seg_from_string_def)

lemma length_seg_to_string [simp]: "length (seg_to_string segs) = length segs"
  by (simp add: seg_to_string_def)

lemma seg_to_string_append [simp]:
  "seg_to_string (xs @ ys) = seg_to_string xs @ seg_to_string ys"
  by (simp add: seg_to_string_def)

lemma seg_to_string_Cons [simp]: "seg_to_string (x # xs) = ch x # seg_to_string xs"
  by (simp add: seg_to_string_def)

lemma seg_to_string_Nil [simp]: "seg_to_string [] = []"
  by (simp add: seg_to_string_def)

lemma filter_origin_seg_from_False [simp]: "filter origin (seg_from_string s False) = []"
  by (simp add: seg_from_string_def filter_empty_conv)

lemma filter_origin_seg_from_True [simp]:
  "filter origin (seg_from_string s True) = seg_from_string s True"
  by (simp add: seg_from_string_def)

lemma nth_seg_from:
  "i < length s \<Longrightarrow> seg_from_string s b ! i = \<lparr>ch = s ! i, origin = b\<rparr>"
  by (simp add: seg_from_string_def)

lemma length_splice_segs:
  "start \<le> stop \<Longrightarrow> stop \<le> length segs \<Longrightarrow>
   length (splice_segs segs start stop ins) = length segs - (stop - start) + length ins"
  by (simp add: splice_segs_def)

lemma seg_to_string_splice:
  "seg_to_string (splice_segs segs start stop ins) =
   take start (seg_to_string segs) @ seg_to_string ins @
   drop (start + (stop - start)) (seg_to_string segs)"
  by (simp add: splice_segs_def seg_to_string_def take_map drop_map)

text \<open>Splicing at the end of the array: the form every ending rule uses.\<close>

lemma splice_segs_tail:
  "n \<le> length segs \<Longrightarrow>
   splice_segs segs (length segs - n) (length segs) ins = take (length segs - n) segs @ ins"
  by (simp add: splice_segs_def)

subsection \<open>The origin invariant\<close>

lemma subseq_take_drop: "i \<le> k \<Longrightarrow> subseq (take i xs @ drop k xs) xs"
proof -
  assume "i \<le> k"
  then have "drop k xs = drop (k - i) (drop i xs)" by simp
  moreover have "subseq (drop (k - i) (drop i xs)) (drop i xs)"
    by (metis append_take_drop_id subseq_append subseq_drop_many subseq_order.refl)
  ultimately have "subseq (take i xs @ drop k xs) (take i xs @ drop i xs)"
    by (simp only: subseq_append')
  then show ?thesis by simp
qed

lemma keeps_origin_refl [simp, intro]: "keeps_origin segs segs"
  by (simp add: keeps_origin_def)

lemma keeps_origin_trans [trans]:
  "keeps_origin a b \<Longrightarrow> keeps_origin b c \<Longrightarrow> keeps_origin a c"
  unfolding keeps_origin_def by (rule subseq_order.trans)

lemma keeps_origin_splice [intro]:
  assumes "\<forall>s \<in> set ins. \<not> origin s"
  shows "keeps_origin (splice_segs segs start stop ins) segs"
proof -
  have "filter origin ins = []" using assms by (simp add: filter_empty_conv)
  then have "filter origin (splice_segs segs start stop ins) =
             filter origin (take start segs @ drop (start + (stop - start)) segs)"
    by (simp add: splice_segs_def)
  moreover have "subseq (take start segs @ drop (start + (stop - start)) segs) segs"
    by (rule subseq_take_drop) simp
  then have "subseq (filter origin (take start segs @ drop (start + (stop - start)) segs))
                    (filter origin segs)"
    by (rule subseq_filter)
  ultimately show ?thesis by (simp only: keeps_origin_def)
qed

lemma keeps_origin_splice_synth [intro]:
  "keeps_origin (splice_segs segs start stop (seg_from_string str False)) segs"
  by (rule keeps_origin_splice) (simp add: seg_from_string_def)

lemma keeps_origin_if [intro]:
  "keeps_origin a segs \<Longrightarrow> keeps_origin b segs \<Longrightarrow> keeps_origin (if P then a else b) segs"
  by simp

subsection \<open>Letters\<close>

lemma is_letter_code [code]: "is_letter c \<longleftrightarrow> c \<in> set UPPER_ALPHA \<or> c \<in> set LOWER_ALPHA"
proof -
  have "is_letter c \<longleftrightarrow> is_ascii_upper c \<or> is_ascii_lower c"
    by (simp add: is_letter_def is_ascii_upper_def is_ascii_lower_def Let_def)
  then show ?thesis by (simp add: is_ascii_upper_iff is_ascii_lower_iff)
qed

lemma is_letter_to_upper_char [simp]: "is_letter (to_upper_char c) = is_letter c"
  by (auto simp: is_letter_def of_char_to_upper_char is_ascii_lower_def Let_def)

lemma all_letters_append [simp]:
  "all_letters (xs @ ys) \<longleftrightarrow> all_letters xs \<and> all_letters ys"
  by (auto simp: all_letters_def)

lemma all_letters_take: "all_letters xs \<Longrightarrow> all_letters (take n xs)"
  by (auto simp: all_letters_def dest: in_set_takeD)

lemma all_letters_drop: "all_letters xs \<Longrightarrow> all_letters (drop n xs)"
  by (auto simp: all_letters_def dest: in_set_dropD)

lemma all_letters_seg_from:
  "all_letters (seg_from_string s b) \<longleftrightarrow> (\<forall>c \<in> set s. is_letter c)"
  by (auto simp: all_letters_def seg_from_string_def)

lemma all_letters_splice:
  "all_letters segs \<Longrightarrow> all_letters ins \<Longrightarrow> all_letters (splice_segs segs start stop ins)"
  by (simp add: splice_segs_def all_letters_take all_letters_drop)

lemma all_letters_iff_string:
  "all_letters segs \<longleftrightarrow> (\<forall>c \<in> set (seg_to_string segs). is_letter c)"
  by (auto simp: all_letters_def seg_to_string_def)

end
