(* ===== verification/Tokens.thy ===== *)
theory Tokens
  imports Segments
begin

text \<open>
  The token orchestrator, shared by \<open>src/unnamed/part_000\<close> and the older copy
  \<open>src/app.js\<close>: the word-token expression
  \<open>WORD_TOKEN_RE = /[A-Za-z]+(?:[-'][A-Za-z]+)*/g\<close> (part_000 line 55),
  \<open>transformWordToken\<close> (lines 395--403), which splits a token on hyphens and
  apostrophes keeping the separators, and the loop of \<open>convertText\<close> (lines 407--416),
  which copies the text between matches. Both files call their own
  \<open>transformWordPart\<close> from the same orchestrator code, so the orchestrator is stated
  over the word-part transformation \<open>tp\<close> it calls; \<open>Converter\<close> and \<open>Legacy\<close>
  instantiate it. The regular expression is modelled by the length of its greedy match at
  the start of a string (\<open>token_len\<close>: a run of letters, then as many
  separator-plus-letters groups as follow); \<open>matchAll\<close> by \<open>match_all_from\<close>, which
  tries each position in turn and resumes after a match; the loop by \<open>convert_loop\<close>.
  The lemmas show that the loop equals the recursive specification \<open>convert_spec\<close>
  (copy a non-letter, or transform the token that starts here), and, for every \<open>tp\<close>
  that maps letters to letters, that the non-letter characters of the input reappear in
  order. Against the token language, written as the automaton \<open>tok_rest\<close>/\<open>is_token\<close>,
  \<open>token_len\<close> is the longest match; the scan reports non-empty, ordered,
  non-overlapping matches, each a token, which together hold every letter of the input.
\<close>

definition is_sep :: "char \<Rightarrow> bool" where
  "is_sep c \<longleftrightarrow> c = CHR ''-'' \<or> c = CHR 0x27"

text \<open>\<open>token.split(/([-'])/)\<close>: the pieces between separators, with each separator kept.\<close>

fun split_seps :: "string \<Rightarrow> string list" where
  "split_seps [] = [[]]"
| "split_seps (c # cs) =
     (if is_sep c then [] # [c] # split_seps cs
      else (case split_seps cs of [] \<Rightarrow> [[c]] | p # ps \<Rightarrow> (c # p) # ps))"

definition transform_word_token :: "(string \<Rightarrow> string) \<Rightarrow> string \<Rightarrow> string" where
  "transform_word_token tp token =
     concat (map (\<lambda>p. if p = ''-'' \<or> p = [CHR 0x27] then p else tp p) (split_seps token))"

fun letters_len :: "string \<Rightarrow> nat" where
  "letters_len [] = 0"
| "letters_len (c # cs) = (if is_letter c then Suc (letters_len cs) else 0)"

fun groups_len :: "string \<Rightarrow> nat" where
  "groups_len [] = 0"
| "groups_len (c # cs) =
     (if is_sep c \<and> 0 < letters_len cs
      then Suc (letters_len cs) + groups_len (drop (letters_len cs) cs)
      else 0)"

definition token_len :: "string \<Rightarrow> nat" where
  "token_len s = (let n = letters_len s in if n = 0 then 0 else n + groups_len (drop n s))"

function match_all_from :: "string \<Rightarrow> nat \<Rightarrow> (nat \<times> string) list" where
  "match_all_from input i =
     (if i < length input then
        (let n = token_len (drop i input)
         in if n = 0 then match_all_from input (Suc i)
            else (i, take n (drop i input)) # match_all_from input (i + n))
      else [])"
  by pat_completeness auto
termination
  by (relation "measure (\<lambda>(input, i). length input - i)") (auto simp: Let_def)

definition match_all :: "string \<Rightarrow> (nat \<times> string) list" where
  "match_all input = match_all_from input 0"

fun convert_loop ::
  "(string \<Rightarrow> string) \<Rightarrow> string \<Rightarrow> (nat \<times> string) list \<Rightarrow> nat \<Rightarrow> string \<Rightarrow> string" where
  "convert_loop tp input [] lastIndex out = out @ drop lastIndex input"
| "convert_loop tp input ((idx, m) # ms) lastIndex out =
     convert_loop tp input ms (idx + length m)
       (out @ take (idx - lastIndex) (drop lastIndex input) @ transform_word_token tp m)"

text \<open>The specification: copy a character that starts no token, else transform the token.\<close>

function convert_spec :: "(string \<Rightarrow> string) \<Rightarrow> string \<Rightarrow> string" where
  "convert_spec tp [] = []"
| "convert_spec tp (c # cs) =
     (let n = token_len (c # cs)
      in if n = 0 then c # convert_spec tp cs
         else transform_word_token tp (take n (c # cs)) @ convert_spec tp (drop n (c # cs)))"
  by pat_completeness auto
termination
  by (relation "measure (\<lambda>(tp, s). length s)") (auto simp: Let_def)

text \<open>
  The language of \<open>WORD_TOKEN_RE\<close> as an automaton (a reference definition):
  \<open>tok_rest\<close> accepts what may follow a letter inside a token, namely further letters, or a
  separator that is followed by a letter.
\<close>

fun tok_rest :: "string \<Rightarrow> bool" where
  "tok_rest [] = True"
| "tok_rest (c # cs) =
     (if is_letter c then tok_rest cs
      else is_sep c \<and> (case cs of [] \<Rightarrow> False | d # ds \<Rightarrow> is_letter d \<and> tok_rest ds))"

definition is_token :: "string \<Rightarrow> bool" where
  "is_token s \<longleftrightarrow> (case s of [] \<Rightarrow> False | c # cs \<Rightarrow> is_letter c \<and> tok_rest cs)"

definition token_tail_len :: "string \<Rightarrow> nat" where
  "token_tail_len s = letters_len s + groups_len (drop (letters_len s) s)"

declare match_all_from.simps [simp del]

subsection \<open>The word-token expression\<close>

lemma letters_len_le: "letters_len s \<le> length s"
  by (induction s) auto

lemma groups_len_le: "groups_len s \<le> length s"
proof (induction s rule: groups_len.induct)
  case (2 c cs)
  then show ?case using letters_len_le [of cs] by auto
qed simp

lemma token_len_le: "token_len s \<le> length s"
  using letters_len_le [of s] groups_len_le [of "drop (letters_len s) s"]
  by (auto simp: token_len_def Let_def)

lemma token_len_Cons_zero: "\<not> is_letter c \<Longrightarrow> token_len (c # cs) = 0"
  by (simp add: token_len_def)

lemma letters_len_chars: "c \<in> set (take (letters_len s) s) \<Longrightarrow> is_letter c"
  by (induction s) (auto split: if_splits)

lemma groups_len_chars: "c \<in> set (take (groups_len s) s) \<Longrightarrow> is_letter c \<or> is_sep c"
proof (induction s rule: groups_len.induct)
  case (2 d cs)
  show ?case
  proof (cases "is_sep d \<and> 0 < letters_len cs")
    case True
    then have "c = d \<or> c \<in> set (take (letters_len cs) cs) \<or>
               c \<in> set (take (groups_len (drop (letters_len cs) cs)) (drop (letters_len cs) cs))"
      using "2.prems" by (auto simp: take_add)
    then show ?thesis using True "2.IH" letters_len_chars by blast
  next
    case False
    then show ?thesis using "2.prems" by (subst (asm) groups_len.simps, subst (asm) if_not_P) simp_all
  qed
qed simp

lemma token_chars: "c \<in> set (take (token_len s) s) \<Longrightarrow> is_letter c \<or> is_sep c"
  by (auto simp: token_len_def Let_def take_add split: if_splits
           dest: letters_len_chars groups_len_chars)

subsection \<open>The greedy length is the longest token\<close>

lemma is_sep_not_letter: "is_sep c \<Longrightarrow> \<not> is_letter c"
  by (auto simp: is_sep_def is_letter_def)

lemma letters_len_pos: "0 < letters_len cs \<longleftrightarrow> cs \<noteq> [] \<and> is_letter (hd cs)"
  by (cases cs) simp_all

lemma token_tail_len_Cons:
  "token_tail_len (c # cs) =
     (if is_letter c \<or> (is_sep c \<and> 0 < letters_len cs) then Suc (token_tail_len cs) else 0)"
  using is_sep_not_letter [of c] by (auto simp: token_tail_len_def)

lemma token_len_Cons: "token_len (c # cs) = (if is_letter c then Suc (token_tail_len cs) else 0)"
  by (simp add: token_len_def token_tail_len_def)

lemma tok_rest_tail_len: "tok_rest (take (token_tail_len s) s)"
proof (induction s)
  case (Cons c cs)
  show ?case
  proof (cases "is_letter c")
    case True
    then show ?thesis using Cons.IH by (simp add: token_tail_len_Cons)
  next
    case False
    show ?thesis
    proof (cases "is_sep c \<and> 0 < letters_len cs")
      case True
      then obtain d ds where cs: "cs = d # ds" and d: "is_letter d" by (cases cs) (auto split: if_splits)
      have "tok_rest (take (token_tail_len ds) ds)"
        using Cons.IH d by (simp add: cs token_tail_len_Cons)
      then show ?thesis using False True d by (simp add: cs token_tail_len_Cons)
    next
      case False
      then show ?thesis using \<open>\<not> is_letter c\<close> by (auto simp: token_tail_len_Cons)
    qed
  qed
qed simp

lemma tail_len_longest: "tok_rest (take n s) \<Longrightarrow> n \<le> length s \<Longrightarrow> n \<le> token_tail_len s"
proof (induction s arbitrary: n)
  case (Cons c cs)
  show ?case
  proof (cases n)
    case (Suc k)
    have rest: "tok_rest (take k cs)" and pos: "is_letter c \<or> (is_sep c \<and> 0 < letters_len cs)"
      using Cons.prems Suc by (cases cs; cases k; auto split: if_splits)+
    then have "k \<le> token_tail_len cs" using Cons.IH [of k] Cons.prems(2) Suc by simp
    then show ?thesis using Suc pos by (simp add: token_tail_len_Cons)
  qed simp
qed simp

subsection \<open>Splitting a token\<close>

lemma concat_split_seps: "concat (split_seps s) = s"
  by (induction s rule: split_seps.induct) (auto split: list.splits)

lemma split_seps_hd:
  "split_seps s \<noteq> [] \<and> (\<forall>c \<in> set (hd (split_seps s)). \<not> is_sep c)"
proof (induction s rule: split_seps.induct)
  case (2 c cs)
  show ?case
  proof (cases "is_sep c")
    case False
    then show ?thesis using "2.IH"(2) [OF False] by (cases "split_seps cs") simp_all
  qed simp
qed simp

lemma split_seps_parts:
  "p \<in> set (split_seps s) \<Longrightarrow> (\<exists>c. p = [c] \<and> is_sep c) \<or> (\<forall>c \<in> set p. \<not> is_sep c)"
proof (induction s arbitrary: p rule: split_seps.induct)
  case (2 c cs)
  show ?case
  proof (cases "is_sep c")
    case False
    then obtain q qs where q: "split_seps cs = q # qs" and "p = c # q \<or> p \<in> set qs"
      using "2.prems" split_seps_hd [of cs] by (auto split: list.splits)
    moreover have "\<forall>c \<in> set q. \<not> is_sep c" using split_seps_hd [of cs] q by simp
    moreover have "\<forall>p' \<in> set qs. (\<exists>c. p' = [c] \<and> is_sep c) \<or> (\<forall>c \<in> set p'. \<not> is_sep c)"
      using "2.IH"(2) [OF False] q by auto
    ultimately show ?thesis using False by auto
  qed (use "2.prems" "2.IH"(1) in auto)
qed simp

lemma split_seps_subset: "p \<in> set (split_seps s) \<Longrightarrow> set p \<subseteq> set s"
proof -
  assume "p \<in> set (split_seps s)"
  then have "set p \<subseteq> set (concat (split_seps s))" by auto
  then show ?thesis by (simp only: concat_split_seps)
qed

lemma transform_piece_nonletters:
  assumes p: "p \<in> set (split_seps tok)" and tok: "\<forall>c \<in> set tok. is_letter c \<or> is_sep c"
    and tp: "\<And>p. \<forall>c \<in> set p. is_letter c \<Longrightarrow> \<forall>c \<in> set (tp p). is_letter c"
  shows "filter (\<lambda>c. \<not> is_letter c)
           (if p = ''-'' \<or> p = [CHR 0x27] then p else tp p) =
         filter (\<lambda>c. \<not> is_letter c) p"
proof (cases "\<exists>c. p = [c] \<and> is_sep c")
  case True
  then obtain c where "p = [c]" and "is_sep c" by blast
  then show ?thesis by (auto simp: is_sep_def)
next
  case False
  then have nosep: "\<forall>c \<in> set p. \<not> is_sep c" using split_seps_parts [OF p] by blast
  have "set p \<subseteq> set tok" by (rule split_seps_subset [OF p])
  then have letters: "\<forall>c \<in> set p. is_letter c" using nosep tok by blast
  then have "filter (\<lambda>c. \<not> is_letter c) p = []" by (simp add: filter_empty_conv)
  moreover have "\<not> (p = ''-'' \<or> p = [CHR 0x27])"
  proof
    assume "p = ''-'' \<or> p = [CHR 0x27]"
    then have "hd p \<in> set p \<and> is_sep (hd p)" by (auto simp: is_sep_def)
    with nosep show False by blast
  qed
  moreover have "filter (\<lambda>c. \<not> is_letter c) (tp p) = []"
    using tp [OF letters] by (simp add: filter_empty_conv)
  ultimately show ?thesis by simp
qed

lemma transform_word_token_nonletters:
  assumes "\<forall>c \<in> set tok. is_letter c \<or> is_sep c"
    and tp: "\<And>p. \<forall>c \<in> set p. is_letter c \<Longrightarrow> \<forall>c \<in> set (tp p). is_letter c"
  shows "filter (\<lambda>c. \<not> is_letter c) (transform_word_token tp tok) =
         filter (\<lambda>c. \<not> is_letter c) tok"
proof -
  let ?f = "\<lambda>p. if p = ''-'' \<or> p = [CHR 0x27] then p else tp p"
  have "filter (\<lambda>c. \<not> is_letter c) (transform_word_token tp tok) =
        concat (map (filter (\<lambda>c. \<not> is_letter c) \<circ> ?f) (split_seps tok))"
    by (simp add: transform_word_token_def filter_concat)
  also have "\<dots> = concat (map (filter (\<lambda>c. \<not> is_letter c)) (split_seps tok))"
    using transform_piece_nonletters [where tp = tp, OF _ assms(1) tp] by (intro arg_cong [where f = concat] map_cong) auto
  also have "\<dots> = filter (\<lambda>c. \<not> is_letter c) (concat (split_seps tok))"
    by (simp add: filter_concat)
  finally show ?thesis by (simp only: concat_split_seps)
qed

lemma filter_nonletters_to_upper:
  "filter (\<lambda>c. \<not> is_letter c) (to_upper s) = filter (\<lambda>c. \<not> is_letter c) s"
proof (induction s)
  case (Cons c s)
  have "\<not> is_letter c \<Longrightarrow> to_upper_char c = c"
    by (auto simp: to_upper_char_def is_ascii_lower_def is_letter_def Let_def)
  then show ?case using Cons by simp
qed simp

subsection \<open>The loop of \<open>convertText\<close> against the specification\<close>

lemma convert_spec_nonempty:
  "s \<noteq> [] \<Longrightarrow> convert_spec tp s =
     (let n = token_len s
      in if n = 0 then hd s # convert_spec tp (tl s)
         else transform_word_token tp (take n s) @ convert_spec tp (drop n s))"
  by (cases s) (simp_all add: Let_def)

lemma convert_loop_match_all_from:
  "lastIndex \<le> i \<Longrightarrow>
   convert_loop tp input (match_all_from input i) lastIndex out =
     out @ take (i - lastIndex) (drop lastIndex input) @ convert_spec tp (drop i input)"
proof (induction input i arbitrary: lastIndex out rule: match_all_from.induct)
  case (1 input i)
  show ?case
  proof (cases "i < length input")
    case False
    then show ?thesis by (simp add: match_all_from.simps [of input i])
  next
    case True
    let ?n = "token_len (drop i input)"
    have spec: "convert_spec tp (drop i input) =
       (if ?n = 0 then input ! i # convert_spec tp (drop (Suc i) input)
        else transform_word_token tp (take ?n (drop i input)) @ convert_spec tp (drop (i + ?n) input))"
      using True convert_spec_nonempty [of "drop i input" tp]
      by (simp add: Let_def hd_drop_conv_nth tl_drop drop_Suc add.commute)
    show ?thesis
    proof (cases "?n = 0")
      case True
      with \<open>i < length input\<close> "1.IH"(1) [of ?n lastIndex out] "1.prems" show ?thesis
        by (simp add: match_all_from.simps [of input i] spec take_Suc_conv_app_nth
                      Suc_diff_le Let_def)
    next
      case False
      have len: "min (length input - i) ?n = ?n"
        using token_len_le [of "drop i input"] by simp
      from False \<open>i < length input\<close> "1.IH"(2) [of ?n "i + ?n" _] show ?thesis
        by (simp add: match_all_from.simps [of input i] spec len Let_def)
    qed
  qed
qed

lemma convert_loop_match_all: "convert_loop tp input (match_all input) 0 [] = convert_spec tp input"
  using convert_loop_match_all_from [of 0 0 tp input "[]"] by (simp add: match_all_def)

lemma convert_spec_nonletters:
  assumes tp: "\<And>p. \<forall>c \<in> set p. is_letter c \<Longrightarrow> \<forall>c \<in> set (tp p). is_letter c"
  shows "filter (\<lambda>c. \<not> is_letter c) (convert_spec tp s) = filter (\<lambda>c. \<not> is_letter c) s"
proof (induction s rule: length_induct)
  case (1 s)
  show ?case
  proof (cases s)
    case (Cons c cs)
    let ?n = "token_len (c # cs)"
    show ?thesis
    proof (cases "?n = 0")
      case True
      then show ?thesis using "1.IH" Cons by (simp add: Let_def)
    next
      case False
      have tok: "\<forall>d \<in> set (take ?n (c # cs)). is_letter d \<or> is_sep d" using token_chars by blast
      have "filter (\<lambda>c. \<not> is_letter c) (c # cs) =
            filter (\<lambda>c. \<not> is_letter c) (take ?n (c # cs)) @
            filter (\<lambda>c. \<not> is_letter c) (drop ?n (c # cs))"
        by (metis append_take_drop_id filter_append)
      moreover have "length (drop ?n (c # cs)) < length s" using False Cons by simp
      ultimately show ?thesis
        using False Cons "1.IH" transform_word_token_nonletters [where tp = tp, OF tok tp] by (simp add: Let_def)
    qed
  qed simp
qed

lemma convert_spec_gap:
  "\<forall>c \<in> set g. \<not> is_letter c \<Longrightarrow> convert_spec tp (g @ rest) = g @ convert_spec tp rest"
  by (induction g) (simp_all add: token_len_Cons_zero)

lemma to_upper_nonletters: "\<forall>c \<in> set g. \<not> is_letter c \<Longrightarrow> to_upper g = g"
  by (induction g) (auto simp: to_upper_char_def is_ascii_lower_def is_letter_def Let_def)

lemma match_all_from_props:
  "(\<forall>p \<in> set (match_all_from input k). k \<le> fst p \<and> 0 < length (snd p) \<and>
      fst p + length (snd p) \<le> length input \<and> snd p = take (length (snd p)) (drop (fst p) input)) \<and>
   sorted_wrt (\<lambda>p q. fst p + length (snd p) \<le> fst q) (match_all_from input k) \<and>
   length (match_all_from input k) \<le> length input - k"
proof (induction input k rule: match_all_from.induct)
  case (1 input k)
  show ?case
  proof (cases "k < length input")
    case False
    then show ?thesis by (simp add: match_all_from.simps [of input k])
  next
    case True
    let ?n = "token_len (drop k input)"
    show ?thesis
    proof (cases "?n = 0")
      case True
      have eq: "match_all_from input k = match_all_from input (Suc k)"
        using \<open>k < length input\<close> True by (simp add: match_all_from.simps [of input k])
      show ?thesis
        unfolding eq using "1.IH"(1) [OF \<open>k < length input\<close> refl True] by fastforce
    next
      case False
      have le: "?n \<le> length input - k" using token_len_le [of "drop k input"] by simp
      have eq: "match_all_from input k = (k, take ?n (drop k input)) # match_all_from input (k + ?n)"
        using \<open>k < length input\<close> False by (simp add: match_all_from.simps [of input k] Let_def)
      have IH: "(\<forall>p \<in> set (match_all_from input (k + ?n)). k + ?n \<le> fst p \<and> 0 < length (snd p) \<and>
                  fst p + length (snd p) \<le> length input \<and>
                  snd p = take (length (snd p)) (drop (fst p) input)) \<and>
                sorted_wrt (\<lambda>p q. fst p + length (snd p) \<le> fst q) (match_all_from input (k + ?n)) \<and>
                length (match_all_from input (k + ?n)) \<le> length input - (k + ?n)"
        using "1.IH"(2) [OF \<open>k < length input\<close> refl False] .
      show ?thesis
        unfolding eq using IH le False by (auto simp: min_def)
    qed
  qed
qed

lemma token_len_is_token: "0 < token_len s \<Longrightarrow> is_token (take (token_len s) s)"
proof (cases s)
  case (Cons c cs)
  then show "0 < token_len s \<Longrightarrow> ?thesis"
    using tok_rest_tail_len [of cs] by (simp add: token_len_Cons is_token_def split: if_splits)
qed (simp add: token_len_def)

lemma match_all_from_letters:
  "filter is_letter (drop k input) =
     concat (map (\<lambda>(i, m). filter is_letter m) (match_all_from input k)) \<and>
   list_all (\<lambda>(i, m). is_token m) (match_all_from input k)"
proof (induction input k rule: match_all_from.induct)
  case (1 input k)
  show ?case
  proof (cases "k < length input")
    case False
    then show ?thesis by (simp add: match_all_from.simps [of input k])
  next
    case True
    let ?n = "token_len (drop k input)"
    have split: "drop k input = input ! k # drop (Suc k) input"
      using True by (simp add: Cons_nth_drop_Suc)
    show ?thesis
    proof (cases "?n = 0")
      case True
      then have "\<not> is_letter (input ! k)" using split token_len_Cons [of "input ! k"] by (auto split: if_splits)
      moreover have "match_all_from input k = match_all_from input (Suc k)"
        using \<open>k < length input\<close> True by (simp add: match_all_from.simps [of input k])
      ultimately show ?thesis using "1.IH"(1) [OF \<open>k < length input\<close> refl True] split by simp
    next
      case False
      have eq: "match_all_from input k = (k, take ?n (drop k input)) # match_all_from input (k + ?n)"
        using \<open>k < length input\<close> False by (simp add: match_all_from.simps [of input k] Let_def)
      have "filter is_letter (drop k input) =
            filter is_letter (take ?n (drop k input)) @ filter is_letter (drop (k + ?n) input)"
        by (metis append_take_drop_id drop_drop filter_append add.commute)
      then show ?thesis
        using "1.IH"(2) [OF \<open>k < length input\<close> refl False] token_len_is_token [of "drop k input"] False eq
        by simp
    qed
  qed
qed

lemma convert_spec_no_lower:
  assumes tp: "\<And>p c. c \<in> set (tp p) \<Longrightarrow> \<not> is_ascii_lower c"
  shows "c \<in> set (convert_spec tp s) \<Longrightarrow> \<not> is_ascii_lower c"
proof (induction s rule: length_induct)
  case (1 s)
  show ?case
  proof (cases s)
    case (Cons d ds)
    let ?n = "token_len (d # ds)"
    have word: "c \<in> set (transform_word_token tp m) \<Longrightarrow> \<not> is_ascii_lower c" for m
      using tp by (auto simp: transform_word_token_def is_ascii_lower_def split: if_splits)
    show ?thesis
    proof (cases "?n = 0")
      case True
      then have "\<not> is_letter d" by (simp add: token_len_Cons split: if_splits)
      then have "\<not> is_ascii_lower d" by (auto simp: is_letter_def is_ascii_lower_def Let_def)
      then show ?thesis using "1.IH" "1.prems" Cons True by (auto simp: Let_def)
    next
      case False
      have "length (drop ?n (d # ds)) < length s" using False Cons by simp
      then show ?thesis using "1.IH" "1.prems" Cons False word by (auto simp: Let_def)
    qed
  qed (use "1.prems" in simp)
qed

subsection \<open>Claims of the token orchestrator\<close>

text \<open>
  Claim C28: \<open>token_len\<close> is the match of \<open>WORD_TOKEN_RE\<close> at the start of a string:
  when it is positive, the prefix it measures is a token (letters, each hyphen or
  apostrophe between letters), and no longer prefix is a token. For this pattern the greedy
  match of JavaScript's engine is the longest one, so this is the \<open>m[0]\<close> that
  \<open>matchAll\<close> reports.
\<close>

theorem token_len_longest_match:
  "(0 < token_len s \<longrightarrow> is_token (take (token_len s) s)) \<and>
   (\<forall>n \<le> length s. is_token (take n s) \<longrightarrow> n \<le> token_len s)"
proof (cases s)
  case (Cons c cs)
  have "0 < token_len s \<Longrightarrow> is_token (take (token_len s) s)" by (rule token_len_is_token)
  moreover have "n \<le> length s \<Longrightarrow> is_token (take n s) \<Longrightarrow> n \<le> token_len s" for n
    using tail_len_longest [of "n - 1" cs] Cons
    by (cases n) (simp_all add: token_len_Cons is_token_def)
  ultimately show ?thesis by blast
qed (simp add: is_token_def token_len_def)

theorem token_len_longest_match_witness:
  "token_len ''don't stop'' = 5 \<and> is_token (take 5 ''don't stop'') \<and>
   \<not> is_token (take 6 ''don't stop'')"
proof -
  have h: "token_len ''don't stop'' = 5" by code_simp
  have "\<not> is_token (take 6 ''don't stop'')" by code_simp
  then show ?thesis using token_len_longest_match [of "''don't stop''"] h by simp
qed

text \<open>
  Claim C29: \<open>matchAll\<close> with \<open>WORD_TOKEN_RE\<close> reports only tokens of the pattern, and
  together they hold every letter of the input, in order: the text the loop of
  \<open>convertText\<close> copies between matches contains no letter, so no letter of the input
  escapes the transformation.
\<close>

theorem match_all_covers_letters:
  "filter is_letter input = concat (map (\<lambda>(i, m). filter is_letter m) (match_all input)) \<and>
   list_all (\<lambda>(i, m). is_token m) (match_all input)"
  using match_all_from_letters [of 0 input] by (simp add: match_all_def)

end
