(* ===== verification/Exceptions.thy ===== *)
theory Exceptions
  imports Segments
begin

text \<open>
  The exception matcher of \<open>src/unnamed/part_000\<close>: the editable table
  \<open>EXCEPTIONS\<close> (lines 22--44) and \<open>applyExceptions\<close> (lines 88--104). The table
  holds JavaScript objects; the loop body reads an entry through two guards: a
  \<open>type\<close> of \<open>"literal"\<close> (its \<open>match\<close> compared case-insensitively), a
  \<open>type\<close> of \<open>"regex"\<close> with a RegExp in \<open>re\<close>, or anything else, which the loop
  skips (\<open>parse_entry\<close>). Every regular expression of the table has the shape
  \<open>/^(w1|...|wn)$/i\<close>: an anchored, case-insensitive alternation of words, modelled
  as the list of its alternatives. An output is a fixed string or a function of the
  word-part; for an anchored whole-word pattern every capture the function could read is
  the word-part itself. The result \<open>{hit, out}\<close> is an option: \<open>Some out\<close> on a hit.
  The lemmas show that the first matching entry in table order decides, which entries are
  skipped and that an entry without output is not, that the lookup is case-insensitive, and
  that every output of the shipped table is an upper-case word.
\<close>

text \<open>
  The values an entry's fields can hold, as far as \<open>applyExceptions\<close> tells them apart:
  strings, regular expressions (a literal \<open>/^(w1|...|wn)$/i\<close>: its source text and its
  alternatives), functions (source text and behaviour on the word-part), \<open>undefined\<close>,
  \<open>null\<close>, and any other value with the text \<open>String(v)\<close> gives for it.
\<close>

datatype js_val =
    JUndefined | JNull | JString string | JRegExp string "string list"
  | JFunction string "string \<Rightarrow> string" | JOther string

text \<open>An element of the table: an object literal (its properties in order) or a nullish element.\<close>

datatype exc_entry = ExEntry "(string \<times> js_val) list" | ExNullish

text \<open>What an entry means once the guards of the loop have looked at it.\<close>

datatype exc_out = OutStr string | OutFn "string \<Rightarrow> string"

datatype exc_rule =
    ExLiteral string exc_out
  | ExRegex "string list" exc_out
  | ExSkipped

text \<open>\<open>ex?.k\<close>: a missing property, or any property of a nullish element, is \<open>None\<close>.\<close>

definition js_prop :: "exc_entry \<Rightarrow> string \<Rightarrow> js_val option" where
  "js_prop e k = (case e of ExEntry ps \<Rightarrow> map_of ps k | ExNullish \<Rightarrow> None)"

text \<open>\<open>String(v)\<close>, \<open>v ?? d\<close>, \<open>v === "s"\<close> and \<open>v instanceof RegExp\<close>.\<close>

fun js_string :: "js_val \<Rightarrow> string" where
  "js_string JUndefined = ''undefined''"
| "js_string JNull = ''null''"
| "js_string (JString s) = s"
| "js_string (JRegExp src alts) = src"
| "js_string (JFunction src f) = src"
| "js_string (JOther s) = s"

definition nullish :: "js_val option \<Rightarrow> js_val \<Rightarrow> js_val" where
  "nullish v d = (case v of None \<Rightarrow> d | Some JUndefined \<Rightarrow> d | Some JNull \<Rightarrow> d | Some x \<Rightarrow> x)"

fun is_js_string :: "js_val option \<Rightarrow> string \<Rightarrow> bool" where
  "is_js_string (Some (JString t)) s \<longleftrightarrow> t = s"
| "is_js_string v s \<longleftrightarrow> False"

fun regexp_alts :: "js_val option \<Rightarrow> string list option" where
  "regexp_alts (Some (JRegExp src alts)) = Some alts"
| "regexp_alts v = None"

text \<open>Lines 92 and 98: a function is called, anything else becomes \<open>String(ex.out ?? "")\<close>.\<close>

definition entry_output :: "js_val option \<Rightarrow> exc_out" where
  "entry_output v = (case v of Some (JFunction src f) \<Rightarrow> OutFn f | _ \<Rightarrow> OutStr (js_string (nullish v (JString []))))"

text \<open>Lines 90--91 and 95: the two guards of the loop body and the default of \<open>ex.match\<close>.\<close>

definition parse_entry :: "exc_entry \<Rightarrow> exc_rule" where
  "parse_entry e =
     (if is_js_string (js_prop e ''type'') ''literal''
      then ExLiteral (js_string (nullish (js_prop e ''match'') (JString []))) (entry_output (js_prop e ''out''))
      else if is_js_string (js_prop e ''type'') ''regex''
      then (case regexp_alts (js_prop e ''re'') of
              Some alts \<Rightarrow> ExRegex alts (entry_output (js_prop e ''out''))
            | None \<Rightarrow> ExSkipped)
      else ExSkipped)"

definition exc_output :: "exc_out \<Rightarrow> string \<Rightarrow> string" where
  "exc_output out w = (case out of OutStr s \<Rightarrow> s | OutFn f \<Rightarrow> f w)"

text \<open>\<open>wordPart.match(/^(w1|...|wn)$/i)\<close> succeeds.\<close>

definition regex_whole_match :: "string list \<Rightarrow> string \<Rightarrow> bool" where
  "regex_whole_match alts w \<longleftrightarrow> to_lower w \<in> set (map to_lower alts)"

text \<open>The loop of \<open>applyExceptions\<close> over the entries as their guards read them.\<close>

fun apply_exception_rules :: "exc_rule list \<Rightarrow> string \<Rightarrow> string option" where
  "apply_exception_rules [] w = None"
| "apply_exception_rules (ExLiteral m out # rest) w =
     (if to_lower w = to_lower m then Some (exc_output out w) else apply_exception_rules rest w)"
| "apply_exception_rules (ExRegex alts out # rest) w =
     (if regex_whole_match alts w then Some (exc_output out w) else apply_exception_rules rest w)"
| "apply_exception_rules (ExSkipped # rest) w = apply_exception_rules rest w"

definition apply_exception_entries :: "exc_entry list \<Rightarrow> string \<Rightarrow> string option" where
  "apply_exception_entries es w = apply_exception_rules (map parse_entry es) w"

text \<open>An entry \<open>{ type: "regex", re: /.../i, out: "..." }\<close> of the table.\<close>

abbreviation regex_entry :: "string \<Rightarrow> string list \<Rightarrow> string \<Rightarrow> exc_entry" where
  "regex_entry src alts out \<equiv>
     ExEntry [(''type'', JString ''regex''), (''re'', JRegExp src alts), (''out'', JString out)]"

definition EXCEPTIONS :: "exc_entry list" where
  "EXCEPTIONS =
     [regex_entry ''/^very$/i'' [''very''] ''WELL'',
      regex_entry ''/^well$/i'' [''well''] ''WELL'',
      regex_entry ''/^(you|your)$/i'' [''you'', ''your''] ''YA'',
      regex_entry ''/^the$/i'' [''the''] ''THA'',
      regex_entry ''/^for$/i'' [''for''] ''FA'',
      regex_entry ''/^please$/i'' [''please''] ''PALEASE'',
      regex_entry ''/^deadline$/i'' [''deadline''] ''DODLINE'',
      regex_entry ''/^mistakes$/i'' [''mistakes''] ''MOSTAKES'',
      regex_entry ''/^aminur$/i'' [''aminur''] ''AMINAH'',
      regex_entry ''/^date$/i'' [''date''] ''DATE'',
      regex_entry ''/^name$/i'' [''name''] ''NAME'',
      regex_entry ''/^set$/i'' [''set''] ''SOT'']"

definition apply_exceptions :: "string \<Rightarrow> string option" where
  "apply_exceptions w = apply_exception_entries EXCEPTIONS w"

text \<open>The specification of one entry: does it match, and what does it give.\<close>

fun rule_matches :: "string \<Rightarrow> exc_rule \<Rightarrow> bool" where
  "rule_matches w (ExLiteral m out) \<longleftrightarrow> to_lower w = to_lower m"
| "rule_matches w (ExRegex alts out) \<longleftrightarrow> regex_whole_match alts w"
| "rule_matches w ExSkipped \<longleftrightarrow> False"

fun rule_output :: "exc_rule \<Rightarrow> string \<Rightarrow> string" where
  "rule_output (ExLiteral m out) w = exc_output out w"
| "rule_output (ExRegex alts out) w = exc_output out w"
| "rule_output ExSkipped w = w"


lemma EXCEPTIONS_rules:
  "map parse_entry EXCEPTIONS =
     [ExRegex [''very''] (OutStr ''WELL''), ExRegex [''well''] (OutStr ''WELL''),
      ExRegex [''you'', ''your''] (OutStr ''YA''), ExRegex [''the''] (OutStr ''THA''),
      ExRegex [''for''] (OutStr ''FA''), ExRegex [''please''] (OutStr ''PALEASE''),
      ExRegex [''deadline''] (OutStr ''DODLINE''), ExRegex [''mistakes''] (OutStr ''MOSTAKES''),
      ExRegex [''aminur''] (OutStr ''AMINAH''), ExRegex [''date''] (OutStr ''DATE''),
      ExRegex [''name''] (OutStr ''NAME''), ExRegex [''set''] (OutStr ''SOT'')]"
  by (simp add: EXCEPTIONS_def parse_entry_def js_prop_def entry_output_def nullish_def)

lemmas [text_simps] = EXCEPTIONS_rules apply_exceptions_def apply_exception_entries_def
  regex_whole_match_def exc_output_def

subsection \<open>The matcher against its specification\<close>

lemma apply_exception_rules_find:
  "apply_exception_rules rs w =
     map_option (\<lambda>r. rule_output r w) (find (rule_matches w) rs)"
  by (induction rs w rule: apply_exception_rules.induct) auto




lemma apply_exception_rules_SomeD:
  "apply_exception_rules rs w = Some out \<Longrightarrow> \<exists>r \<in> set rs. rule_matches w r \<and> out = rule_output r w"
  by (auto simp: apply_exception_rules_find find_Some_iff)

lemma apply_exceptions_outputs:
  "apply_exceptions w = Some out \<Longrightarrow>
   out \<in> {''WELL'', ''YA'', ''THA'', ''FA'', ''PALEASE'', ''DODLINE'', ''MOSTAKES'', ''AMINAH'',
          ''DATE'', ''NAME'', ''SOT''}"
  unfolding apply_exceptions_def apply_exception_entries_def EXCEPTIONS_rules
  by (drule apply_exception_rules_SomeD) (auto simp: exc_output_def)

lemma EXCEPTIONS_outputs_upper_letters:
  "apply_exceptions w = Some out \<Longrightarrow>
   (\<forall>c \<in> set out. is_letter c \<and> \<not> is_ascii_lower c)"
  by (drule apply_exceptions_outputs) (auto simp: is_letter_def is_ascii_lower_def)


subsection \<open>Claims of the exception matcher\<close>

text \<open>
  Claim C13: the first matching entry in table order decides: when no entry before
  \<open>r\<close> matches the word-part and \<open>r\<close> does, \<open>applyExceptions\<close> returns a hit with
  \<open>r\<close>'s output, whatever follows in the table.
\<close>

theorem first_match_wins:
  "(\<forall>r' \<in> set rs1. \<not> rule_matches w r') \<Longrightarrow> rule_matches w r \<Longrightarrow>
   apply_exception_rules (rs1 @ r # rs2) w = Some (rule_output r w)"
  by (induction rs1) (auto simp: apply_exception_rules_find)

theorem first_match_wins_witness:
  "list_all (\<lambda>r'. \<not> rule_matches ''The'' r') [ExRegex [''well''] (OutStr ''WELL'')] \<and>
   rule_matches ''The'' (ExRegex [''the''] (OutStr ''THA'')) \<and>
   apply_exception_rules
     ([ExRegex [''well''] (OutStr ''WELL'')] @ ExRegex [''the''] (OutStr ''THA'') #
      [ExLiteral ''the'' (OutStr ''X'')]) ''The'' = Some ''THA''"
proof -
  have h1: "\<forall>r' \<in> set [ExRegex [''well''] (OutStr ''WELL'')]. \<not> rule_matches ''The'' r'"
    by (simp add: text_simps)
  have h2: "rule_matches ''The'' (ExRegex [''the''] (OutStr ''THA''))"
    by (simp add: text_simps)
  show ?thesis
    using first_match_wins [OF h1 h2, of "[ExLiteral ''the'' (OutStr ''X'')]"] h1 h2
    by (simp add: exc_output_def)
qed



text \<open>
  Claim C15: the error paths of the table. A nullish element is skipped (\<open>ex?.type\<close>),
  and so is a regex entry whose \<open>re\<close> is not a RegExp, such as a pattern written as a
  string; but an entry without \<open>out\<close> is not skipped: \<open>String(ex.out ?? "")\<close> makes
  it a hit whose output is empty, so the word-part is deleted.
\<close>

theorem malformed_entries:
  "apply_exception_entries (ExNullish # es) w = apply_exception_entries es w \<and>
   apply_exception_entries
     (ExEntry [(''type'', JString ''regex''), (''re'', JString r), (''out'', out)] # es) w =
     apply_exception_entries es w \<and>
   apply_exception_entries (ExEntry [(''type'', JString ''literal''), (''match'', JString m)] # es) w =
     (if to_lower w = to_lower m then Some [] else apply_exception_entries es w) \<and>
   apply_exception_entries (ExEntry [(''type'', JString ''regex''), (''re'', JRegExp src alts)] # es) w =
     (if regex_whole_match alts w then Some [] else apply_exception_entries es w)"
  by (simp add: apply_exception_entries_def parse_entry_def js_prop_def entry_output_def nullish_def
      exc_output_def)

end
