(* ===== verification/Suffix.thy ===== *)
theory Suffix
  imports Segments
begin

text \<open>
  The suffix rule set of \<open>src/unnamed/part_000\<close> (lines 116--218) and its place in
  \<open>transformWordPart\<close> (lines 369--378): the two in-word pair rewrites ER\<open>\<rightarrow>\<close>AH
  and IR\<open>\<rightarrow>\<close>AR, the ending rewrites TION, TY, LY/LEY, the ending-AH rule that
  reports \<open>endingChangedToAH\<close>, and AY and final Y. The pair rewrites are the
  source's index loop (\<open>replace_all_pair\<close>, with the \<open>i += 1\<close> skip), proved equal
  to a structural reference \<open>replace_pairs\<close> that reads like the Serbian digraph
  transliteration. The lemmas show that each stage keeps the origin invariant and
  letters-only text, that no upper-case ER pair survives the first pass, and that in
  consequence the ER branch of \<open>applyEndingAH\<close> can never fire inside the pipeline.
\<close>

subsection \<open>In-word pair rewrites\<close>

text \<open>
  \<open>for (let i = 0; i < segs.length - 1; i++) { if (A === a && B === b)
  { spliceSegs(segs, i, i + 2, segFromString(cd, false)); i += 1; } }\<close>. The
  replacement has two characters, so the array keeps its length and \<open>length segs - i\<close>
  decreases.
\<close>

function replace_all_pair :: "char \<Rightarrow> char \<Rightarrow> char \<Rightarrow> char \<Rightarrow> segs \<Rightarrow> nat \<Rightarrow> segs" where
  "replace_all_pair a b c d segs i =
     (if i < length segs - 1 then
        (if to_upper_char (ch (segs ! i)) = a \<and> to_upper_char (ch (segs ! (i + 1))) = b
         then replace_all_pair a b c d (splice_segs segs i (i + 2) (seg_from_string [c, d] False)) (i + 2)
         else replace_all_pair a b c d segs (i + 1))
      else segs)"
  by pat_completeness auto
termination
  by (relation "measure (\<lambda>(a, b, c, d, segs, i). length segs - i)") (auto simp: splice_segs_def)

definition replace_all_ER_with_AH :: "segs \<Rightarrow> segs" where
  "replace_all_ER_with_AH segs = replace_all_pair (CHR ''E'') (CHR ''R'') (CHR ''A'') (CHR ''H'') segs 0"

definition replace_all_IR_with_AR :: "segs \<Rightarrow> segs" where
  "replace_all_IR_with_AR segs = replace_all_pair (CHR ''I'') (CHR ''R'') (CHR ''A'') (CHR ''R'') segs 0"

text \<open>The reference: one left-to-right pass over non-overlapping pairs.\<close>

fun replace_pairs :: "char \<Rightarrow> char \<Rightarrow> char \<Rightarrow> char \<Rightarrow> segs \<Rightarrow> segs" where
  "replace_pairs a b c d (s1 # s2 # rest) =
     (if to_upper_char (ch s1) = a \<and> to_upper_char (ch s2) = b
      then seg_from_string [c, d] False @ replace_pairs a b c d rest
      else s1 # replace_pairs a b c d (s2 # rest))"
| "replace_pairs a b c d segs = segs"

text \<open>An upper-case pair \<open>x y\<close> at some adjacent positions (a specification predicate).\<close>

fun has_pair :: "char \<Rightarrow> char \<Rightarrow> segs \<Rightarrow> bool" where
  "has_pair x y (s1 # s2 # rest) =
     ((to_upper_char (ch s1) = x \<and> to_upper_char (ch s2) = y) \<or> has_pair x y (s2 # rest))"
| "has_pair x y segs = False"

subsection \<open>Ending rewrites\<close>

text \<open>
  \<open>replaceEndingTION\<close>, \<open>replaceEndingTY\<close> and \<open>replaceEndingAY\<close> share one shape:
  if the upper-cased text ends with \<open>suf\<close> and the array is long enough, the last
  \<open>|suf|\<close> segments are replaced by synthesized \<open>rep\<close>. Their boolean results are
  discarded by \<open>transformWordPart\<close> and are not modelled.
\<close>

definition replace_ending :: "string \<Rightarrow> string \<Rightarrow> segs \<Rightarrow> segs" where
  "replace_ending suf rep segs =
     (let s = to_upper (seg_to_string segs)
      in if ends_with s suf \<and> length suf \<le> length segs
         then splice_segs segs (length segs - length suf) (length segs) (seg_from_string rep False)
         else segs)"

definition replace_ending_TION :: "segs \<Rightarrow> segs" where
  "replace_ending_TION = replace_ending ''TION'' ''SHAN''"

definition replace_ending_TY :: "segs \<Rightarrow> segs" where
  "replace_ending_TY = replace_ending ''TY'' ''TEH''"

definition replace_ending_AY :: "segs \<Rightarrow> segs" where
  "replace_ending_AY = replace_ending ''AY'' ''AEH''"

definition replace_ending_LY :: "segs \<Rightarrow> segs" where
  "replace_ending_LY segs =
     (let s = to_upper (seg_to_string segs)
      in if ends_with s ''LEY'' \<and> 3 \<le> length segs
         then splice_segs segs (length segs - 3) (length segs) (seg_from_string ''LEH'' False)
         else if ends_with s ''LY'' \<and> 2 \<le> length segs
         then splice_segs segs (length segs - 2) (length segs) (seg_from_string ''LEH'' False)
         else segs)"

definition apply_ending_AH :: "segs \<Rightarrow> segs \<times> bool" where
  "apply_ending_AH segs =
     (let s = to_upper (seg_to_string segs)
      in if ends_with s ''ER'' \<or> ends_with s ''UR''
         then (splice_segs segs (length segs - 2) (length segs) (seg_from_string ''AH'' False), True)
         else if ends_with s ''A''
         then (splice_segs segs (length segs - 1) (length segs) (seg_from_string ''AH'' False), True)
         else (segs, False))"

definition replace_ending_Y_to_EH :: "segs \<Rightarrow> segs" where
  "replace_ending_Y_to_EH segs =
     (let s = to_upper (seg_to_string segs)
      in if ends_with s ''LY'' \<or> ends_with s ''LEY'' \<or> ends_with s ''TY'' then segs
         else if ends_with s ''Y'' \<and> 1 \<le> length segs
         then splice_segs segs (length segs - 1) (length segs) (seg_from_string ''EH'' False)
         else segs)"

subsection \<open>The suffix stage of \<open>transformWordPart\<close>\<close>

text \<open>Lines 369--373: the rules that run before \<open>applyEndingAH\<close>.\<close>

definition suffix_rules_before_AH :: "segs \<Rightarrow> segs" where
  "suffix_rules_before_AH segs =
     (let segs = replace_all_ER_with_AH segs;
          segs = replace_all_IR_with_AR segs;
          segs = replace_ending_TION segs;
          segs = replace_ending_TY segs
      in replace_ending_LY segs)"

text \<open>Lines 369--378: the whole stage, returning the flag \<open>endingChangedToAH\<close>.\<close>

definition suffix_transforms :: "segs \<Rightarrow> segs \<times> bool" where
  "suffix_transforms segs =
     (let segs = suffix_rules_before_AH segs;
          (segs, ending_changed_to_AH) = apply_ending_AH segs;
          segs = replace_ending_AY segs;
          segs = replace_ending_Y_to_EH segs
      in (segs, ending_changed_to_AH))"

declare replace_all_pair.simps [simp del]

subsection \<open>The loop against the reference\<close>

lemma replace_pairs_short: "length xs \<le> 1 \<Longrightarrow> replace_pairs a b c d xs = xs"
  by (cases xs; cases "tl xs") auto

lemma drop_pair_conv:
  "i < length segs - 1 \<Longrightarrow> drop i segs = segs ! i # segs ! (i + 1) # drop (i + 2) segs"
  by (simp add: Cons_nth_drop_Suc)

text \<open>One iteration of the loop, on a match and on a miss, seen through the reference.\<close>

lemma replace_pairs_step_match:
  assumes "i < length segs - 1"
    and "to_upper_char (ch (segs ! i)) = a \<and> to_upper_char (ch (segs ! (i + 1))) = b"
  shows "take (i + 2) (splice_segs segs i (i + 2) (seg_from_string [c, d] False)) @
           replace_pairs a b c d (drop (i + 2) (splice_segs segs i (i + 2) (seg_from_string [c, d] False)))
         = take i segs @ replace_pairs a b c d (drop i segs)"
  using assms drop_pair_conv [OF assms(1)] by (simp add: splice_segs_def seg_from_string_def)

lemma replace_pairs_step_miss:
  assumes T: "i < length segs - 1"
    and nm: "\<not> (to_upper_char (ch (segs ! i)) = a \<and> to_upper_char (ch (segs ! (i + 1))) = b)"
  shows "take (i + 1) segs @ replace_pairs a b c d (drop (i + 1) segs)
         = take i segs @ replace_pairs a b c d (drop i segs)"
proof -
  have d1: "drop (i + 1) segs = segs ! (i + 1) # drop (i + 2) segs"
    using T by (simp add: Cons_nth_drop_Suc)
  have "replace_pairs a b c d (drop i segs) = segs ! i # replace_pairs a b c d (drop (i + 1) segs)"
    using nm by (simp only: drop_pair_conv [OF T] d1 replace_pairs.simps(1) if_False)
  moreover have "take (i + 1) segs = take i segs @ [segs ! i]"
    using T by (simp add: take_Suc_conv_app_nth)
  ultimately show ?thesis by simp
qed

lemma replace_all_pair_eq_replace_pairs:
  "replace_all_pair a b c d segs i = take i segs @ replace_pairs a b c d (drop i segs)"
proof (induction a b c d segs i rule: replace_all_pair.induct)
  case (1 a b c d segs i)
  show ?case
  proof (cases "i < length segs - 1")
    case False
    then have "length (drop i segs) \<le> 1" by simp
    then have "replace_pairs a b c d (drop i segs) = drop i segs"
      by (rule replace_pairs_short)
    with False show ?thesis by (simp add: replace_all_pair.simps [of a b c d segs i])
  next
    case True
    show ?thesis
    proof (cases "to_upper_char (ch (segs ! i)) = a \<and> to_upper_char (ch (segs ! (i + 1))) = b")
      case match: True
      let ?segs' = "splice_segs segs i (i + 2) (seg_from_string [c, d] False)"
      have "replace_all_pair a b c d segs i = replace_all_pair a b c d ?segs' (i + 2)"
        using True match by (simp add: replace_all_pair.simps [of a b c d segs i])
      also have "\<dots> = take (i + 2) ?segs' @ replace_pairs a b c d (drop (i + 2) ?segs')"
        using "1.IH"(1) True match by blast
      also have "\<dots> = take i segs @ replace_pairs a b c d (drop i segs)"
        using True match by (rule replace_pairs_step_match)
      finally show ?thesis .
    next
      case miss: False
      have "replace_all_pair a b c d segs i = replace_all_pair a b c d segs (i + 1)"
        by (simp only: replace_all_pair.simps [of a b c d segs i] if_P [OF True] if_not_P [OF miss])
      also have "\<dots> = take (i + 1) segs @ replace_pairs a b c d (drop (i + 1) segs)"
        using "1.IH"(2) True miss by blast
      also have "\<dots> = take i segs @ replace_pairs a b c d (drop i segs)"
        using True miss by (rule replace_pairs_step_miss)
      finally show ?thesis .
    qed
  qed
qed

subsection \<open>Origin and letters\<close>

lemma keeps_origin_replace_pairs: "keeps_origin (replace_pairs a b c d segs) segs"
proof (induction a b c d segs rule: replace_pairs.induct)
  case (1 a b c d s1 s2 rest)
  then show ?case
    by (auto simp: keeps_origin_def intro: subseq_order.trans [OF _ subseq_drop_many [of _ _ "[_]"]])
qed (simp_all)

lemma all_letters_replace_pairs:
  "all_letters segs \<Longrightarrow> is_letter c \<Longrightarrow> is_letter d \<Longrightarrow> all_letters (replace_pairs a b c d segs)"
  by (induction a b c d segs rule: replace_pairs.induct)
    (auto simp: all_letters_def seg_from_string_def)

lemma replace_all_ER_with_AH_pairs:
  "replace_all_ER_with_AH segs = replace_pairs (CHR ''E'') (CHR ''R'') (CHR ''A'') (CHR ''H'') segs"
  by (simp add: replace_all_ER_with_AH_def replace_all_pair_eq_replace_pairs)

lemma replace_all_IR_with_AR_pairs:
  "replace_all_IR_with_AR segs = replace_pairs (CHR ''I'') (CHR ''R'') (CHR ''A'') (CHR ''R'') segs"
  by (simp add: replace_all_IR_with_AR_def replace_all_pair_eq_replace_pairs)

lemma origin_replace_all_ER_with_AH [origin_rules]:
  "keeps_origin segs s0 \<Longrightarrow> keeps_origin (replace_all_ER_with_AH segs) s0"
  by (metis keeps_origin_replace_pairs keeps_origin_trans replace_all_ER_with_AH_pairs)

lemma origin_replace_all_IR_with_AR [origin_rules]:
  "keeps_origin segs s0 \<Longrightarrow> keeps_origin (replace_all_IR_with_AR segs) s0"
  by (metis keeps_origin_replace_pairs keeps_origin_trans replace_all_IR_with_AR_pairs)

lemma origin_replace_ending [origin_rules]:
  "keeps_origin segs s0 \<Longrightarrow> keeps_origin (replace_ending suf rep segs) s0"
  unfolding replace_ending_def Let_def by (auto intro: keeps_origin_trans)

lemma origin_replace_ending_LY [origin_rules]:
  "keeps_origin segs s0 \<Longrightarrow> keeps_origin (replace_ending_LY segs) s0"
  unfolding replace_ending_LY_def Let_def by (auto intro: keeps_origin_trans)

lemma origin_apply_ending_AH [origin_rules]:
  "keeps_origin segs s0 \<Longrightarrow> keeps_origin (fst (apply_ending_AH segs)) s0"
  unfolding apply_ending_AH_def Let_def by (auto intro: keeps_origin_trans)

lemma origin_replace_ending_Y_to_EH [origin_rules]:
  "keeps_origin segs s0 \<Longrightarrow> keeps_origin (replace_ending_Y_to_EH segs) s0"
  unfolding replace_ending_Y_to_EH_def Let_def by (auto intro: keeps_origin_trans)

lemma all_letters_tail_splice:
  "all_letters segs \<Longrightarrow> \<forall>c \<in> set rep. is_letter c \<Longrightarrow>
   all_letters (splice_segs segs i j (seg_from_string rep False))"
  by (simp add: all_letters_splice all_letters_seg_from)

lemma letters_replace_all_ER_with_AH [letter_rules]:
  "all_letters segs \<Longrightarrow> all_letters (replace_all_ER_with_AH segs)"
  by (simp add: replace_all_ER_with_AH_pairs all_letters_replace_pairs is_letter_def)

lemma letters_replace_all_IR_with_AR [letter_rules]:
  "all_letters segs \<Longrightarrow> all_letters (replace_all_IR_with_AR segs)"
  by (simp add: replace_all_IR_with_AR_pairs all_letters_replace_pairs is_letter_def)

lemma letters_replace_ending:
  "all_letters segs \<Longrightarrow> \<forall>c \<in> set rep. is_letter c \<Longrightarrow> all_letters (replace_ending suf rep segs)"
  by (simp add: replace_ending_def Let_def all_letters_tail_splice)

lemma letters_replace_ending_TION [letter_rules]:
  "all_letters segs \<Longrightarrow> all_letters (replace_ending_TION segs)"
  by (simp add: replace_ending_TION_def letters_replace_ending is_letter_def)

lemma letters_replace_ending_TY [letter_rules]:
  "all_letters segs \<Longrightarrow> all_letters (replace_ending_TY segs)"
  by (simp add: replace_ending_TY_def letters_replace_ending is_letter_def)

lemma letters_replace_ending_AY [letter_rules]:
  "all_letters segs \<Longrightarrow> all_letters (replace_ending_AY segs)"
  by (simp add: replace_ending_AY_def letters_replace_ending is_letter_def)

lemma letters_replace_ending_LY [letter_rules]:
  "all_letters segs \<Longrightarrow> all_letters (replace_ending_LY segs)"
  by (simp add: replace_ending_LY_def Let_def all_letters_tail_splice is_letter_def)

lemma letters_apply_ending_AH [letter_rules]:
  "all_letters segs \<Longrightarrow> all_letters (fst (apply_ending_AH segs))"
  by (simp add: apply_ending_AH_def Let_def all_letters_tail_splice is_letter_def)

lemma letters_replace_ending_Y_to_EH [letter_rules]:
  "all_letters segs \<Longrightarrow> all_letters (replace_ending_Y_to_EH segs)"
  by (simp add: replace_ending_Y_to_EH_def Let_def all_letters_tail_splice is_letter_def)

subsection \<open>No upper-case ER pair survives the suffix rules\<close>

lemma has_pair_Cons:
  "has_pair x y (s # ys) \<longleftrightarrow>
     (ys \<noteq> [] \<and> to_upper_char (ch s) = x \<and> to_upper_char (ch (hd ys)) = y) \<or> has_pair x y ys"
  by (cases ys) auto

lemma has_pair_append:
  "has_pair x y (xs @ ys) \<longleftrightarrow>
     has_pair x y xs \<or> has_pair x y ys \<or>
     (xs \<noteq> [] \<and> ys \<noteq> [] \<and> to_upper_char (ch (last xs)) = x \<and> to_upper_char (ch (hd ys)) = y)"
  by (induction xs) (auto simp: has_pair_Cons)

lemma has_pair_take: "has_pair x y (take k xs) \<Longrightarrow> has_pair x y xs"
  by (metis append_take_drop_id has_pair_append)

lemma hd_replace_pairs:
  "replace_pairs a b c d (s # rest) \<noteq> [] \<and>
   (hd (replace_pairs a b c d (s # rest)) = s \<or>
    hd (replace_pairs a b c d (s # rest)) = \<lparr>ch = c, origin = False\<rparr>)"
  by (cases rest) (auto simp: seg_from_string_def)

text \<open>The pass removes every pair it rewrites, provided the replacement cannot form one.\<close>

lemma replace_pairs_no_pair:
  "to_upper_char c \<noteq> b \<Longrightarrow> to_upper_char d \<noteq> a \<Longrightarrow> \<not> (to_upper_char c = a \<and> to_upper_char d = b) \<Longrightarrow>
   \<not> has_pair a b (replace_pairs a b c d segs)"
proof (induction a b c d segs rule: replace_pairs.induct)
  case (1 a b c d s1 s2 rest)
  show ?case
  proof (cases "to_upper_char (ch s1) = a \<and> to_upper_char (ch s2) = b")
    case True
    then show ?thesis
      using "1.IH"(1) "1.prems" by (auto simp: has_pair_Cons seg_from_string_def)
  next
    case False
    let ?R = "replace_pairs a b c d (s2 # rest)"
    have "\<not> has_pair a b ?R" using "1.IH"(2) False "1.prems" by blast
    moreover have "\<not> (to_upper_char (ch s1) = a \<and> to_upper_char (ch (hd ?R)) = b)"
      using hd_replace_pairs [of a b c d s2 rest] False "1.prems"(1) by auto
    moreover have "replace_pairs a b c d (s1 # s2 # rest) = s1 # ?R"
      by (simp only: replace_pairs.simps(1) if_not_P [OF False])
    ultimately show ?thesis by (simp only: has_pair_Cons) simp
  qed
qed simp_all

text \<open>A pass over another pair keeps a pair away if its replacement cannot create one.\<close>

lemma replace_pairs_keeps_no_pair:
  "\<not> has_pair x y segs \<Longrightarrow> to_upper_char c \<noteq> y \<Longrightarrow> to_upper_char d \<noteq> x \<Longrightarrow>
   \<not> (to_upper_char c = x \<and> to_upper_char d = y) \<Longrightarrow>
   \<not> has_pair x y (replace_pairs a b c d segs)"
proof (induction a b c d segs rule: replace_pairs.induct)
  case (1 a b c d s1 s2 rest)
  show ?case
  proof (cases "to_upper_char (ch s1) = a \<and> to_upper_char (ch s2) = b")
    case True
    have "\<not> has_pair x y rest" using "1.prems"(1) by (simp add: has_pair_Cons)
    then show ?thesis
      using True "1.IH"(1) "1.prems" by (auto simp: has_pair_Cons seg_from_string_def)
  next
    case False
    let ?R = "replace_pairs a b c d (s2 # rest)"
    have "\<not> has_pair x y ?R" using "1.IH"(2) False "1.prems" by simp
    moreover have "\<not> (to_upper_char (ch s1) = x \<and> to_upper_char (ch (hd ?R)) = y)"
      using hd_replace_pairs [of a b c d s2 rest] "1.prems"(1,2) by auto
    moreover have "replace_pairs a b c d (s1 # s2 # rest) = s1 # ?R"
      by (simp only: replace_pairs.simps(1) if_not_P [OF False])
    ultimately show ?thesis by (simp only: has_pair_Cons) simp
  qed
qed simp_all

text \<open>An ending rewrite keeps a pair away if its replacement cannot create one.\<close>

lemma tail_replace_keeps_no_pair:
  "\<not> has_pair x y segs \<Longrightarrow> \<not> has_pair x y (seg_from_string rep False) \<Longrightarrow>
   rep \<noteq> [] \<Longrightarrow> to_upper_char (hd rep) \<noteq> y \<Longrightarrow>
   \<not> has_pair x y (take k segs @ seg_from_string rep False)"
  by (cases rep) (auto simp: has_pair_append seg_from_string_def dest: has_pair_take)

lemma ends_with_has_pair:
  assumes "ends_with (to_upper (seg_to_string segs)) [x, y]"
  shows "has_pair x y segs"
proof -
  obtain zs where "map (to_upper_char \<circ> ch) segs = zs @ [x, y]"
    using assms by (auto simp: ends_with_iff_suffix suffix_def to_upper_def seg_to_string_def)
  then obtain us s1 s2 where "segs = us @ [s1, s2]" and "to_upper_char (ch s1) = x"
    and "to_upper_char (ch s2) = y"
    by (auto simp: map_eq_append_conv map_eq_Cons_conv)
  then show ?thesis by (simp add: has_pair_append)
qed

lemma no_pair_replace_ending:
  "\<not> has_pair x y segs \<Longrightarrow> \<not> has_pair x y (seg_from_string rep False) \<Longrightarrow>
   rep \<noteq> [] \<Longrightarrow> to_upper_char (hd rep) \<noteq> y \<Longrightarrow>
   \<not> has_pair x y (replace_ending suf rep segs)"
  by (simp add: replace_ending_def Let_def splice_segs_tail tail_replace_keeps_no_pair)

lemma no_pair_replace_ending_LY:
  "\<not> has_pair x y segs \<Longrightarrow> \<not> has_pair x y (seg_from_string ''LEH'' False) \<Longrightarrow>
   to_upper_char (CHR ''L'') \<noteq> y \<Longrightarrow> \<not> has_pair x y (replace_ending_LY segs)"
  by (simp add: replace_ending_LY_def Let_def splice_segs_tail tail_replace_keeps_no_pair)

lemma no_ER_suffix_rules_before_AH:
  "\<not> has_pair (CHR ''E'') (CHR ''R'') (suffix_rules_before_AH segs)"
proof -
  let ?E = "CHR ''E''" and ?R = "CHR ''R''"
  let ?s1 = "replace_all_ER_with_AH segs"
  let ?s2 = "replace_all_IR_with_AR ?s1"
  let ?s3 = "replace_ending_TION ?s2"
  let ?s4 = "replace_ending_TY ?s3"
  have "\<not> has_pair ?E ?R ?s1"
    unfolding replace_all_ER_with_AH_pairs by (rule replace_pairs_no_pair) (simp_all add: text_simps)
  then have "\<not> has_pair ?E ?R ?s2"
    unfolding replace_all_IR_with_AR_pairs
    by (rule replace_pairs_keeps_no_pair) (simp_all add: text_simps)
  then have "\<not> has_pair ?E ?R ?s3"
    unfolding replace_ending_TION_def by (rule no_pair_replace_ending) (simp_all add: text_simps)
  then have "\<not> has_pair ?E ?R ?s4"
    unfolding replace_ending_TY_def by (rule no_pair_replace_ending) (simp_all add: text_simps)
  then have "\<not> has_pair ?E ?R (replace_ending_LY ?s4)"
    by (rule no_pair_replace_ending_LY) (simp_all add: text_simps)
  then show ?thesis by (simp add: suffix_rules_before_AH_def)
qed

lemma not_ends_ER_before_AH:
  "\<not> ends_with (to_upper (seg_to_string (suffix_rules_before_AH segs))) ''ER''"
  using no_ER_suffix_rules_before_AH ends_with_has_pair by blast

subsection \<open>Claims of the suffix stage\<close>

text \<open>
  Claim C10: the ER/IR loop of \<open>replaceAllERWithAH\<close> and \<open>replaceAllIRWithAR\<close>, run
  from index 0, computes exactly the left-to-right rewrite of non-overlapping pairs.
\<close>

theorem replace_all_pair_refines:
  "replace_all_pair a b c d segs 0 = replace_pairs a b c d segs"
  by (simp add: replace_all_pair_eq_replace_pairs)

text \<open>
  Claim C9: inside \<open>transformWordPart\<close> the flag \<open>endingChangedToAH\<close> is set exactly
  when the text reaching \<open>applyEndingAH\<close> ends in UR or A: the ER test of that rule
  never succeeds, because \<open>replaceAllERWithAH\<close> has already removed every ER pair and
  the later rules cannot create one at the end.
\<close>

theorem ending_changed_to_AH_iff:
  "snd (suffix_transforms segs) \<longleftrightarrow>
     (let s = to_upper (seg_to_string (suffix_rules_before_AH segs))
      in ends_with s ''UR'' \<or> ends_with s ''A'')"
  using not_ends_ER_before_AH [of segs]
  by (simp add: suffix_transforms_def apply_ending_AH_def Let_def split: prod.split)

end
