(* ===== verification/Prefix.thy ===== *)
theory Prefix
  imports Segments
begin

text \<open>
  The prefix rule set of \<open>src/unnamed/part_000\<close> and its place in
  \<open>transformWordPart\<close> (lines 380--384): SN\<open>\<rightarrow>\<close>SAN and SW\<open>\<rightarrow>\<close>SAW at the start
  (\<open>replaceStartingSNWithSAN\<close>, \<open>replaceStartingSWWithSAW\<close>, lines 234--256, one
  shape \<open>replace_starting\<close>), and the conservative RE\<open>\<rightarrow>\<close>ro rule
  \<open>applyPrefixREToRO\<close> (lines 258--275). The commented-out U\<open>\<rightarrow>\<close>YAU rule
  (lines 222--232, 383) is not code and is not modelled. The lemmas show that each rule
  keeps the origin invariant and letters-only text.
\<close>

definition replace_starting :: "char \<Rightarrow> char \<Rightarrow> string \<Rightarrow> segs \<Rightarrow> segs" where
  "replace_starting a b rep segs =
     (if 2 \<le> length segs then
        (if to_upper_char (ch (segs ! 0)) = a \<and> to_upper_char (ch (segs ! 1)) = b
         then splice_segs segs 0 2 (seg_from_string rep False)
         else segs)
      else segs)"

definition replace_starting_SW_with_SAW :: "segs \<Rightarrow> segs" where
  "replace_starting_SW_with_SAW = replace_starting (CHR ''S'') (CHR ''W'') ''SAW''"

definition replace_starting_SN_with_SAN :: "segs \<Rightarrow> segs" where
  "replace_starting_SN_with_SAN = replace_starting (CHR ''S'') (CHR ''N'') ''SAN''"

definition apply_prefix_RE_to_RO :: "segs \<Rightarrow> segs" where
  "apply_prefix_RE_to_RO segs =
     (let s = seg_to_string segs;
          lower = to_lower s
      in if lower = ''re'' then segs
         else if starts_with lower ''re'' \<and> 3 \<le> length s then
           (let third = to_upper_char (s ! 2)
            in if third \<in> set VOWELS then splice_segs segs 0 2 (seg_from_string ''ro'' False)
               else segs)
         else segs)"

definition prefix_transforms :: "segs \<Rightarrow> segs" where
  "prefix_transforms segs =
     (let segs = replace_starting_SN_with_SAN segs;
          segs = replace_starting_SW_with_SAW segs
      in apply_prefix_RE_to_RO segs)"

subsection \<open>Invariants\<close>

lemma origin_replace_starting [origin_rules]:
  "keeps_origin segs s0 \<Longrightarrow> keeps_origin (replace_starting a b rep segs) s0"
  unfolding replace_starting_def by (auto intro: keeps_origin_trans)

lemma origin_apply_prefix_RE_to_RO [origin_rules]:
  "keeps_origin segs s0 \<Longrightarrow> keeps_origin (apply_prefix_RE_to_RO segs) s0"
  unfolding apply_prefix_RE_to_RO_def Let_def by (auto intro: keeps_origin_trans)

lemma origin_prefix_transforms [origin_rules]:
  "keeps_origin segs s0 \<Longrightarrow> keeps_origin (prefix_transforms segs) s0"
  by (simp add: prefix_transforms_def replace_starting_SW_with_SAW_def
      replace_starting_SN_with_SAN_def origin_rules)

lemma letters_replace_starting:
  "all_letters segs \<Longrightarrow> \<forall>c \<in> set rep. is_letter c \<Longrightarrow> all_letters (replace_starting a b rep segs)"
  by (simp add: replace_starting_def all_letters_splice all_letters_seg_from)

lemma letters_apply_prefix_RE_to_RO [letter_rules]:
  "all_letters segs \<Longrightarrow> all_letters (apply_prefix_RE_to_RO segs)"
  by (simp add: apply_prefix_RE_to_RO_def Let_def all_letters_splice all_letters_seg_from
      is_letter_def)

lemma letters_prefix_transforms [letter_rules]:
  "all_letters segs \<Longrightarrow> all_letters (prefix_transforms segs)"
  by (simp add: prefix_transforms_def replace_starting_SW_with_SAW_def
      replace_starting_SN_with_SAN_def letters_replace_starting letters_apply_prefix_RE_to_RO
      is_letter_def)

end
