(* ===== verification/Cluster.thy ===== *)
theory Cluster
  imports Segments
begin

text \<open>
  Cluster insertion, \<open>applyClusterInsertions\<close> of \<open>src/unnamed/part_000\<close>
  (lines 277--303): if the word-part starts with two consonant letters and an R, an
  inserted A goes after the second letter; otherwise, if it starts with a consonant
  letter followed by R or L, after the first. Y counts as a consonant. The lemmas show
  that the rule inserts at most one synthesized A and changes nothing else.
\<close>

definition apply_cluster_insertions :: "segs \<Rightarrow> segs" where
  "apply_cluster_insertions segs =
     (if 3 \<le> length segs \<and> is_consonant_letter (ch (segs ! 0)) \<and>
         is_consonant_letter (ch (segs ! 1)) \<and> to_upper_char (ch (segs ! 2)) = CHR ''R''
      then splice_segs segs 2 2 (seg_from_string ''A'' False)
      else if 2 \<le> length segs \<and> is_consonant_letter (ch (segs ! 0)) \<and>
              (to_upper_char (ch (segs ! 1)) = CHR ''R'' \<or> to_upper_char (ch (segs ! 1)) = CHR ''L'')
      then splice_segs segs 1 1 (seg_from_string ''A'' False)
      else segs)"

lemma origin_apply_cluster_insertions [origin_rules]:
  "keeps_origin segs s0 \<Longrightarrow> keeps_origin (apply_cluster_insertions segs) s0"
  unfolding apply_cluster_insertions_def by (auto intro: keeps_origin_trans)

lemma letters_apply_cluster_insertions [letter_rules]:
  "all_letters segs \<Longrightarrow> all_letters (apply_cluster_insertions segs)"
  by (simp add: apply_cluster_insertions_def all_letters_splice all_letters_seg_from
      is_letter_def)

text \<open>
  Claim C18: cluster insertion leaves the word-part unchanged or inserts exactly one
  synthesized A after its first or second segment.
\<close>

theorem cluster_inserts_at_most_one:
  "apply_cluster_insertions segs = segs \<or>
   (\<exists>k \<in> {1, 2}. apply_cluster_insertions segs =
      take k segs @ [\<lparr>ch = CHR ''A'', origin = False\<rparr>] @ drop k segs)"
  by (auto simp: apply_cluster_insertions_def splice_segs_def seg_from_string_def)

theorem cluster_inserts_at_most_one_witness:
  "(apply_cluster_insertions (seg_from_string ''brown'' True) = seg_from_string ''brown'' True \<or>
    list_ex (\<lambda>k. apply_cluster_insertions (seg_from_string ''brown'' True) =
       take k (seg_from_string ''brown'' True) @ [\<lparr>ch = CHR ''A'', origin = False\<rparr>] @
       drop k (seg_from_string ''brown'' True)) [1, 2]) \<and>
   seg_to_string (apply_cluster_insertions (seg_from_string ''brown'' True)) = ''bArown''"
proof -
  have "seg_to_string (apply_cluster_insertions (seg_from_string ''brown'' True)) = ''bArown''"
    by code_simp
  then show ?thesis using cluster_inserts_at_most_one [of "seg_from_string ''brown'' True"]
    by (simp add: list_ex_iff)
qed

end
