(* ===== verification/Vowels.thy ===== *)
theory Vowels
  imports Segments
begin

text \<open>
  The vowel swap engine of \<open>src/unnamed/part_000\<close>: the protected-suffix table
  (lines 46--53) and \<open>protectedSuffixStartIndex\<close> (lines 108--114), and
  \<open>applyVowelSwaps\<close> (lines 305--357). The boundary, the indices of the original
  vowels and the protected tail indices are computed once from the array before the loop;
  the loop then visits every index in order and rewrites an eligible A, E or I to a
  synthesized \<open>o\<close>. The loop is a \<open>fold\<close> of \<open>swap_vowel_at\<close> over
  \<open>[0..<length segs]\<close>; since a visit writes only its own index and reads only that
  index and the next, the result is the pointwise rewrite of the input by
  \<open>swap_eligible\<close> (\<open>apply_vowel_swaps_nth\<close>). The protections of the spec
  (suffix boundary, tail vowels, digraphs, synthesized segments) follow from that one
  lemma. The protected-suffix table has no entry that is a suffix of another, so its
  longest-first order never matters.
\<close>

definition PROTECTED_SUFFIXES_SRC :: "string list" where
  "PROTECTED_SUFFIXES_SRC =
     [''SHAN'', ''MENT'', ''TION'', ''ING'', ''ED'', ''ER'', ''LY'', ''NESS'', ''ABLE'', ''IBLE'',
      ''OUS'', ''IVE'', ''AL'', ''ITY'']"

text \<open>\<open>.sort((a, b) => b.length - a.length)\<close>: a stable sort, longest first.\<close>

definition PROTECTED_SUFFIXES :: "string list" where
  "PROTECTED_SUFFIXES = sort_key (\<lambda>s. - int (length s)) PROTECTED_SUFFIXES_SRC"

fun suffix_boundary :: "string \<Rightarrow> string list \<Rightarrow> nat" where
  "suffix_boundary upper [] = length upper"
| "suffix_boundary upper (suf # sufs) =
     (if ends_with upper suf then length upper - length suf else suffix_boundary upper sufs)"

definition protected_suffix_start_index :: "segs \<Rightarrow> nat" where
  "protected_suffix_start_index segs =
     suffix_boundary (to_upper (seg_to_string segs)) PROTECTED_SUFFIXES"

definition orig_vowel_idx :: "segs \<Rightarrow> nat list" where
  "orig_vowel_idx segs =
     filter (\<lambda>i. origin (segs ! i) \<and> to_upper_char (ch (segs ! i)) \<in> set VOWELS) [0..<length segs]"

definition protect_set :: "nat list \<Rightarrow> bool \<Rightarrow> nat list" where
  "protect_set idx ending_changed_to_AH =
     (if \<not> ending_changed_to_AH \<and> 1 \<le> length idx
      then idx ! (length idx - 1) # (if length idx = 4 then [idx ! (length idx - 2)] else [])
      else [])"

text \<open>One visit of the loop body; \<open>continue\<close> returns the array unchanged.\<close>

definition swap_vowel_at :: "nat \<Rightarrow> nat list \<Rightarrow> segs \<Rightarrow> nat \<Rightarrow> segs" where
  "swap_vowel_at boundary protect segs i =
     (if boundary \<le> i then segs
      else if \<not> origin (segs ! i) then segs
      else if to_upper_char (ch (segs ! i)) \<notin> set SWAPPABLE then segs
      else if i \<in> set protect then segs
      else if i + 1 < length segs \<and> to_upper_char (ch (segs ! (i + 1))) \<in> set VOWELS then segs
      else segs[i := (segs ! i)\<lparr>ch := CHR ''o'', origin := False\<rparr>])"

definition apply_vowel_swaps :: "segs \<Rightarrow> bool \<Rightarrow> segs" where
  "apply_vowel_swaps segs ending_changed_to_AH =
     (let boundary = protected_suffix_start_index segs;
          idx = orig_vowel_idx segs;
          protect = protect_set idx ending_changed_to_AH
      in fold (\<lambda>i segs. swap_vowel_at boundary protect segs i) [0..<length segs] segs)"

text \<open>The condition under which a visit swaps (a specification predicate).\<close>

definition swap_eligible :: "nat \<Rightarrow> nat list \<Rightarrow> segs \<Rightarrow> nat \<Rightarrow> bool" where
  "swap_eligible boundary protect segs i \<longleftrightarrow>
     i < boundary \<and> origin (segs ! i) \<and> to_upper_char (ch (segs ! i)) \<in> set SWAPPABLE \<and>
     i \<notin> set protect \<and>
     \<not> (i + 1 < length segs \<and> to_upper_char (ch (segs ! (i + 1))) \<in> set VOWELS)"

definition swapped :: "seg \<Rightarrow> seg" where
  "swapped s = s\<lparr>ch := CHR ''o'', origin := False\<rparr>"

subsection \<open>The loop as a pointwise rewrite\<close>

lemma swap_vowel_at_eq:
  "swap_vowel_at b p segs i = (if swap_eligible b p segs i then segs[i := swapped (segs ! i)] else segs)"
  by (auto simp: swap_vowel_at_def swap_eligible_def swapped_def)

lemma swap_eligible_cong:
  assumes "length segs' = length segs" and "segs' ! i = segs ! i"
    and "i + 1 < length segs \<Longrightarrow> segs' ! (i + 1) = segs ! (i + 1)"
  shows "swap_eligible b p segs' i = swap_eligible b p segs i"
  using assms by (auto simp: swap_eligible_def)

lemma fold_swap_vowel_at:
  assumes "k \<le> length segs"
  shows "fold (\<lambda>i segs. swap_vowel_at b p segs i) [0..<k] segs =
         map (\<lambda>i. if i < k \<and> swap_eligible b p segs i then swapped (segs ! i) else segs ! i)
             [0..<length segs]"
  using assms
proof (induction k)
  case 0
  then show ?case by (simp add: map_nth)
next
  case (Suc k)
  let ?S = "fold (\<lambda>i segs. swap_vowel_at b p segs i) [0..<k] segs"
  have S: "?S = map (\<lambda>i. if i < k \<and> swap_eligible b p segs i then swapped (segs ! i) else segs ! i)
                    [0..<length segs]"
    using Suc by simp
  have el: "swap_eligible b p ?S k = swap_eligible b p segs k"
    by (rule swap_eligible_cong) (use Suc.prems in \<open>simp_all add: S\<close>)
  have "fold (\<lambda>i segs. swap_vowel_at b p segs i) [0..<Suc k] segs = swap_vowel_at b p ?S k"
    by simp
  also have "\<dots> = (if swap_eligible b p segs k then ?S[k := swapped (?S ! k)] else ?S)"
    by (simp only: swap_vowel_at_eq [of b p ?S k] el)
  also have "\<dots> = map (\<lambda>i. if i < Suc k \<and> swap_eligible b p segs i then swapped (segs ! i)
                            else segs ! i) [0..<length segs]"
    using Suc.prems by (auto simp: S nth_list_update less_Suc_eq intro!: nth_equalityI)
  finally show ?case .
qed

lemma length_apply_vowel_swaps [simp]: "length (apply_vowel_swaps segs c) = length segs"
  by (simp add: apply_vowel_swaps_def fold_swap_vowel_at)

lemma apply_vowel_swaps_nth:
  "i < length segs \<Longrightarrow>
   apply_vowel_swaps segs c ! i =
     (if swap_eligible (protected_suffix_start_index segs) (protect_set (orig_vowel_idx segs) c) segs i
      then swapped (segs ! i) else segs ! i)"
  by (simp add: apply_vowel_swaps_def fold_swap_vowel_at)

lemma apply_vowel_swaps_unchanged:
  "i < length segs \<Longrightarrow>
   \<not> swap_eligible (protected_suffix_start_index segs) (protect_set (orig_vowel_idx segs) c) segs i \<Longrightarrow>
   apply_vowel_swaps segs c ! i = segs ! i"
  by (simp add: apply_vowel_swaps_nth)

lemma orig_vowel_idx_less:
  "k < length (orig_vowel_idx segs) \<Longrightarrow> orig_vowel_idx segs ! k < length segs"
  using nth_mem [of k "orig_vowel_idx segs"] by (simp add: orig_vowel_idx_def)

subsection \<open>The protected-suffix table\<close>

lemma PROTECTED_SUFFIXES_eq:
  "PROTECTED_SUFFIXES =
     [''SHAN'', ''MENT'', ''TION'', ''NESS'', ''ABLE'', ''IBLE'', ''ING'', ''OUS'', ''IVE'', ''ITY'',
      ''ED'', ''ER'', ''LY'', ''AL'']"
  by (simp add: PROTECTED_SUFFIXES_def PROTECTED_SUFFIXES_SRC_def)

lemma suffix_boundary_find:
  "suffix_boundary s xs =
     (case find (ends_with s) xs of None \<Rightarrow> length s | Some suf \<Rightarrow> length s - length suf)"
  by (induction xs) auto

lemma find_Some_mem: "find P xs = Some y \<Longrightarrow> y \<in> set xs \<and> P y"
  by (auto simp: find_Some_iff)

lemma find_unique_cong:
  assumes "set xs = set ys" and "\<forall>a \<in> set xs. \<forall>b \<in> set xs. P a \<longrightarrow> P b \<longrightarrow> a = b"
  shows "find P xs = find P ys"
proof (cases "\<exists>x \<in> set xs. P x")
  case True
  then obtain y z where y: "find P xs = Some y" and z: "find P ys = Some z"
    using assms(1) by (metis find_None_iff not_Some_eq)
  then have "y = z" using assms find_Some_mem [OF y] find_Some_mem [OF z] by blast
  then show ?thesis using y z by simp
next
  case False
  then have "find P xs = None" and "find P ys = None"
    using assms(1) by (simp_all add: find_None_iff)
  then show ?thesis by simp
qed

lemma PROTECTED_SUFFIXES_SRC_no_nesting:
  "\<forall>a \<in> set PROTECTED_SUFFIXES_SRC. \<forall>b \<in> set PROTECTED_SUFFIXES_SRC. ends_with b a \<longrightarrow> a = b"
  by (simp add: PROTECTED_SUFFIXES_SRC_def ends_with_def)

lemma protected_suffix_match_unique:
  "\<forall>a \<in> set PROTECTED_SUFFIXES_SRC. \<forall>b \<in> set PROTECTED_SUFFIXES_SRC.
     ends_with s a \<longrightarrow> ends_with s b \<longrightarrow> a = b"
  using PROTECTED_SUFFIXES_SRC_no_nesting
  by (metis ends_with_iff_suffix suffix_same_cases)

subsection \<open>Claims of the vowel swap engine\<close>

text \<open>
  Claim C12: \<open>applyVowelSwaps\<close> is the pointwise rewrite of its input: position \<open>i\<close>
  becomes a synthesized \<open>o\<close> exactly when it lies before the protected-suffix
  boundary, is original, is A, E or I, is not a protected tail vowel and is not followed
  by a vowel letter; every other position is unchanged.
\<close>

theorem apply_vowel_swaps_pointwise:
  "apply_vowel_swaps segs c =
     map (\<lambda>i. if swap_eligible (protected_suffix_start_index segs)
                               (protect_set (orig_vowel_idx segs) c) segs i
              then swapped (segs ! i) else segs ! i)
         [0..<length segs]"
  by (simp add: apply_vowel_swaps_def fold_swap_vowel_at)

text \<open>
  Claim C5: no position at or after the start of the matched protected suffix is ever
  swapped.
\<close>

theorem swap_respects_protected_suffix:
  "protected_suffix_start_index segs \<le> i \<Longrightarrow> i < length segs \<Longrightarrow>
   apply_vowel_swaps segs c ! i = segs ! i"
  by (rule apply_vowel_swaps_unchanged) (simp_all add: swap_eligible_def)

theorem swap_respects_protected_suffix_witness:
  "protected_suffix_start_index (seg_from_string ''HATED'' True) \<le> 3 \<and> 3 < length (seg_from_string ''HATED'' True) \<and>
   apply_vowel_swaps (seg_from_string ''HATED'' True) True ! 3 = seg_from_string ''HATED'' True ! 3"
proof -
  have h: "protected_suffix_start_index (seg_from_string ''HATED'' True) \<le> 3" by code_simp
  show ?thesis using h swap_respects_protected_suffix [OF h, of True] by simp
qed

text \<open>Claim C6: a vowel immediately followed by another vowel letter is never swapped.\<close>

theorem swap_respects_digraph:
  "i + 1 < length segs \<Longrightarrow> to_upper_char (ch (segs ! (i + 1))) \<in> set VOWELS \<Longrightarrow>
   apply_vowel_swaps segs c ! i = segs ! i"
  by (rule apply_vowel_swaps_unchanged) (simp_all add: swap_eligible_def)

theorem swap_respects_digraph_witness:
  "2 + 1 < length (seg_from_string ''CLEAN'' True) \<and>
   to_upper_char (ch (seg_from_string ''CLEAN'' True ! (2 + 1))) \<in> set VOWELS \<and>
   apply_vowel_swaps (seg_from_string ''CLEAN'' True) False ! 2 = seg_from_string ''CLEAN'' True ! 2"
proof -
  have h1: "2 + 1 < length (seg_from_string ''CLEAN'' True)" by simp
  have h2: "to_upper_char (ch (seg_from_string ''CLEAN'' True ! (2 + 1))) \<in> set VOWELS" by code_simp
  show ?thesis using h1 h2 swap_respects_digraph [OF h1 h2, of False] by simp
qed

text \<open>
  Claim C7: when the ending was not changed to AH, the last original vowel is never
  swapped, and when the word-part has exactly four original vowels the one before it is
  not swapped either.
\<close>

theorem swap_respects_tail_vowels:
  assumes "\<not> c" and "orig_vowel_idx segs \<noteq> []"
  shows "apply_vowel_swaps segs c ! last (orig_vowel_idx segs) = segs ! last (orig_vowel_idx segs) \<and>
         (length (orig_vowel_idx segs) = 4 \<longrightarrow>
          apply_vowel_swaps segs c ! (orig_vowel_idx segs ! 2) = segs ! (orig_vowel_idx segs ! 2))"
proof -
  let ?idx = "orig_vowel_idx segs"
  have last_eq: "last ?idx = ?idx ! (length ?idx - 1)" using assms(2) by (simp add: last_conv_nth)
  have last_in: "last ?idx \<in> set (protect_set ?idx c)"
    using assms by (simp add: protect_set_def last_eq Suc_le_eq)
  have last_lt: "last ?idx < length segs"
    using assms(2) orig_vowel_idx_less [of "length ?idx - 1" segs] by (simp add: last_eq)
  have "length ?idx = 4 \<Longrightarrow> ?idx ! 2 \<in> set (protect_set ?idx c) \<and> ?idx ! 2 < length segs"
    using assms(1) orig_vowel_idx_less [of 2 segs] by (simp add: protect_set_def)
  then show ?thesis
    using last_in last_lt by (auto intro!: apply_vowel_swaps_unchanged simp: swap_eligible_def)
qed

theorem swap_respects_tail_vowels_witness:
  "\<not> False \<and> orig_vowel_idx (seg_from_string ''GRAMMATICAL'' True) \<noteq> [] \<and>
   length (orig_vowel_idx (seg_from_string ''GRAMMATICAL'' True)) = 4 \<and>
   apply_vowel_swaps (seg_from_string ''GRAMMATICAL'' True) False ! 7 =
     seg_from_string ''GRAMMATICAL'' True ! 7"
proof -
  have idx: "orig_vowel_idx (seg_from_string ''GRAMMATICAL'' True) = [2, 5, 7, 9]" by code_simp
  have "\<not> False" by simp
  from swap_respects_tail_vowels [OF this, of "seg_from_string ''GRAMMATICAL'' True"]
  show ?thesis by (simp add: idx)
qed

text \<open>
  Claim C8: a swap only ever turns an original A, E or I before the boundary into a
  synthesized \<open>o\<close>; synthesized segments, O, U and consonants are never changed.
\<close>

theorem swap_changes_only_original_AEI:
  "i < length segs \<Longrightarrow> apply_vowel_swaps segs c ! i \<noteq> segs ! i \<Longrightarrow>
   origin (segs ! i) \<and> to_upper_char (ch (segs ! i)) \<in> set SWAPPABLE \<and>
   i < protected_suffix_start_index segs \<and>
   apply_vowel_swaps segs c ! i = (segs ! i)\<lparr>ch := CHR ''o'', origin := False\<rparr>"
  by (auto simp: apply_vowel_swaps_nth swap_eligible_def swapped_def split: if_splits)

theorem swap_changes_only_original_AEI_witness:
  "1 < length (seg_from_string ''HAPPENS'' True) \<and>
   apply_vowel_swaps (seg_from_string ''HAPPENS'' True) False ! 1 \<noteq> seg_from_string ''HAPPENS'' True ! 1 \<and>
   origin (seg_from_string ''HAPPENS'' True ! 1)"
proof -
  have h1: "1 < length (seg_from_string ''HAPPENS'' True)" by simp
  have h2: "apply_vowel_swaps (seg_from_string ''HAPPENS'' True) False ! 1 \<noteq> seg_from_string ''HAPPENS'' True ! 1"
    by code_simp
  show ?thesis using swap_changes_only_original_AEI [OF h1 h2] h1 h2 by simp
qed

text \<open>
  Claim C19: sorting the protected-suffix table longest-first never changes the boundary:
  no entry is a suffix of another, so at most one entry matches any text.
\<close>

theorem protected_suffix_order_irrelevant:
  "protected_suffix_start_index segs =
     suffix_boundary (to_upper (seg_to_string segs)) PROTECTED_SUFFIXES_SRC"
proof -
  have "set PROTECTED_SUFFIXES = set PROTECTED_SUFFIXES_SRC"
    by (simp add: PROTECTED_SUFFIXES_def)
  then have "find (ends_with (to_upper (seg_to_string segs))) PROTECTED_SUFFIXES =
             find (ends_with (to_upper (seg_to_string segs))) PROTECTED_SUFFIXES_SRC"
    using protected_suffix_match_unique by (metis find_unique_cong)
  then show ?thesis by (simp add: protected_suffix_start_index_def suffix_boundary_find)
qed

end
