(* ===== verification/Pipeline.thy ===== *)
theory Pipeline
  imports Exceptions Suffix Prefix Cluster Vowels
begin

text \<open>
  \<open>transformWordPart\<close> of \<open>src/unnamed/part_000\<close> (lines 359--393): the exception
  lookup, and otherwise the rule stages in their fixed order on a fresh segment array
  (\<open>word_part_rules\<close>, lines 366--390): suffix rules (which also yield
  \<open>endingChangedToAH\<close>), prefix rules, cluster insertion and vowel swaps; the result
  is rendered and upper-cased. The lemmas show that an exception hit is returned exactly
  as the table gives it, that no stage ever marks synthesized text as original (the
  origin-true segments at the end are a subsequence of the typed characters), and that a
  letters-only word-part becomes an upper-case letters-only word.
\<close>

definition word_part_rules :: "string \<Rightarrow> segs" where
  "word_part_rules part =
     (let segs = seg_from_string part True;
          (segs, ending_changed_to_AH) = suffix_transforms segs;
          segs = prefix_transforms segs;
          segs = apply_cluster_insertions segs
      in apply_vowel_swaps segs ending_changed_to_AH)"

definition transform_word_part :: "string \<Rightarrow> string" where
  "transform_word_part part =
     (case apply_exceptions part of
        Some out \<Rightarrow> to_upper out
      | None \<Rightarrow> to_upper (seg_to_string (word_part_rules part)))"

text \<open>
  For evaluation: the same composition without the tuple pattern, so that the simplifier
  computes the suffix stage before it enters the later stages.
\<close>

lemma word_part_rules_code [code]:
  "word_part_rules part =
     apply_vowel_swaps
       (apply_cluster_insertions (prefix_transforms (fst (suffix_transforms (seg_from_string part True)))))
       (snd (suffix_transforms (seg_from_string part True)))"
  by (simp add: word_part_rules_def Let_def split_def)

subsection \<open>Stage invariants lifted to the pipeline\<close>

lemma origin_suffix_transforms [origin_rules]:
  "keeps_origin segs s0 \<Longrightarrow> keeps_origin (fst (suffix_transforms segs)) s0"
  by (simp add: suffix_transforms_def suffix_rules_before_AH_def replace_ending_TION_def
      replace_ending_TY_def replace_ending_AY_def Let_def split_def origin_rules)

lemma letters_suffix_transforms [letter_rules]:
  "all_letters segs \<Longrightarrow> all_letters (fst (suffix_transforms segs))"
  by (simp add: suffix_transforms_def suffix_rules_before_AH_def Let_def split_def letter_rules)

lemma keeps_origin_nth_unchanged:
  assumes "length segs' = length segs"
    and "\<And>i. i < length segs \<Longrightarrow> segs' ! i = segs ! i \<or> \<not> origin (segs' ! i)"
  shows "keeps_origin segs' segs"
  using assms
proof (induction segs' segs rule: list_induct2)
  case (Cons x xs y ys)
  have "keeps_origin xs ys" using Cons.IH Cons.prems [of "Suc _"] by auto
  moreover have "x = y \<or> \<not> origin x" using Cons.prems [of 0] by simp
  ultimately show ?case
    by (auto simp: keeps_origin_def intro: subseq_order.trans [OF _ subseq_drop_many [of _ _ "[_]"]])
qed simp

lemma origin_apply_vowel_swaps [origin_rules]:
  "keeps_origin segs s0 \<Longrightarrow> keeps_origin (apply_vowel_swaps segs c) s0"
proof -
  assume h: "keeps_origin segs s0"
  have "keeps_origin (apply_vowel_swaps segs c) segs"
    by (rule keeps_origin_nth_unchanged) (auto simp: apply_vowel_swaps_nth swapped_def)
  then show ?thesis using h by (rule keeps_origin_trans)
qed

lemma letters_apply_vowel_swaps [letter_rules]:
  assumes h: "all_letters segs"
  shows "all_letters (apply_vowel_swaps segs c)"
  unfolding all_letters_def
proof
  fix s assume "s \<in> set (apply_vowel_swaps segs c)"
  then obtain i where i: "i < length segs" and s: "s = apply_vowel_swaps segs c ! i"
    by (auto simp: in_set_conv_nth)
  have "is_letter (CHR ''o'')" by (simp add: is_letter_def)
  moreover have "is_letter (ch (segs ! i))" using h i by (simp add: all_letters_def)
  ultimately show "is_letter (ch s)" using i s by (simp add: apply_vowel_swaps_nth swapped_def)
qed

lemma keeps_origin_word_part_rules:
  "keeps_origin (word_part_rules part) (seg_from_string part True)"
  by (simp add: word_part_rules_def Let_def split_def origin_rules)

lemma letters_word_part_rules:
  "\<forall>c \<in> set part. is_letter c \<Longrightarrow> all_letters (word_part_rules part)"
  by (simp add: word_part_rules_def Let_def split_def letter_rules all_letters_seg_from)

lemma transform_word_part_letters:
  "\<forall>c \<in> set part. is_letter c \<Longrightarrow> \<forall>c \<in> set (transform_word_part part). is_letter c"
  using EXCEPTIONS_outputs_upper_letters [of part] letters_word_part_rules [of part]
  by (auto simp: transform_word_part_def all_letters_iff_string to_upper_def split: option.splits)

lemma transform_word_part_no_lower: "c \<in> set (transform_word_part part) \<Longrightarrow> \<not> is_ascii_lower c"
  by (auto simp: transform_word_part_def split: option.splits dest: to_upper_no_lower)

subsection \<open>Claims of the word-part pipeline\<close>

text \<open>
  Claim C3: exception priority: when a word-part matches an exception, the result is
  exactly the exception's output, whatever the rule stages would have produced.
\<close>

theorem exception_output_exact:
  "apply_exceptions w = Some out \<Longrightarrow> transform_word_part w = out"
  using EXCEPTIONS_outputs_upper_letters [of w out]
  by (simp add: transform_word_part_def to_upper_id)

theorem exception_output_exact_witness:
  "apply_exceptions ''Please'' = Some ''PALEASE'' \<and> transform_word_part ''Please'' = ''PALEASE''"
proof -
  have h: "apply_exceptions ''Please'' = Some ''PALEASE''" by code_simp
  show ?thesis using h exception_output_exact [OF h] by simp
qed

text \<open>
  Claim C4: no rule stage ever marks synthesized text as original: the origin-true
  segments left after all stages are a subsequence of the segments built from the
  typed word-part, each with its typed character.
\<close>

theorem word_part_rules_origin:
  "subseq (filter origin (word_part_rules part)) (seg_from_string part True)"
  using keeps_origin_word_part_rules [of part] by (simp add: keeps_origin_def)

text \<open>
  Claim C16: a word-part made of letters becomes a word of upper-case letters.
\<close>

theorem transform_word_part_upper_letters:
  "\<forall>c \<in> set part. is_letter c \<Longrightarrow>
   \<forall>c \<in> set (transform_word_part part). is_letter c \<and> \<not> is_ascii_lower c"
  using transform_word_part_letters transform_word_part_no_lower by blast

theorem transform_word_part_upper_letters_witness:
  "list_all is_letter ''Snake'' \<and>
   list_all (\<lambda>c. is_letter c \<and> \<not> is_ascii_lower c) (transform_word_part ''Snake'') \<and>
   transform_word_part ''Snake'' = ''SANOKE''"
proof -
  have h: "\<forall>c \<in> set ''Snake''. is_letter c" by code_simp
  have "transform_word_part ''Snake'' = ''SANOKE''" by code_simp
  then show ?thesis using h transform_word_part_upper_letters [OF h] by (simp add: list_all_iff)
qed

end
