(* ===== verification/Converter.thy ===== *)
theory Converter
  imports Tokens Pipeline
begin

text \<open>
  \<open>convertText\<close> of \<open>src/unnamed/part_000\<close> (lines 405--419): the token orchestrator
  of \<open>Tokens\<close> driving this file's \<open>transformWordPart\<close>
  (\<open>transform_word_part\<close>, \<open>Pipeline\<close>), followed by the final \<open>toUpperCase\<close>. The
  lemmas are the properties the specification states of \<open>convert\<close>: the loop computes
  the recursive scanner, text outside tokens passes through verbatim, the non-letter
  characters of the input reappear in order, and the final upper-casing is redundant.
\<close>

definition convert_text :: "string \<Rightarrow> string" where
  "convert_text input = to_upper (convert_loop transform_word_part input (match_all input) 0 [])"

lemma convert_spec_upper:
  "to_upper (convert_spec transform_word_part s) = convert_spec transform_word_part s"
proof -
  have "\<forall>c \<in> set (convert_spec transform_word_part s). \<not> is_ascii_lower c"
    using convert_spec_no_lower [where tp = transform_word_part] transform_word_part_no_lower by blast
  then show ?thesis by (rule to_upper_id)
qed

subsection \<open>Claims of \<open>convertText\<close>\<close>

text \<open>
  Claim C11: \<open>convertText\<close> (the \<open>matchAll\<close> loop that copies the text between
  matches) computes the upper-cased specification \<open>convert_spec\<close>: each character that
  starts no word token is copied, each word token is replaced by its transformation.
\<close>

theorem convert_text_refines: "convert_text input = to_upper (convert_spec transform_word_part input)"
  by (simp add: convert_text_def convert_loop_match_all)

text \<open>
  Claim C1: on ASCII input (where \<open>to_upper\<close> is exactly JavaScript's \<open>toUpperCase\<close>)
  the non-letter characters of the output are exactly those of the input, in the same
  order: whitespace, punctuation, digits, hyphens and apostrophes are neither lost, added
  nor reordered.
\<close>

theorem convert_text_preserves_nonletters:
  "list_all is_ascii s \<Longrightarrow>
   filter (\<lambda>c. \<not> is_letter c) (convert_text s) = filter (\<lambda>c. \<not> is_letter c) s"
  by (simp add: convert_text_def convert_loop_match_all filter_nonletters_to_upper
      convert_spec_nonletters [where tp = transform_word_part, OF transform_word_part_letters])

theorem convert_text_preserves_nonletters_witness:
  "list_all is_ascii ''stop, 42!'' \<and>
   filter (\<lambda>c. \<not> is_letter c) (convert_text ''stop, 42!'') = '', 42!''"
proof -
  have h: "list_all is_ascii ''stop, 42!''" by code_simp
  have "filter (\<lambda>c. \<not> is_letter c) ''stop, 42!'' = '', 42!''" by code_simp
  then show ?thesis using h convert_text_preserves_nonletters [OF h] by simp
qed

text \<open>
  Claim C2: on ASCII input the final \<open>out.toUpperCase()\<close> of \<open>convertText\<close> changes
  nothing, as the specification says (idempotent on the pipeline's output, a no-op on the
  rest): every letter lies in a word token, whose transformation is already upper case, and
  the text between tokens has no letter.
\<close>

theorem final_upper_case_redundant:
  "list_all is_ascii s \<Longrightarrow> convert_text s = convert_loop transform_word_part s (match_all s) 0 []"
  by (simp add: convert_text_def convert_loop_match_all convert_spec_upper)

theorem final_upper_case_redundant_witness:
  "list_all is_ascii ''Stop it!'' \<and>
   convert_text ''Stop it!'' = convert_loop transform_word_part ''Stop it!'' (match_all ''Stop it!'') 0 []"
proof -
  have h: "list_all is_ascii ''Stop it!''" by code_simp
  show ?thesis using h final_upper_case_redundant [OF h] by simp
qed

text \<open>
  Claim C17: on ASCII input, a stretch of text without letters at the front of the input is
  copied to the output unchanged, ahead of the conversion of the rest.
\<close>

theorem convert_text_gap_verbatim:
  "list_all is_ascii g \<Longrightarrow> \<forall>c \<in> set g. \<not> is_letter c \<Longrightarrow>
   convert_text (g @ rest) = g @ convert_text rest"
  by (simp add: convert_text_def convert_loop_match_all convert_spec_gap to_upper_nonletters)

theorem convert_text_gap_verbatim_witness:
  "list_all is_ascii '' -- 42, '' \<and> list_all (\<lambda>c. \<not> is_letter c) '' -- 42, '' \<and>
   convert_text ('' -- 42, '' @ ''snake'') = '' -- 42, '' @ convert_text ''snake''"
proof -
  have a: "list_all is_ascii '' -- 42, ''" by code_simp
  have h: "\<forall>c \<in> set '' -- 42, ''. \<not> is_letter c" by code_simp
  show ?thesis using a h convert_text_gap_verbatim [OF a h] by (simp add: list_all_iff)
qed

end
