(* ===== verification/Legacy.thy ===== *)
theory Legacy
  imports Converter
begin

text \<open>
  The older engine of \<open>src/app.js\<close> (lines 1--342). Its segment model, protected-suffix
  table, \<open>applyExceptions\<close> loop, the rules \<open>replaceAllERWithAH\<close>,
  \<open>replaceEndingTION\<close>, \<open>replaceEndingTY\<close>, \<open>replaceEndingLY\<close>, \<open>applyEndingAH\<close>,
  \<open>replaceEndingYToEH\<close>, \<open>applyPrefixREToRO\<close>, \<open>applyClusterInsertions\<close>,
  \<open>applyVowelSwaps\<close>, \<open>transformWordToken\<close> and \<open>convertText\<close> are the same code as in
  part_000 (the boolean results of some app.js rules are ignored by their caller), so they
  are the definitions of the other theories. What differs is modelled here: the exception
  table without \<open>very\<close>/\<open>well\<close> (lines 21--37), the active U\<open>\<rightarrow>\<close>YAU rule
  \<open>applyStartingUYoo\<close> (lines 183--193), and the stage order of \<open>transformWordPart\<close>
  (lines 290--317): no IR, AY, SN or SW rule. The lemmas show that the newer exception table
  extends this one by exactly the two new entries, that the legacy pipeline keeps the origin
  invariant and letters-only text, and that on ASCII input the legacy \<open>convertText\<close>
  keeps every non-letter character in place, through the shared orchestrator lemmas.
\<close>

definition EXCEPTIONS_LEGACY :: "exc_entry list" where
  "EXCEPTIONS_LEGACY =
     [regex_entry ''/^(you|your)$/i'' [''you'', ''your''] ''YA'',
      regex_entry ''/^the$/i'' [''the''] ''THA'',
      regex_entry ''/^for$/i'' [''for''] ''FA'',
      regex_entry ''/^please$/i'' [''please''] ''PALEASE'',
      regex_entry ''/^deadline$/i'' [''deadline''] ''DODLINE'',
      regex_entry ''/^mistakes$/i'' [''mistakes''] ''MOSTAKES'',
      regex_entry ''/^aminur$/i'' [''aminur''] ''AMINAH'',
      regex_entry ''/^date$/i'' [''date''] ''DATE'',
      regex_entry ''/^name$/i'' [''name''] ''NAME'',
      regex_entry ''/^set$/i'' [''set''] ''SOT'']"

definition apply_exceptions_legacy :: "string \<Rightarrow> string option" where
  "apply_exceptions_legacy w = apply_exception_entries EXCEPTIONS_LEGACY w"

text \<open>Lines 296--302: the suffix stage of the legacy \<open>transformWordPart\<close>.\<close>

definition suffix_transforms_legacy :: "segs \<Rightarrow> segs \<times> bool" where
  "suffix_transforms_legacy segs =
     (let segs = replace_all_ER_with_AH segs;
          segs = replace_ending_TION segs;
          segs = replace_ending_TY segs;
          segs = replace_ending_LY segs;
          (segs, ending_changed_to_AH) = apply_ending_AH segs;
          segs = replace_ending_Y_to_EH segs
      in (segs, ending_changed_to_AH))"

definition apply_starting_U_yoo :: "segs \<Rightarrow> segs" where
  "apply_starting_U_yoo segs =
     (if 2 \<le> length segs then
        (let first = to_upper_char (ch (segs ! 0));
             next_ch = to_upper_char (ch (segs ! 1))
         in if first = CHR ''U'' \<and> next_ch \<in> set ''NSFT''
            then splice_segs segs 0 1 (seg_from_string ''YAU'' False)
            else segs)
      else segs)"

definition prefix_transforms_legacy :: "segs \<Rightarrow> segs" where
  "prefix_transforms_legacy segs = apply_prefix_RE_to_RO (apply_starting_U_yoo segs)"

definition word_part_rules_legacy :: "string \<Rightarrow> segs" where
  "word_part_rules_legacy part =
     (let segs = seg_from_string part True;
          (segs, ending_changed_to_AH) = suffix_transforms_legacy segs;
          segs = prefix_transforms_legacy segs;
          segs = apply_cluster_insertions segs
      in apply_vowel_swaps segs ending_changed_to_AH)"

definition transform_word_part_legacy :: "string \<Rightarrow> string" where
  "transform_word_part_legacy part =
     (case apply_exceptions_legacy part of
        Some out \<Rightarrow> to_upper out
      | None \<Rightarrow> to_upper (seg_to_string (word_part_rules_legacy part)))"

definition convert_text_legacy :: "string \<Rightarrow> string" where
  "convert_text_legacy input =
     to_upper (convert_loop transform_word_part_legacy input (match_all input) 0 [])"

lemma word_part_rules_legacy_code [code]:
  "word_part_rules_legacy part =
     apply_vowel_swaps
       (apply_cluster_insertions
         (prefix_transforms_legacy (fst (suffix_transforms_legacy (seg_from_string part True)))))
       (snd (suffix_transforms_legacy (seg_from_string part True)))"
  by (simp add: word_part_rules_legacy_def Let_def split_def)

subsection \<open>Invariants of the legacy stages\<close>

lemma origin_apply_starting_U_yoo [origin_rules]:
  "keeps_origin segs s0 \<Longrightarrow> keeps_origin (apply_starting_U_yoo segs) s0"
  unfolding apply_starting_U_yoo_def Let_def by (auto intro: keeps_origin_trans)

lemma letters_apply_starting_U_yoo [letter_rules]:
  "all_letters segs \<Longrightarrow> all_letters (apply_starting_U_yoo segs)"
  by (simp add: apply_starting_U_yoo_def Let_def all_letters_splice all_letters_seg_from
      is_letter_def)

lemma origin_suffix_transforms_legacy [origin_rules]:
  "keeps_origin segs s0 \<Longrightarrow> keeps_origin (fst (suffix_transforms_legacy segs)) s0"
  by (simp add: suffix_transforms_legacy_def replace_ending_TION_def replace_ending_TY_def
      Let_def split_def origin_rules)

lemma letters_suffix_transforms_legacy [letter_rules]:
  "all_letters segs \<Longrightarrow> all_letters (fst (suffix_transforms_legacy segs))"
  by (simp add: suffix_transforms_legacy_def Let_def split_def letter_rules)

lemma origin_prefix_transforms_legacy [origin_rules]:
  "keeps_origin segs s0 \<Longrightarrow> keeps_origin (prefix_transforms_legacy segs) s0"
  by (simp add: prefix_transforms_legacy_def origin_rules)

lemma letters_prefix_transforms_legacy [letter_rules]:
  "all_letters segs \<Longrightarrow> all_letters (prefix_transforms_legacy segs)"
  by (simp add: prefix_transforms_legacy_def letter_rules)

lemma keeps_origin_word_part_rules_legacy:
  "keeps_origin (word_part_rules_legacy part) (seg_from_string part True)"
  by (simp add: word_part_rules_legacy_def Let_def split_def origin_rules)

lemma letters_word_part_rules_legacy:
  "\<forall>c \<in> set part. is_letter c \<Longrightarrow> all_letters (word_part_rules_legacy part)"
  by (simp add: word_part_rules_legacy_def Let_def split_def letter_rules all_letters_seg_from)

lemma apply_exceptions_legacy_outputs:
  "apply_exceptions_legacy w = Some out \<Longrightarrow> \<forall>c \<in> set out. is_letter c \<and> \<not> is_ascii_lower c"
  unfolding apply_exceptions_legacy_def apply_exception_entries_def
  by (drule apply_exception_rules_SomeD)
     (auto simp: EXCEPTIONS_LEGACY_def parse_entry_def js_prop_def entry_output_def nullish_def
       exc_output_def is_letter_def is_ascii_lower_def)

lemma transform_word_part_legacy_letters:
  "\<forall>c \<in> set part. is_letter c \<Longrightarrow> \<forall>c \<in> set (transform_word_part_legacy part). is_letter c"
  using apply_exceptions_legacy_outputs [of part] letters_word_part_rules_legacy [of part]
  by (auto simp: transform_word_part_legacy_def all_letters_iff_string to_upper_def
      split: option.splits)

lemma EXCEPTIONS_extend:
  "map parse_entry EXCEPTIONS =
     ExRegex [''very''] (OutStr ''WELL'') # ExRegex [''well''] (OutStr ''WELL'') #
     map parse_entry EXCEPTIONS_LEGACY"
  by (simp add: EXCEPTIONS_rules EXCEPTIONS_LEGACY_def parse_entry_def js_prop_def entry_output_def
      nullish_def)

lemma to_lower_literal_eq: "to_lower ''very'' = ''very''" "to_lower ''well'' = ''well''"
  by code_simp+

subsection \<open>Claims of the legacy engine\<close>

text \<open>
  Claim C22: the exception table of part_000 extends the one of app.js by exactly the
  entries for ``very'' and ``well'': every other word-part gets the same exception result
  from both engines.
\<close>

theorem apply_exceptions_extends_legacy:
  "apply_exceptions w =
     (if to_lower w = ''very'' \<or> to_lower w = ''well'' then Some ''WELL'' else apply_exceptions_legacy w)"
proof -
  have very: "regex_whole_match [''very''] w \<longleftrightarrow> to_lower w = ''very''"
    and well: "regex_whole_match [''well''] w \<longleftrightarrow> to_lower w = ''well''"
    unfolding regex_whole_match_def list.map to_lower_literal_eq by simp_all
  show ?thesis
    unfolding apply_exceptions_def apply_exceptions_legacy_def apply_exception_entries_def
      EXCEPTIONS_extend
      apply_exception_rules.simps very well
    by (simp add: exc_output_def)
qed

text \<open>
  Claim C23: on ASCII input the legacy \<open>convertText\<close> also keeps every non-letter
  character of its input, in order.
\<close>

theorem convert_text_legacy_preserves_nonletters:
  "list_all is_ascii s \<Longrightarrow> filter (\<lambda>c. \<not> is_letter c) (convert_text_legacy s) = filter (\<lambda>c. \<not> is_letter c) s"
  by (simp add: convert_text_legacy_def convert_loop_match_all filter_nonletters_to_upper
      convert_spec_nonletters [where tp = transform_word_part_legacy, OF transform_word_part_legacy_letters])

theorem convert_text_legacy_preserves_nonletters_witness:
  "list_all is_ascii ''until, 42!'' \<and>
   filter (\<lambda>c. \<not> is_letter c) (convert_text_legacy ''until, 42!'') = '', 42!''"
proof -
  have h: "list_all is_ascii ''until, 42!''" by code_simp
  have "filter (\<lambda>c. \<not> is_letter c) ''until, 42!'' = '', 42!''" by code_simp
  then show ?thesis using h convert_text_legacy_preserves_nonletters [OF h] by simp
qed

text \<open>
  Claim C24: no stage of the legacy pipeline, the U\<open>\<rightarrow>\<close>YAU rule included, marks
  synthesized text as original.
\<close>

theorem word_part_rules_legacy_origin:
  "subseq (filter origin (word_part_rules_legacy part)) (seg_from_string part True)"
  using keeps_origin_word_part_rules_legacy [of part] by (simp add: keeps_origin_def)

text \<open>
  Examples of the divergence: the two engines disagree on ordinary words: app.js has no SN/SW rule
  (SNOKE, SWIRL), no IR rule (FIRST, GIRL), no very/well exception (VAHEH) and an active
  U\<open>\<rightarrow>\<close>YAU rule (YAUNTIL, YAUSES).
\<close>

lemma legacy_vs_current_examples:
  "convert_text_legacy ''snake swirl until very first girl uses'' =
     ''SNOKE SWIRL YAUNTIL VAHEH FIRST GIRL YAUSES'' \<and>
   convert_text ''snake swirl until very first girl uses'' =
     ''SANOKE SAWARL UNTIL WELL FARST GARL USES''"
  by code_simp

end
