(* ===== verification/UI.thy ===== *)
theory UI
  imports Legacy "HOL-Library.Product_Lexorder"
begin

text \<open>
  The page glue of \<open>src/unnamed/part_000\<close> (lines 421--500) and of \<open>src/app.js\<close>
  (lines 344--391), as a state machine over the events a user and the browser produce.
  The state \<open>ui\<close> holds what the handlers read and write: the text box value, the output
  and status texts (\<open>None\<close> when the page has no \<open>#status\<close> element, which the comment on
  line 430 says is commented out in the HTML), the clipboard, the pending
  \<open>setTimeout\<close> callbacks with the handles \<open>doConvert._t\<close> and \<open>$("copy")._t\<close>, the
  texts of \<open>navigator.clipboard.writeText\<close> calls whose promise has not settled yet, and
  the five attributes the hamburger menu sets. The browser side is modelled as the code
  relies on it: \<open>setTimeout\<close> returns a fresh handle and queues its callback by due time,
  \<open>clearTimeout\<close> drops a handle (and ignores an unknown one), waiting runs the due
  callbacks in order, and the \<open>await\<close> in the copy handler splits it into the click and a
  later settlement, between which other events may run.

  A handler that throws keeps the DOM writes it made before the throw; \<open>outcome\<close> records
  whether it threw, and the page goes on. The two files differ in \<open>setStatus\<close>: part_000
  returns when \<open>#status\<close> is missing (\<open>guarded\<close>), app.js dereferences it and throws.
\<close>

datatype 'a outcome = Ok 'a | Threw 'a

primrec state_of :: "'a outcome \<Rightarrow> 'a" where
  "state_of (Ok s) = s"
| "state_of (Threw s) = s"

primrec bind_out :: "'a outcome \<Rightarrow> ('a \<Rightarrow> 'a outcome) \<Rightarrow> 'a outcome" where
  "bind_out (Ok s) f = f s"
| "bind_out (Threw s) f = Threw s"

type_synonym timer = "nat \<times> nat"

record ui =
  input_value :: string
  output_text :: string
  status_text :: "string option"
  clipboard :: string
  clock :: nat
  timers :: "timer list"
  next_timer_id :: nat
  convert_timer :: "nat option"
  copy_timer :: "nat option"
  input_focused :: bool
  pending_copies :: "string list"
  panel_open :: bool
  overlay_hidden :: bool
  btn_aria_expanded :: string
  panel_aria_hidden :: string
  body_overflow :: string

text \<open>A pending timer is its handle and its due time; the queue is kept in firing order.\<close>

definition timer_key :: "timer \<Rightarrow> nat \<times> nat" where
  "timer_key t = (snd t, fst t)"

definition set_timeout :: "nat \<Rightarrow> ui \<Rightarrow> nat \<times> ui" where
  "set_timeout delay st =
     (next_timer_id st,
      st\<lparr>timers := insort_key timer_key (next_timer_id st, clock st + delay) (timers st),
         next_timer_id := Suc (next_timer_id st)\<rparr>)"

definition clear_timeout :: "nat option \<Rightarrow> ui \<Rightarrow> ui" where
  "clear_timeout h st =
     (case h of None \<Rightarrow> st | Some i \<Rightarrow> st\<lparr>timers := filter (\<lambda>t. fst t \<noteq> i) (timers st)\<rparr>)"

definition set_status :: "bool \<Rightarrow> string \<Rightarrow> ui \<Rightarrow> ui outcome" where
  "set_status guarded text st =
     (case status_text st of
        None \<Rightarrow> (if guarded then Ok st else Threw st)
      | Some _ \<Rightarrow> Ok (st\<lparr>status_text := Some text\<rparr>))"

definition do_convert :: "bool \<Rightarrow> (string \<Rightarrow> string) \<Rightarrow> ui \<Rightarrow> ui outcome" where
  "do_convert guarded conv st =
     bind_out (set_status guarded ''CONVERTED'' (st\<lparr>output_text := conv (input_value st)\<rparr>))
       (\<lambda>st. let st = clear_timeout (convert_timer st) st;
                 (i, st) = set_timeout 900 st
             in Ok (st\<lparr>convert_timer := Some i\<rparr>))"

definition on_input_keydown ::
  "bool \<Rightarrow> (string \<Rightarrow> string) \<Rightarrow> bool \<Rightarrow> bool \<Rightarrow> string \<Rightarrow> ui \<Rightarrow> ui outcome" where
  "on_input_keydown guarded conv ctrl meta key st =
     (if (ctrl \<or> meta) \<and> key = ''Enter'' then do_convert guarded conv st else Ok st)"

definition on_clear :: "bool \<Rightarrow> ui \<Rightarrow> ui outcome" where
  "on_clear guarded st =
     bind_out (set_status guarded ''READY'' (st\<lparr>input_value := [], output_text := []\<rparr>))
       (\<lambda>st. Ok (st\<lparr>input_focused := True\<rparr>))"

text \<open>The click of \<open>#copy\<close> up to its \<open>await\<close>: \<open>writeText\<close> is called with the output.\<close>

definition on_copy_click :: "ui \<Rightarrow> ui" where
  "on_copy_click st = st\<lparr>pending_copies := pending_copies st @ [output_text st]\<rparr>"

definition copy_catch :: "bool \<Rightarrow> ui \<Rightarrow> ui outcome" where
  "copy_catch guarded st =
     bind_out (set_status guarded ''COPY FAILED'' st) (\<lambda>st. Ok (snd (set_timeout 1200 st)))"

text \<open>
  The rest of the copy handler, when the \<open>i\<close>-th pending \<open>writeText\<close> settles: on success
  the clipboard holds the text and the \<open>try\<close> block goes on; a rejection, or a throw in the
  \<open>try\<close> block, runs the \<open>catch\<close> block.
\<close>

definition on_copy_settle :: "bool \<Rightarrow> nat \<Rightarrow> bool \<Rightarrow> ui \<Rightarrow> ui outcome" where
  "on_copy_settle guarded i ok st =
     (if i < length (pending_copies st) then
        (let text = pending_copies st ! i;
             st = st\<lparr>pending_copies := take i (pending_copies st) @ drop (Suc i) (pending_copies st)\<rparr>;
             tried =
               (if ok then
                  bind_out (set_status guarded ''COPIED'' (st\<lparr>clipboard := text\<rparr>))
                    (\<lambda>st. let st = clear_timeout (copy_timer st) st;
                              (j, st) = set_timeout 900 st
                          in Ok (st\<lparr>copy_timer := Some j\<rparr>))
                else Threw st)
         in case tried of Ok st \<Rightarrow> Ok st | Threw st \<Rightarrow> copy_catch guarded st)
      else Ok st)"

text \<open>
  Time passing until \<open>target\<close>: the queued callbacks due by then run in order, each one
  \<open>setStatus("READY")\<close>; a callback that throws does not stop the next one.
\<close>

fun fire_timers :: "bool \<Rightarrow> nat \<Rightarrow> timer list \<Rightarrow> ui \<Rightarrow> ui" where
  "fire_timers guarded target [] st = st\<lparr>timers := [], clock := max (clock st) target\<rparr>"
| "fire_timers guarded target (t # ts) st =
     (if snd t \<le> target
      then fire_timers guarded target ts
             (state_of (set_status guarded ''READY'' (st\<lparr>timers := ts, clock := max (clock st) (snd t)\<rparr>)))
      else st\<lparr>timers := t # ts, clock := max (clock st) target\<rparr>)"

definition wait :: "bool \<Rightarrow> nat \<Rightarrow> ui \<Rightarrow> ui" where
  "wait guarded d st = fire_timers guarded (clock st + d) (timers st) st"

definition open_menu :: "ui \<Rightarrow> ui" where
  "open_menu st =
     st\<lparr>panel_open := True, overlay_hidden := False, btn_aria_expanded := ''true'',
        panel_aria_hidden := ''false'', body_overflow := ''hidden''\<rparr>"

definition close_menu :: "ui \<Rightarrow> ui" where
  "close_menu st =
     st\<lparr>panel_open := False, overlay_hidden := True, btn_aria_expanded := ''false'',
        panel_aria_hidden := ''true'', body_overflow := []\<rparr>"

definition doc_keydown :: "string \<Rightarrow> ui \<Rightarrow> ui" where
  "doc_keydown key st = (if key = ''Escape'' then close_menu st else st)"

datatype ui_event =
    ClickConvert
  | KeyDownInput bool bool string
  | KeyDownPage string
  | ClickClear
  | ClickCopy
  | CopySettled nat bool
  | Wait nat
  | Edit string
  | ClickMenuBtn
  | ClickMenuClose
  | ClickOverlay

text \<open>
  The listeners of part_000 (lines 441--500). A key pressed in the text box reaches the
  box's listener and then, bubbling, the document's.
\<close>

fun ui_step :: "ui \<Rightarrow> ui_event \<Rightarrow> ui" where
  "ui_step st ClickConvert = state_of (do_convert True convert_text st)"
| "ui_step st (KeyDownInput c m k) =
     doc_keydown k (state_of (on_input_keydown True convert_text c m k st))"
| "ui_step st (KeyDownPage k) = doc_keydown k st"
| "ui_step st ClickClear = state_of (on_clear True st)"
| "ui_step st ClickCopy = on_copy_click st"
| "ui_step st (CopySettled i ok) = state_of (on_copy_settle True i ok st)"
| "ui_step st (Wait d) = wait True d st"
| "ui_step st (Edit s) = st\<lparr>input_value := s\<rparr>"
| "ui_step st ClickMenuBtn = open_menu st"
| "ui_step st ClickMenuClose = close_menu st"
| "ui_step st ClickOverlay = close_menu st"

fun ui_run :: "ui \<Rightarrow> ui_event list \<Rightarrow> ui" where
  "ui_run st [] = st"
| "ui_run st (e # es) = ui_run (ui_step st e) es"

text \<open>Lines 469--471: the page starts with an empty text box and converts it.\<close>

definition page_load :: "ui \<Rightarrow> ui" where
  "page_load st = state_of (do_convert True convert_text (st\<lparr>input_value := []\<rparr>))"

text \<open>The listeners of app.js (lines 344--391): no menu, and an unguarded \<open>setStatus\<close>.\<close>

fun ui_step_legacy :: "ui \<Rightarrow> ui_event \<Rightarrow> ui outcome" where
  "ui_step_legacy st ClickConvert = do_convert False convert_text_legacy st"
| "ui_step_legacy st (KeyDownInput c m k) = on_input_keydown False convert_text_legacy c m k st"
| "ui_step_legacy st (KeyDownPage k) = Ok st"
| "ui_step_legacy st ClickClear = on_clear False st"
| "ui_step_legacy st ClickCopy = Ok (on_copy_click st)"
| "ui_step_legacy st (CopySettled i ok) = on_copy_settle False i ok st"
| "ui_step_legacy st (Wait d) = Ok (wait False d st)"
| "ui_step_legacy st (Edit s) = Ok (st\<lparr>input_value := s\<rparr>)"
| "ui_step_legacy st ClickMenuBtn = Ok st"
| "ui_step_legacy st ClickMenuClose = Ok st"
| "ui_step_legacy st ClickOverlay = Ok st"

inductive reachable_ui :: "ui \<Rightarrow> bool" where
  load: "timers st = [] \<Longrightarrow> reachable_ui (page_load st)"
| step: "reachable_ui st \<Longrightarrow> reachable_ui (ui_step st e)"

text \<open>The state invariant: the timer queue is ordered, due within 1200 ms, and a status
  other than READY always has a callback pending that will reset it.\<close>

definition ui_inv :: "ui \<Rightarrow> bool" where
  "ui_inv st \<longleftrightarrow>
     sorted (map timer_key (timers st)) \<and>
     list_all (\<lambda>t. clock st \<le> snd t \<and> snd t \<le> clock st + 1200) (timers st) \<and>
     (case timers st of [] \<Rightarrow> status_text st \<in> {None, Some ''READY''} | _ \<Rightarrow> True)"

definition menu_consistent :: "ui \<Rightarrow> bool" where
  "menu_consistent st \<longleftrightarrow>
     (if panel_open st
      then \<not> overlay_hidden st \<and> btn_aria_expanded st = ''true'' \<and>
           panel_aria_hidden st = ''false'' \<and> body_overflow st = ''hidden''
      else overlay_hidden st \<and> btn_aria_expanded st = ''false'' \<and>
           panel_aria_hidden st = ''true'' \<and> body_overflow st = [])"

definition menu_state :: "ui \<Rightarrow> bool \<times> bool \<times> string \<times> string \<times> string" where
  "menu_state st =
     (panel_open st, overlay_hidden st, btn_aria_expanded st, panel_aria_hidden st, body_overflow st)"

text \<open>A page as the HTML leaves it before the script runs (a fixture for the examples).\<close>

definition blank_page :: ui where
  "blank_page =
     \<lparr>input_value = [], output_text = [], status_text = Some ''READY'', clipboard = [],
      clock = 0, timers = [], next_timer_id = 1, convert_timer = None, copy_timer = None,
      input_focused = False, pending_copies = [], panel_open = False, overlay_hidden = True,
      btn_aria_expanded = ''false'', panel_aria_hidden = ''true'', body_overflow = []\<rparr>"

subsection \<open>The handlers one by one\<close>

lemma ui_inv_iff:
  "ui_inv st \<longleftrightarrow>
     sorted (map timer_key (timers st)) \<and>
     (\<forall>t \<in> set (timers st). clock st \<le> snd t \<and> snd t \<le> clock st + 1200) \<and>
     (status_text st \<noteq> None \<and> status_text st \<noteq> Some ''READY'' \<longrightarrow> timers st \<noteq> [])"
  by (auto simp: ui_inv_def list_all_iff split: list.splits)

lemma set_status_guarded:
  "set_status True text st =
     Ok (case status_text st of None \<Rightarrow> st | Some _ \<Rightarrow> st\<lparr>status_text := Some text\<rparr>)"
  by (simp add: set_status_def split: option.splits)

lemma sorted_timer_key_dropWhile:
  "sorted (map timer_key ts) \<Longrightarrow> t \<in> set (dropWhile (\<lambda>t. snd t \<le> target) ts) \<Longrightarrow> target < snd t"
proof (induction ts)
  case (Cons u ts)
  show ?case
  proof (cases "snd u \<le> target")
    case True
    then show ?thesis using Cons by simp
  next
    case False
    then have "t = u \<or> t \<in> set ts" using Cons.prems(2) by simp
    moreover have "\<forall>v \<in> set ts. timer_key u \<le> timer_key v" using Cons.prems(1) by simp
    ultimately show ?thesis using False by (auto simp: timer_key_def less_eq_prod_def)
  qed
qed simp

lemma sorted_timer_key_hd:
  "sorted (map timer_key (t # ts)) \<Longrightarrow> u \<in> set ts \<Longrightarrow> snd t \<le> snd u"
  by (auto simp: timer_key_def less_eq_prod_def)

lemma fire_timers_props:
  assumes "sorted (map timer_key ts)" and "\<forall>t \<in> set ts. clock st \<le> snd t" and "clock st \<le> target"
  shows "timers (fire_timers True target ts st) = dropWhile (\<lambda>t. snd t \<le> target) ts \<and>
         clock (fire_timers True target ts st) = target \<and>
         status_text (fire_timers True target ts st) =
           (if ts \<noteq> [] \<and> snd (hd ts) \<le> target then map_option (\<lambda>_. ''READY'') (status_text st)
            else status_text st) \<and>
         output_text (fire_timers True target ts st) = output_text st \<and>
         panel_open (fire_timers True target ts st) = panel_open st"
  using assms
proof (induction ts arbitrary: st)
  case (Cons t ts)
  show ?case
  proof (cases "snd t \<le> target")
    case True
    let ?st = "state_of (set_status True ''READY'' (st\<lparr>timers := ts, clock := max (clock st) (snd t)\<rparr>))"
    have clk: "clock ?st = snd t" using Cons.prems(2) by (simp add: set_status_guarded split: option.splits)
    have "sorted (map timer_key ts)" using Cons.prems(1) by simp
    moreover have "\<forall>u \<in> set ts. clock ?st \<le> snd u" using clk sorted_timer_key_hd [OF Cons.prems(1)] by simp
    moreover have "clock ?st \<le> target" using clk True by simp
    ultimately have IH: "timers (fire_timers True target ts ?st) = dropWhile (\<lambda>t. snd t \<le> target) ts \<and>
         clock (fire_timers True target ts ?st) = target \<and>
         status_text (fire_timers True target ts ?st) =
           (if ts \<noteq> [] \<and> snd (hd ts) \<le> target then map_option (\<lambda>_. ''READY'') (status_text ?st)
            else status_text ?st) \<and>
         output_text (fire_timers True target ts ?st) = output_text ?st \<and>
         panel_open (fire_timers True target ts ?st) = panel_open ?st"
      by (rule Cons.IH)
    then show ?thesis using True by (auto simp: set_status_guarded split: option.splits)
  next
    case False
    then show ?thesis using Cons.prems(3) by simp
  qed
qed simp

lemma do_convert_inv:
  assumes "sorted (map timer_key (timers st))"
    and "\<forall>t \<in> set (timers st). clock st \<le> snd t \<and> snd t \<le> clock st + 1200"
  shows "ui_inv (state_of (do_convert True conv st))"
  using assms
  by (auto simp: do_convert_def set_status_guarded clear_timeout_def set_timeout_def ui_inv_iff
      Let_def set_insort_key sorted_insort_key sorted_filter split: option.splits)

lemma on_copy_settle_inv:
  "ui_inv st \<Longrightarrow> ui_inv (state_of (on_copy_settle True i ok st))"
  by (auto simp: on_copy_settle_def copy_catch_def set_status_guarded clear_timeout_def
      set_timeout_def ui_inv_iff Let_def set_insort_key sorted_insort_key sorted_filter
      split: option.splits)

lemma wait_inv:
  assumes inv: "ui_inv st"
  shows "ui_inv (wait True d st)"
proof -
  let ?ts = "timers st" and ?target = "clock st + d"
  have srt: "sorted (map timer_key ?ts)" and bnd: "\<forall>t \<in> set ?ts. clock st \<le> snd t \<and> snd t \<le> clock st + 1200"
    using inv by (simp_all add: ui_inv_iff)
  then have P: "timers (wait True d st) = dropWhile (\<lambda>t. snd t \<le> ?target) ?ts \<and>
      clock (wait True d st) = ?target \<and>
      status_text (wait True d st) =
        (if ?ts \<noteq> [] \<and> snd (hd ?ts) \<le> ?target then map_option (\<lambda>_. ''READY'') (status_text st)
         else status_text st)"
    using fire_timers_props [of ?ts st ?target] by (simp add: wait_def)
  have "sorted (map timer_key (dropWhile (\<lambda>t. snd t \<le> ?target) ?ts))"
    using srt by (simp add: sorted_map)
  moreover have "\<forall>t \<in> set (dropWhile (\<lambda>t. snd t \<le> ?target) ?ts). ?target \<le> snd t \<and> snd t \<le> ?target + 1200"
    using sorted_timer_key_dropWhile [OF srt] bnd set_dropWhileD [of _ _ ?ts] by fastforce
  moreover have "status_text (wait True d st) \<noteq> None \<and> status_text (wait True d st) \<noteq> Some ''READY'' \<Longrightarrow>
      dropWhile (\<lambda>t. snd t \<le> ?target) ?ts \<noteq> []"
    using inv P by (cases ?ts) (auto simp: ui_inv_iff split: if_splits)
  ultimately show ?thesis using P by (simp add: ui_inv_iff)
qed

lemma ui_step_inv:
  assumes that: "ui_inv st"
  shows "ui_inv (ui_step st e)"
proof (cases e)
  case ClickConvert
  then show ?thesis using that do_convert_inv [of st convert_text] by (simp add: ui_inv_iff)
next
  case (KeyDownInput c m k)
  then show ?thesis using that do_convert_inv [of st convert_text]
    by (auto simp: ui_inv_iff on_input_keydown_def doc_keydown_def close_menu_def)
next
  case ClickClear
  then show ?thesis using that
    by (simp add: ui_inv_iff on_clear_def set_status_guarded split: option.splits)
next
  case (CopySettled i ok)
  then show ?thesis using that on_copy_settle_inv by simp
next
  case (Wait d)
  then show ?thesis using that wait_inv by simp
qed (use that in \<open>auto simp: ui_inv_iff doc_keydown_def close_menu_def open_menu_def on_copy_click_def\<close>)

lemma ui_inv_reachable: "reachable_ui st \<Longrightarrow> ui_inv st"
proof (induction rule: reachable_ui.induct)
  case (load st)
  then show ?case using do_convert_inv [of "st\<lparr>input_value := []\<rparr>" convert_text]
    by (simp add: page_load_def)
next
  case (step st e)
  from step.IH show ?case by (rule ui_step_inv)
qed

lemma wait_settles:
  assumes inv: "ui_inv st"
  shows "timers (wait True 1200 st) = [] \<and> status_text (wait True 1200 st) \<in> {None, Some ''READY''}"
proof -
  let ?ts = "timers st" and ?target = "clock st + 1200"
  have srt: "sorted (map timer_key ?ts)" and bnd: "\<forall>t \<in> set ?ts. clock st \<le> snd t \<and> snd t \<le> ?target"
    using inv by (simp_all add: ui_inv_iff)
  then have P: "timers (wait True 1200 st) = dropWhile (\<lambda>t. snd t \<le> ?target) ?ts \<and>
      status_text (wait True 1200 st) =
        (if ?ts \<noteq> [] \<and> snd (hd ?ts) \<le> ?target then map_option (\<lambda>_. ''READY'') (status_text st)
         else status_text st)"
    using fire_timers_props [of ?ts st ?target] by (simp add: wait_def)
  have "dropWhile (\<lambda>t. snd t \<le> ?target) ?ts = []" using bnd by (simp add: dropWhile_eq_Nil_conv)
  moreover have "?ts \<noteq> [] \<Longrightarrow> snd (hd ?ts) \<le> ?target" using bnd by simp
  ultimately show ?thesis using P inv by (cases "status_text st") (auto simp: ui_inv_iff)
qed

lemma menu_state_consistent:
  "menu_state a = menu_state b \<Longrightarrow> menu_consistent a = menu_consistent b"
  by (simp add: menu_state_def menu_consistent_def)

lemma menu_state_fire_timers:
  "menu_state (fire_timers g target ts st) = menu_state st"
  by (induction ts arbitrary: st) (simp_all add: menu_state_def set_status_def split: option.splits)

lemma menu_state_handlers:
  "menu_state (state_of (do_convert g conv st)) = menu_state st"
  "menu_state (state_of (on_input_keydown g conv c m k st)) = menu_state st"
  "menu_state (state_of (on_clear g st)) = menu_state st"
  "menu_state (state_of (on_copy_settle g i ok st)) = menu_state st"
  "menu_state (on_copy_click st) = menu_state st"
  by (simp_all add: do_convert_def on_input_keydown_def on_clear_def on_copy_settle_def copy_catch_def
      on_copy_click_def set_status_def clear_timeout_def
      set_timeout_def Let_def menu_state_def split: option.splits outcome.splits)

lemma menu_state_wait: "menu_state (wait g d st) = menu_state st"
  by (simp only: wait_def menu_state_fire_timers)

lemmas menu_handlers [simp] =
  menu_state_handlers [THEN menu_state_consistent] menu_state_wait [THEN menu_state_consistent]

lemma menu_close_open [simp]:
  "menu_consistent (close_menu st)" "menu_consistent (open_menu st)"
  by (simp_all add: menu_consistent_def close_menu_def open_menu_def)

lemma menu_edit [simp]: "menu_consistent (st\<lparr>input_value := s\<rparr>) = menu_consistent st"
  by (simp add: menu_consistent_def)

lemma menu_step: "menu_consistent st \<Longrightarrow> menu_consistent (ui_step st e)"
  by (cases e) (simp_all add: doc_keydown_def)

lemma do_convert_output:
  "output_text (state_of (do_convert g conv st)) = conv (input_value st)"
  by (simp add: do_convert_def set_status_def clear_timeout_def set_timeout_def Let_def
      split: option.splits)

lemma keydown_output:
  "output_text (state_of (on_input_keydown g conv c m k st)) =
     (if (c \<or> m) \<and> k = ''Enter'' then conv (input_value st) else output_text st)"
  by (simp add: on_input_keydown_def do_convert_output)

lemma panel_open_keydown:
  "panel_open (state_of (on_input_keydown g conv c m k st)) = panel_open st"
  using menu_state_handlers(2) [of g conv c m k st] by (simp add: menu_state_def)

lemma copy_settle_ok:
  assumes "i < length (pending_copies st)" and "status_text st \<noteq> None"
  shows "status_text (state_of (on_copy_settle True i True st)) = Some ''COPIED'' \<and>
    clock (state_of (on_copy_settle True i True st)) = clock st \<and>
    {t \<in> set (timers st). copy_timer st \<noteq> Some (fst t)} \<subseteq> set (timers (state_of (on_copy_settle True i True st)))"
  using assms
  by (auto simp: on_copy_settle_def set_status_def clear_timeout_def set_timeout_def Let_def
      set_insort_key split: option.splits)

lemma wait_fires_pending:
  assumes inv: "ui_inv st" and t: "t \<in> set (timers st)" and st: "status_text st \<noteq> None"
  shows "status_text (wait True (snd t - clock st) st) = Some ''READY''"
proof -
  have srt: "sorted (map timer_key (timers st))" and bnd: "\<forall>u \<in> set (timers st). clock st \<le> snd u"
    using inv by (simp_all add: ui_inv_iff)
  have target: "clock st + (snd t - clock st) = snd t" using bnd t by auto
  have hd: "snd (hd (timers st)) \<le> snd t"
    using t sorted_timer_key_hd [of "hd (timers st)" "tl (timers st)" t] srt
    by (cases "timers st") auto
  show ?thesis
    using fire_timers_props [OF srt bnd, of "snd t"] bnd t st hd
    by (auto simp: wait_def target)
qed

subsection \<open>Claims on the page\<close>

text \<open>
  Claim C30: on every page reachable from the load by user and browser events, the timer
  queue is ordered by due time, every pending callback is due within 1200 ms, and a status
  other than READY always has a pending callback that will reset it.
\<close>

theorem ui_timer_invariant: "reachable_ui st \<Longrightarrow> ui_inv st"
  by (rule ui_inv_reachable)

theorem ui_timer_invariant_witness: "ui_inv (page_load blank_page)"
  using ui_timer_invariant [OF reachable_ui.load [of blank_page]] by (simp add: blank_page_def)

text \<open>
  Claim C31: whatever the user did, waiting 1200 ms without further events runs every
  pending callback and leaves the status at READY (or leaves a page without status alone).
\<close>

theorem status_returns_to_ready:
  assumes "reachable_ui st"
  shows "timers (ui_step st (Wait 1200)) = [] \<and>
    status_text (ui_step st (Wait 1200)) \<in> {None, Some ''READY''}"
  using wait_settles [OF ui_inv_reachable [OF assms]] by simp

theorem status_returns_to_ready_witness:
  "timers (ui_step (page_load blank_page) (Wait 1200)) = [] \<and>
   status_text (ui_step (page_load blank_page) (Wait 1200)) \<in> {None, Some ''READY''}"
  using status_returns_to_ready [OF reachable_ui.load [of blank_page]] by (simp add: blank_page_def)

text \<open>
  Claim C32: the copy handler cancels only its own pending reset (\<open>$("copy")._t\<close>). On
  a successful copy it shows COPIED, but every other pending callback, such as the READY
  reset of an earlier conversion (\<open>doConvert._t\<close>) or of a failed copy, still fires at its
  own due time and sets READY, however soon after the copy that is: COPIED is not shown for
  the 900 ms the handler schedules.
\<close>

theorem copy_keeps_other_resets:
  assumes "ui_inv st" and "i < length (pending_copies st)" and "status_text st \<noteq> None"
    and "t \<in> set (timers st)" and "copy_timer st \<noteq> Some (fst t)"
  shows "status_text (ui_step st (CopySettled i True)) = Some ''COPIED'' \<and>
    status_text (ui_step (ui_step st (CopySettled i True)) (Wait (snd t - clock st))) = Some ''READY''"
proof -
  let ?st = "state_of (on_copy_settle True i True st)"
  have ok: "status_text ?st = Some ''COPIED''" "clock ?st = clock st" "t \<in> set (timers ?st)"
    using copy_settle_ok [OF assms(2,3)] assms(4,5) by auto
  have "ui_inv ?st" using assms(1) by (rule on_copy_settle_inv)
  from wait_fires_pending [OF this ok(3)] ok show ?thesis by simp
qed

theorem copy_keeps_other_resets_witness:
  "status_text (ui_step (ui_run (page_load blank_page) [Wait 1000, ClickConvert, Wait 500, ClickCopy])
     (CopySettled 0 True)) = Some ''COPIED'' \<and>
   status_text (ui_step (ui_step (ui_run (page_load blank_page) [Wait 1000, ClickConvert, Wait 500, ClickCopy])
     (CopySettled 0 True)) (Wait 400)) = Some ''READY''"
proof -
  let ?st = "ui_run (page_load blank_page) [Wait 1000, ClickConvert, Wait 500, ClickCopy]"
  have h1: "ui_inv ?st" and h2: "0 < length (pending_copies ?st)" and h3: "status_text ?st \<noteq> None"
    and h4: "(2, 1900) \<in> set (timers ?st)" and h5: "copy_timer ?st \<noteq> Some (fst (2::nat, 1900::nat))"
    and clk: "clock ?st = 1500"
    by code_simp+
  from copy_keeps_other_resets [OF h1 h2 h3 h4 h5] clk show ?thesis by simp
qed

text \<open>
  Claim C33: the five attributes of the hamburger menu stay consistent with each other
  (the panel is open exactly when the overlay is shown, \<open>aria-expanded\<close> is true,
  \<open>aria-hidden\<close> is false and the page does not scroll) along any sequence of events.
\<close>

theorem menu_consistent_run:
  "menu_consistent st \<Longrightarrow> menu_consistent (ui_run st es)"
  by (induction es arbitrary: st) (simp_all add: menu_step)

theorem menu_consistent_run_witness:
  "menu_consistent (ui_run blank_page [ClickMenuBtn, ClickConvert, KeyDownPage ''Escape'', ClickOverlay])"
proof -
  have "menu_consistent blank_page" by (simp add: menu_consistent_def blank_page_def)
  from menu_consistent_run [OF this] show ?thesis .
qed

text \<open>
  Claim C34: in app.js, whose \<open>setStatus\<close> does not check for \<open>#status\<close>, a page
  without the status element throws in the convert handler after writing the output and
  before scheduling its timer, and in the clear handler after clearing both boxes and
  before focusing the text box.
\<close>

theorem legacy_missing_status_throws:
  "status_text st = None \<Longrightarrow>
   ui_step_legacy st ClickConvert = Threw (st\<lparr>output_text := convert_text_legacy (input_value st)\<rparr>) \<and>
   ui_step_legacy st ClickClear = Threw (st\<lparr>input_value := [], output_text := []\<rparr>)"
  by (simp add: do_convert_def on_clear_def set_status_def)

theorem legacy_missing_status_throws_witness:
  "ui_step_legacy (blank_page\<lparr>status_text := None, input_value := ''snake''\<rparr>) ClickConvert =
     Threw (blank_page\<lparr>status_text := None, input_value := ''snake'', output_text := ''SNOKE''\<rparr>)"
proof -
  have "convert_text_legacy ''snake'' = ''SNOKE''" by code_simp
  then show ?thesis
    using legacy_missing_status_throws [of "blank_page\<lparr>status_text := None, input_value := ''snake''\<rparr>"]
    by simp
qed

text \<open>
  Claim C35: a key pressed in the text box converts exactly on Ctrl+Enter or Cmd+Enter,
  and, bubbling to the document, closes the menu exactly on Escape.
\<close>

theorem input_keydown_behaviour:
  "output_text (ui_step st (KeyDownInput c m k)) =
     (if (c \<or> m) \<and> k = ''Enter'' then convert_text (input_value st) else output_text st) \<and>
   panel_open (ui_step st (KeyDownInput c m k)) = (panel_open st \<and> k \<noteq> ''Escape'')"
  by (simp add: doc_keydown_def close_menu_def keydown_output panel_open_keydown)

end
