(* ===== verification/Endings.thy ===== *)
theory Endings
  imports Suffix
begin

text \<open>
  How the ending rules of the suffix stage (\<open>src/unnamed/part_000\<close>, lines 160--218, run
  in the order of lines 372--378) interact. Each of TY\<open>\<rightarrow>\<close>TEH, LY/LEY\<open>\<rightarrow>\<close>LEH,
  \<open>applyEndingAH\<close>, AY\<open>\<rightarrow>\<close>AEH and Y\<open>\<rightarrow>\<close>EH either leaves the segments alone or leaves
  them ending in a synthesized H, grows them by at most one segment, and does nothing to
  segments that already end in H, since none of their patterns ends in H. So at most one of
  them fires, the suffix stage grows a word-part by at most one letter, and when the last
  rule runs the text can no longer end in LY, LEY or TY: the guard at the top of
  \<open>replaceEndingYToEH\<close> (lines 210--212) never decides anything.
\<close>

definition ends_H :: "segs \<Rightarrow> bool" where
  "ends_H segs \<longleftrightarrow> segs \<noteq> [] \<and> to_upper_char (ch (last segs)) = CHR ''H''"

text \<open>
  \<open>replaceEndingYToEH\<close> without its guard (a reference definition): a final Y becomes
  EH.
\<close>

definition replace_final_Y :: "segs \<Rightarrow> segs" where
  "replace_final_Y segs =
     (if ends_with (to_upper (seg_to_string segs)) ''Y'' \<and> 1 \<le> length segs
      then splice_segs segs (length segs - 1) (length segs) (seg_from_string ''EH'' False)
      else segs)"

named_theorems ending_stage "facts about one ending rule: growth, mark, stop, fire"

subsection \<open>Generic facts about a splice at the end\<close>

lemma to_upper_char_H [simp]: "to_upper_char CHR ''H'' = CHR ''H''"
  by code_simp

lemma ends_with_last:
  assumes "ends_with (to_upper (seg_to_string segs)) suf" and "suf \<noteq> []"
  shows "segs \<noteq> [] \<and> to_upper_char (ch (last segs)) = last suf"
proof -
  obtain zs where zs: "map (to_upper_char \<circ> ch) segs = zs @ suf"
    using assms(1) by (auto simp: ends_with_iff_suffix suffix_def to_upper_def seg_to_string_def)
  then have "segs \<noteq> []" using assms(2) by auto
  moreover have "last (map (to_upper_char \<circ> ch) segs) = last suf" using zs assms(2) by simp
  ultimately show ?thesis by (simp add: last_map)
qed

lemma ends_H_ends_with:
  "ends_H segs \<Longrightarrow> ends_with (to_upper (seg_to_string segs)) suf \<Longrightarrow> suf \<noteq> [] \<Longrightarrow>
   last suf = CHR ''H''"
  using ends_with_last by (fastforce simp: ends_H_def)

lemma ends_with_length:
  "ends_with (to_upper (seg_to_string segs)) suf \<Longrightarrow> length suf \<le> length segs"
  by (simp add: ends_with_def)

lemma ends_H_tail_splice:
  "n \<le> length segs \<Longrightarrow> rep \<noteq> [] \<Longrightarrow> last rep = CHR ''H'' \<Longrightarrow>
   ends_H (splice_segs segs (length segs - n) (length segs) (seg_from_string rep False))"
  by (simp add: splice_segs_tail ends_H_def seg_from_string_def last_map)

lemma length_tail_splice:
  "n \<le> length segs \<Longrightarrow>
   length (splice_segs segs (length segs - n) (length segs) ins) = length segs - n + length ins"
  by (simp add: splice_segs_tail)

subsection \<open>The shared shape \<open>replace_ending\<close>\<close>

lemma replace_ending_length:
  "length suf \<le> length rep \<Longrightarrow> length rep \<le> Suc (length suf) \<Longrightarrow>
   length segs \<le> length (replace_ending suf rep segs) \<and>
   length (replace_ending suf rep segs) \<le> Suc (length segs)"
  by (auto simp: replace_ending_def Let_def length_tail_splice)

lemma replace_ending_same_length:
  "length rep = length suf \<Longrightarrow> length (replace_ending suf rep segs) = length segs"
  by (auto simp: replace_ending_def Let_def length_tail_splice)

lemma replace_ending_fire:
  "ends_with (to_upper (seg_to_string segs)) suf \<Longrightarrow> rep \<noteq> [] \<Longrightarrow> last rep = CHR ''H'' \<Longrightarrow>
   ends_H (replace_ending suf rep segs)"
  by (simp add: replace_ending_def Let_def ends_with_length ends_H_tail_splice)

lemma replace_ending_mark:
  "rep \<noteq> [] \<Longrightarrow> last rep = CHR ''H'' \<Longrightarrow>
   replace_ending suf rep segs = segs \<or> ends_H (replace_ending suf rep segs)"
  by (simp add: replace_ending_def Let_def ends_H_tail_splice)

lemma replace_ending_stop:
  "suf \<noteq> [] \<Longrightarrow> last suf \<noteq> CHR ''H'' \<Longrightarrow> ends_H segs \<Longrightarrow> replace_ending suf rep segs = segs"
  using ends_H_ends_with by (auto simp: replace_ending_def Let_def)

subsection \<open>The five ending rules\<close>

lemma TY_stage [ending_stage]:
  "length segs \<le> length (replace_ending_TY segs) \<and> length (replace_ending_TY segs) \<le> Suc (length segs)"
  "replace_ending_TY segs = segs \<or> ends_H (replace_ending_TY segs)"
  "ends_H segs \<Longrightarrow> replace_ending_TY segs = segs"
  by (simp_all add: replace_ending_TY_def replace_ending_length replace_ending_mark replace_ending_stop)

lemma TY_fire:
  "ends_with (to_upper (seg_to_string segs)) ''TY'' \<Longrightarrow> ends_H (replace_ending_TY segs)"
  by (simp add: replace_ending_TY_def replace_ending_fire)

lemma AY_stage [ending_stage]:
  "length segs \<le> length (replace_ending_AY segs) \<and> length (replace_ending_AY segs) \<le> Suc (length segs)"
  "replace_ending_AY segs = segs \<or> ends_H (replace_ending_AY segs)"
  "ends_H segs \<Longrightarrow> replace_ending_AY segs = segs"
  by (simp_all add: replace_ending_AY_def replace_ending_length replace_ending_mark replace_ending_stop)

lemma LY_stage [ending_stage]:
  "length segs \<le> length (replace_ending_LY segs) \<and> length (replace_ending_LY segs) \<le> Suc (length segs)"
  "replace_ending_LY segs = segs \<or> ends_H (replace_ending_LY segs)"
  "ends_H segs \<Longrightarrow> replace_ending_LY segs = segs"
  using ends_H_ends_with [of segs "''LY''"] ends_H_ends_with [of segs "''LEY''"]
  by (auto simp: replace_ending_LY_def Let_def length_tail_splice ends_H_tail_splice)

lemma LY_fire:
  "ends_with (to_upper (seg_to_string segs)) ''LY'' \<or> ends_with (to_upper (seg_to_string segs)) ''LEY'' \<Longrightarrow>
   ends_H (replace_ending_LY segs)"
  using ends_with_length [of segs "''LY''"] ends_with_length [of segs "''LEY''"]
  by (auto simp: replace_ending_LY_def Let_def ends_H_tail_splice)

lemma AH_stage [ending_stage]:
  "length segs \<le> length (fst (apply_ending_AH segs)) \<and>
   length (fst (apply_ending_AH segs)) \<le> Suc (length segs)"
  "fst (apply_ending_AH segs) = segs \<or> ends_H (fst (apply_ending_AH segs))"
  "ends_H segs \<Longrightarrow> fst (apply_ending_AH segs) = segs"
  using ends_with_length [of segs "''ER''"] ends_with_length [of segs "''UR''"]
    ends_with_length [of segs "''A''"]
    ends_H_ends_with [of segs "''ER''"] ends_H_ends_with [of segs "''UR''"]
    ends_H_ends_with [of segs "''A''"]
  by (auto simp: apply_ending_AH_def Let_def length_tail_splice ends_H_tail_splice)

lemma Y_stage [ending_stage]:
  "length segs \<le> length (replace_ending_Y_to_EH segs) \<and>
   length (replace_ending_Y_to_EH segs) \<le> Suc (length segs)"
  "replace_ending_Y_to_EH segs = segs \<or> ends_H (replace_ending_Y_to_EH segs)"
  "ends_H segs \<Longrightarrow> replace_ending_Y_to_EH segs = segs"
  using ends_H_ends_with [of segs "''Y''"]
  by (auto simp: replace_ending_Y_to_EH_def Let_def length_tail_splice ends_H_tail_splice)

lemma replace_final_Y_stop: "ends_H segs \<Longrightarrow> replace_final_Y segs = segs"
  using ends_H_ends_with [of segs "''Y''"] by (auto simp: replace_final_Y_def)

subsection \<open>A run of ending rules\<close>

text \<open>
  A list of rules, each growing by at most one, marking what it changes with a final H and
  stopping at a final H, grows by at most one as a whole: once one fires, the others stop.
\<close>

lemma ending_chain:
  assumes grow: "\<And>f s. f \<in> set fs \<Longrightarrow> length s \<le> length (f s) \<and> length (f s) \<le> Suc (length s)"
    and mark: "\<And>f s. f \<in> set fs \<Longrightarrow> f s = s \<or> ends_H (f s)"
    and stop: "\<And>f s. f \<in> set fs \<Longrightarrow> ends_H s \<Longrightarrow> f s = s"
  shows "length s \<le> length (fold (\<lambda>f. f) fs s) \<and> length (fold (\<lambda>f. f) fs s) \<le> Suc (length s) \<and>
         (ends_H s \<longrightarrow> fold (\<lambda>f. f) fs s = s)"
  using assms
proof (induction fs arbitrary: s)
  case (Cons f fs)
  have rest: "ends_H t \<Longrightarrow> fold (\<lambda>f. f) fs t = t" for t
    using Cons.IH [of t] Cons.prems by auto
  show ?case
  proof (cases "f s = s")
    case True
    then show ?thesis using Cons.IH [of s] Cons.prems by auto
  next
    case False
    then have "ends_H (f s)" using Cons.prems(2) [of f s] by simp
    then show ?thesis using rest [of "f s"] Cons.prems(1) [of f s] Cons.prems(3) [of f s] by auto
  qed
qed simp

lemma length_replace_pairs [simp]: "length (replace_pairs a b c d segs) = length segs"
  by (induction a b c d segs rule: replace_pairs.induct) (simp_all add: seg_from_string_def)

lemma suffix_transforms_fold:
  "fst (suffix_transforms segs) =
     fold (\<lambda>f. f) [replace_ending_TY, replace_ending_LY, \<lambda>s. fst (apply_ending_AH s),
                   replace_ending_AY, replace_ending_Y_to_EH]
       (replace_ending_TION (replace_all_IR_with_AR (replace_all_ER_with_AH segs)))"
  by (simp add: suffix_transforms_def suffix_rules_before_AH_def Let_def split_def)

lemma length_suffix_transforms:
  "length segs \<le> length (fst (suffix_transforms segs)) \<and>
   length (fst (suffix_transforms segs)) \<le> Suc (length segs)"
proof -
  let ?t0 = "replace_ending_TION (replace_all_IR_with_AR (replace_all_ER_with_AH segs))"
  let ?fs = "[replace_ending_TY, replace_ending_LY, \<lambda>s. fst (apply_ending_AH s),
              replace_ending_AY, replace_ending_Y_to_EH]"
  have t0: "length ?t0 = length segs"
    by (simp add: replace_ending_TION_def replace_ending_same_length replace_all_ER_with_AH_pairs
        replace_all_IR_with_AR_pairs)
  have "length ?t0 \<le> length (fold (\<lambda>f. f) ?fs ?t0) \<and>
        length (fold (\<lambda>f. f) ?fs ?t0) \<le> Suc (length ?t0) \<and>
        (ends_H ?t0 \<longrightarrow> fold (\<lambda>f. f) ?fs ?t0 = ?t0)"
    by (rule ending_chain) (auto simp: ending_stage, (metis ending_stage)+)
  with t0 show ?thesis by (simp only: suffix_transforms_fold)
qed

subsection \<open>Claims of the ending rules\<close>

text \<open>
  Claim C25: the guard of \<open>replaceEndingYToEH\<close> that skips LY, LEY and TY endings is
  dead code: at the point where \<open>transformWordPart\<close> calls it, the rule behaves exactly
  like the unguarded rule ``a final Y becomes EH''.
\<close>

theorem Y_to_EH_guard_redundant:
  "replace_ending_Y_to_EH (replace_ending_AY (fst (apply_ending_AH (suffix_rules_before_AH segs)))) =
   replace_final_Y (replace_ending_AY (fst (apply_ending_AH (suffix_rules_before_AH segs))))"
proof -
  let ?t0 = "replace_ending_TION (replace_all_IR_with_AR (replace_all_ER_with_AH segs))"
  let ?t1 = "replace_ending_TY ?t0"
  let ?t2 = "replace_ending_LY ?t1"
  let ?t3 = "fst (apply_ending_AH ?t2)"
  let ?u = "replace_ending_AY ?t3"
  have before: "suffix_rules_before_AH segs = ?t2" by (simp add: suffix_rules_before_AH_def Let_def)
  show ?thesis
  proof (cases "ends_H ?u")
    case True
    then show ?thesis by (simp add: before Y_stage(3) replace_final_Y_stop)
  next
    case False
    then have n3: "\<not> ends_H ?t3" using AY_stage(3) [of ?t3] by auto
    then have n2: "\<not> ends_H ?t2" using AH_stage(3) [of ?t2] by auto
    then have n1: "\<not> ends_H ?t1" using LY_stage(3) [of ?t1] by auto
    have u: "?u = ?t0"
      using False n3 n2 n1 AY_stage(2) [of ?t3] AH_stage(2) [of ?t2] LY_stage(2) [of ?t1]
        TY_stage(2) [of ?t0] by auto
    have "\<not> ends_with (to_upper (seg_to_string ?t0)) ''TY''"
      using n1 u TY_fire [of ?t0] TY_stage(2) [of ?t0] by auto
    moreover have "\<not> ends_with (to_upper (seg_to_string ?t0)) ''LY'' \<and>
                   \<not> ends_with (to_upper (seg_to_string ?t0)) ''LEY''"
      using n2 n1 LY_fire [of ?t1] TY_stage(2) [of ?t0] by auto
    ultimately show ?thesis
      by (simp add: before u replace_ending_Y_to_EH_def replace_final_Y_def Let_def)
  qed
qed

end
