(* ===== verification/Bounds.thy ===== *)
theory Bounds
  imports Pipeline Endings
begin

text \<open>
  How long can a word-part get? The rule stages of \<open>transformWordPart\<close>
  (\<open>src/unnamed/part_000\<close>, lines 366--390) only insert: the suffix stage adds at most one
  letter (\<open>Endings\<close>), the prefix stage adds at most one (SN\<open>\<rightarrow>\<close>SAN or SW\<open>\<rightarrow>\<close>SAW,
  lines 234--256; RE\<open>\<rightarrow>\<close>ro keeps the length), and cluster insertion adds at most one
  (lines 277--303), but never after a prefix insertion, because both inserted prefixes put
  an A second, which is neither a consonant nor R or L. The vowel swap keeps the length.
  So a word-part of \<open>n\<close> letters becomes a word of \<open>n\<close> to \<open>n + 2\<close> letters, and
  \<open>n + 2\<close> is reached (TRY becomes TAREH).
\<close>

lemma to_upper_char_A [simp]: "to_upper_char CHR ''A'' = CHR ''A''"
  by code_simp

lemma to_lower_char_S [simp]: "to_lower_char CHR ''S'' = CHR ''s''"
  by code_simp

subsection \<open>The prefix stage\<close>

lemma replace_starting_cases:
  "replace_starting a b rep segs = segs \<or>
   (2 \<le> length segs \<and> replace_starting a b rep segs = seg_from_string rep False @ drop 2 segs)"
  by (auto simp: replace_starting_def splice_segs_def eval_nat_numeral)

lemma length_apply_prefix_RE_to_RO [simp]:
  "length (apply_prefix_RE_to_RO segs) = length segs"
  by (auto simp: apply_prefix_RE_to_RO_def Let_def splice_segs_def seg_from_string_def)

lemma SW_after_SA:
  "replace_starting_SW_with_SAW (seg_from_string (CHR ''S'' # CHR ''A'' # cs) False @ rest) =
   seg_from_string (CHR ''S'' # CHR ''A'' # cs) False @ rest"
  by (simp add: replace_starting_SW_with_SAW_def replace_starting_def seg_from_string_def)

lemma RE_after_S:
  "apply_prefix_RE_to_RO (seg_from_string (CHR ''S'' # cs) False @ rest) =
   seg_from_string (CHR ''S'' # cs) False @ rest"
  by (simp add: apply_prefix_RE_to_RO_def Let_def starts_with_def seg_from_string_def)

lemma prefix_transforms_cases:
  "prefix_transforms segs = apply_prefix_RE_to_RO segs \<or>
   (2 \<le> length segs \<and>
    (prefix_transforms segs = seg_from_string ''SAN'' False @ drop 2 segs \<or>
     prefix_transforms segs = seg_from_string ''SAW'' False @ drop 2 segs))"
proof -
  let ?sn = "replace_starting_SN_with_SAN segs"
  consider (none) "?sn = segs" | (sn) "2 \<le> length segs" "?sn = seg_from_string ''SAN'' False @ drop 2 segs"
    using replace_starting_cases [of "CHR ''S''" "CHR ''N''" "''SAN''" segs]
    by (auto simp: replace_starting_SN_with_SAN_def)
  then show ?thesis
  proof cases
    case none
    consider (none2) "replace_starting_SW_with_SAW segs = segs"
      | (sw) "2 \<le> length segs"
        "replace_starting_SW_with_SAW segs = seg_from_string ''SAW'' False @ drop 2 segs"
      using replace_starting_cases [of "CHR ''S''" "CHR ''W''" "''SAW''" segs]
      by (auto simp: replace_starting_SW_with_SAW_def)
    then show ?thesis
    proof cases
      case none2
      then show ?thesis using none by (simp add: prefix_transforms_def)
    next
      case sw
      then show ?thesis using none RE_after_S [of "''AW''" "drop 2 segs"]
        by (simp add: prefix_transforms_def)
    qed
  next
    case sn
    then show ?thesis using SW_after_SA [of "''N''" "drop 2 segs"] RE_after_S [of "''AN''" "drop 2 segs"]
      by (simp add: prefix_transforms_def)
  qed
qed

subsection \<open>Cluster insertion\<close>

lemma length_apply_cluster_insertions:
  "length segs \<le> length (apply_cluster_insertions segs) \<and>
   length (apply_cluster_insertions segs) \<le> Suc (length segs)"
  by (auto simp: apply_cluster_insertions_def splice_segs_def)

lemma cluster_after_A:
  "2 \<le> length segs \<Longrightarrow> ch (segs ! 1) = CHR ''A'' \<Longrightarrow> apply_cluster_insertions segs = segs"
  by (simp add: apply_cluster_insertions_def is_consonant_letter_def VOWELS_def)

lemma prefix_cluster_growth:
  "length segs \<le> length (apply_cluster_insertions (prefix_transforms segs)) \<and>
   length (apply_cluster_insertions (prefix_transforms segs)) \<le> Suc (length segs)"
proof -
  let ?p = "prefix_transforms segs"
  from prefix_transforms_cases [of segs] show ?thesis
  proof (elim disjE conjE)
    assume "?p = apply_prefix_RE_to_RO segs"
    then show ?thesis using length_apply_cluster_insertions [of ?p] by simp
  next
    assume "2 \<le> length segs" and p: "?p = seg_from_string ''SAN'' False @ drop 2 segs"
    then show ?thesis using cluster_after_A [of ?p] by (auto simp: seg_from_string_def nth_append)
  next
    assume "2 \<le> length segs" and p: "?p = seg_from_string ''SAW'' False @ drop 2 segs"
    then show ?thesis using cluster_after_A [of ?p] by (auto simp: seg_from_string_def nth_append)
  qed
qed

subsection \<open>Exception outputs\<close>

lemma regex_whole_match_length:
  "regex_whole_match alts w \<Longrightarrow> \<exists>a \<in> set alts. length w = length a"
proof -
  assume "regex_whole_match alts w"
  then obtain a where "a \<in> set alts" and "to_lower w = to_lower a" by (auto simp: regex_whole_match_def)
  then have "length w = length a" by (metis length_to_lower)
  with \<open>a \<in> set alts\<close> show ?thesis by blast
qed

lemma apply_exceptions_length:
  "apply_exceptions w = Some out \<Longrightarrow> length out \<le> Suc (length w)"
  unfolding apply_exceptions_def apply_exception_entries_def EXCEPTIONS_rules
  by (drule apply_exception_rules_SomeD)
     (auto simp: exc_output_def dest!: regex_whole_match_length)

lemma length_word_part_rules:
  "length part \<le> length (word_part_rules part) \<and> length (word_part_rules part) \<le> length part + 2"
  using length_suffix_transforms [of "seg_from_string part True"]
    prefix_cluster_growth [of "fst (suffix_transforms (seg_from_string part True))"]
  by (simp add: word_part_rules_code)

subsection \<open>Claims on lengths\<close>

text \<open>
  Claim C26: the rule stages of \<open>transformWordPart\<close> never shorten a word-part and
  lengthen it by at most two letters.
\<close>

theorem word_part_rules_length:
  "length part \<le> length (word_part_rules part) \<and> length (word_part_rules part) \<le> length part + 2"
  by (rule length_word_part_rules)

text \<open>
  Claim C27: \<open>transformWordPart\<close> makes no word-part more than two letters longer, on
  the exception path (at most one letter longer: PLEASE becomes PALEASE) as on the rule path.
\<close>

theorem transform_word_part_length:
  "length (transform_word_part part) \<le> length part + 2"
proof (cases "apply_exceptions part")
  case None
  then show ?thesis using length_word_part_rules [of part] by (simp add: transform_word_part_def)
next
  case (Some out)
  then show ?thesis using apply_exceptions_length [of part out] by (simp add: transform_word_part_def)
qed

lemma word_part_rules_length_reached: "length (word_part_rules ''try'') = length ''try'' + 2"
  by code_simp

end
