(* ===== verification/Rulebook.thy ===== *)
theory Rulebook
  imports Converter
begin

text \<open>
  The Naamrot rulebook kept with the code (\<open>src/unnamed/part_000\<close>, lines 502--591) is a
  specification written in Markdown: a table of fixed words, a list of sound rules each with
  examples, and the principles of the vowel swap. This theory writes its tables down as data,
  \<open>RULEBOOK_EXCEPTIONS\<close>, \<open>RULEBOOK_EXAMPLES\<close> (tagged with the rule, \<open>rb_rule\<close>, under which
  the rulebook lists them) and \<open>RULEBOOK_CLUSTER_STARTS\<close>, and its vowel principles as reference
  definitions (\<open>rulebook_protect\<close>, \<open>rulebook_in_vowel_pair\<close>), and compares them with the
  code: the exception table of the code is the rulebook's, every listed cluster start is
  expanded, and the tail-vowel protection agrees with the rulebook's exactly when the ending
  was not changed to AH or the word does not have four original vowels.
\<close>

subsection \<open>The rulebook as data\<close>

text \<open>Lines 511--525: the fixed words, as the alternatives a line lists and their output.\<close>

definition RULEBOOK_EXCEPTIONS :: "(string list \<times> string) list" where
  "RULEBOOK_EXCEPTIONS =
     [([''VERY''], ''WELL''), ([''WELL''], ''WELL''), ([''YOU'', ''YOUR''], ''YA''),
      ([''THE''], ''THA''), ([''FOR''], ''FA''), ([''PLEASE''], ''PALEASE''),
      ([''DEADLINE''], ''DODLINE''), ([''MISTAKES''], ''MOSTAKES''), ([''AMINUR''], ''AMINAH''),
      ([''DATE''], ''DATE''), ([''NAME''], ''NAME''), ([''SET''], ''SOT'')]"

text \<open>The rules of lines 527--584 under which the rulebook lists its examples.\<close>

datatype rb_rule =
    SN_SAN | SW_SAW | RE_RO | Cluster_CCR | Cluster_Start | IR_AR | ER_AH
  | End_A | End_ER_UR | End_TION | End_TY | End_LY_LEY | End_AY | End_Y

definition RULEBOOK_EXAMPLES :: "(rb_rule \<times> string \<times> string) list" where
  "RULEBOOK_EXAMPLES =
     [(SN_SAN, ''SNAKE'', ''SANAKE''), (SN_SAN, ''SNAGGED'', ''SANAGGED''),
      (SN_SAN, ''SNEAK'', ''SANEAK''),
      (SW_SAW, ''SWIFT'', ''SAWIFT''), (SW_SAW, ''SWIRL'', ''SAWARL''),
      (RE_RO, ''RE-ENTER'', ''RE-ONTAH''), (RE_RO, ''REASON'', ''REASON''),
      (Cluster_CCR, ''CHROME'', ''CHAROME''), (Cluster_CCR, ''SHRINK'', ''SHARINK''),
      (Cluster_Start, ''BROWN'', ''BAROWN''), (Cluster_Start, ''CLEAN'', ''CALEAN''),
      (IR_AR, ''SKIRT'', ''SKART''), (IR_AR, ''THIRSTY'', ''THARSTEH''),
      (ER_AH, ''ENTER'', ''ENTAH''), (ER_AH, ''INTERNET'', ''ONTAHNET''),
      (End_A, ''UTOPIA'', ''UTOPIAH''),
      (End_ER_UR, ''LECTURER'', ''LOCTURAH''),
      (End_TION, ''INFORMATION'', ''INFORMASHAN''),
      (End_TY, ''ABILITY'', ''ABILITEH''),
      (End_LY_LEY, ''QUICKLY'', ''QUICKLEH''), (End_LY_LEY, ''BURNLEY'', ''BURNLEH''),
      (End_AY, ''DAY'', ''DAEH''), (End_AY, ''TODAY'', ''TODAEH''),
      (End_Y, ''HAPPY'', ''HOPPEH''), (End_Y, ''ACADEMY'', ''OCODEMEH'')]"

text \<open>Line 548: the starts after which the rulebook inserts an A.\<close>

definition RULEBOOK_CLUSTER_STARTS :: "string list" where
  "RULEBOOK_CLUSTER_STARTS =
     [''BR'', ''CR'', ''DR'', ''FR'', ''GR'', ''PR'', ''TR'', ''BL'', ''CL'', ''FL'', ''GL'', ''PL'', ''SL'']"

text \<open>
  Lines 589--590, over the indices of the original vowels: a word not ending in AH keeps
  its last vowel, a word of exactly four vowels keeps its last two.
\<close>

definition rulebook_protect :: "nat list \<Rightarrow> bool \<Rightarrow> nat list" where
  "rulebook_protect idx ends_AH =
     (if \<not> ends_AH \<and> idx \<noteq> [] then [last idx] else []) @ (if length idx = 4 then drop 2 idx else [])"

text \<open>Line 591: a vowel next to another vowel, on either side, belongs to a pair.\<close>

definition rulebook_in_vowel_pair :: "segs \<Rightarrow> nat \<Rightarrow> bool" where
  "rulebook_in_vowel_pair segs i \<longleftrightarrow>
     (i + 1 < length segs \<and> to_upper_char (ch (segs ! (i + 1))) \<in> set VOWELS) \<or>
     (0 < i \<and> i < length segs \<and> to_upper_char (ch (segs ! (i - 1))) \<in> set VOWELS)"

text \<open>The code's exception table read as the rulebook writes it: alternatives upper-cased.\<close>

fun exception_entry :: "exc_rule \<Rightarrow> (string list \<times> string) list" where
  "exception_entry (ExLiteral m (OutStr s)) = [([to_upper m], s)]"
| "exception_entry (ExRegex alts (OutStr s)) = [(map to_upper alts, s)]"
| "exception_entry _ = []"

subsection \<open>Helper lemmas\<close>

lemma consonant_of_upper:
  "to_upper_char c \<in> set ''BCDFGPST'' \<Longrightarrow> is_consonant_letter c"
  using is_letter_to_upper_char [of c]
  by (auto simp: is_consonant_letter_def is_letter_def VOWELS_def)

lemma consonant_R_L:
  "to_upper_char c = CHR ''R'' \<or> to_upper_char c = CHR ''L'' \<Longrightarrow> is_consonant_letter c"
  using is_letter_to_upper_char [of c]
  by (auto simp: is_consonant_letter_def is_letter_def VOWELS_def)

lemma rulebook_cluster_start_cases:
  "to_upper (take 2 w) \<in> set RULEBOOK_CLUSTER_STARTS \<Longrightarrow>
   \<exists>a b rest. w = a # b # rest \<and> to_upper_char a \<in> set ''BCDFGPST'' \<and>
     (to_upper_char b = CHR ''R'' \<or> to_upper_char b = CHR ''L'')"
  by (cases w rule: remdups_adj.cases) (auto simp: RULEBOOK_CLUSTER_STARTS_def)

lemma length_four: "length xs = 4 \<Longrightarrow> \<exists>a b c d. xs = [a, b, c, d]"
  by (auto simp: numeral_eq_Suc length_Suc_conv)

lemma protect_set_set:
  "set (protect_set idx e) =
     (if \<not> e \<and> idx \<noteq> [] then {last idx} \<union> (if length idx = 4 then {idx ! 2} else {}) else {})"
  by (auto simp: protect_set_def last_conv_nth numeral_eq_Suc Suc_le_eq)

lemma rulebook_protect_set:
  "set (rulebook_protect idx e) =
     (if \<not> e \<and> idx \<noteq> [] then {last idx} else {}) \<union> (if length idx = 4 then {idx ! 2, idx ! 3} else {})"
proof -
  have "length idx = 4 \<Longrightarrow> set (drop 2 idx) = {idx ! 2, idx ! 3}"
    by (auto dest!: length_four)
  then show ?thesis by (auto simp: rulebook_protect_def)
qed

lemma last_four: "length idx = 4 \<Longrightarrow> last idx = idx ! 3"
  by (auto dest!: length_four)

subsection \<open>Claims on the rulebook\<close>

text \<open>
  Comparison with the rulebook's tables: the exception table of the code is the rulebook's table of fixed words, entry
  by entry and in order, and every fixed word converts to its listed output; of the 25
  examples the rulebook gives for its sound rules, the code reproduces all but these seven.
\<close>

lemma rulebook_conformance:
  "concat (map exception_entry (map parse_entry EXCEPTIONS)) = RULEBOOK_EXCEPTIONS \<and>
   list_all (\<lambda>(ws, out). list_all (\<lambda>w. convert_text w = out) ws) RULEBOOK_EXCEPTIONS \<and>
   filter (\<lambda>(r, w, e). convert_text w \<noteq> e) RULEBOOK_EXAMPLES =
     [(SN_SAN, ''SNAKE'', ''SANAKE''), (SN_SAN, ''SNAGGED'', ''SANAGGED''),
      (RE_RO, ''RE-ENTER'', ''RE-ONTAH''), (RE_RO, ''REASON'', ''REASON''),
      (End_TION, ''INFORMATION'', ''INFORMASHAN''), (End_TY, ''ABILITY'', ''ABILITEH''),
      (End_Y, ''HAPPY'', ''HOPPEH'')]"
  by code_simp

text \<open>
  Claim C20: every cluster start the rulebook lists (BR, CR, ..., SL) gets its A: a word
  that starts with one of them, in any case, and has no R third, comes out of
  \<open>applyClusterInsertions\<close> with an A after its first letter.
\<close>

theorem cluster_rulebook_starts:
  assumes "to_upper (take 2 w) \<in> set RULEBOOK_CLUSTER_STARTS"
    and "length w < 3 \<or> to_upper_char (w ! 2) \<noteq> CHR ''R''"
  shows "seg_to_string (apply_cluster_insertions (seg_from_string w True)) = hd w # CHR ''A'' # tl w"
proof -
  obtain a b rest where w: "w = a # b # rest" and a: "to_upper_char a \<in> set ''BCDFGPST''"
    and b: "to_upper_char b = CHR ''R'' \<or> to_upper_char b = CHR ''L''"
    using rulebook_cluster_start_cases [OF assms(1)] by blast
  have "is_consonant_letter a" using a by (rule consonant_of_upper)
  moreover have "\<not> (3 \<le> length w \<and> to_upper_char (w ! 2) = CHR ''R'')" using assms(2) by auto
  ultimately show ?thesis using b consonant_R_L [OF b]
    by (cases rest) (simp_all add: w apply_cluster_insertions_def splice_segs_def seg_from_string_def seg_to_string_def
        comp_def)
qed

theorem cluster_rulebook_starts_witness:
  "seg_to_string (apply_cluster_insertions (seg_from_string ''Brown'' True)) = ''BArown''"
proof -
  have "to_upper (take 2 ''Brown'') \<in> set RULEBOOK_CLUSTER_STARTS"
    and "length ''Brown'' < 3 \<or> to_upper_char (''Brown'' ! 2) \<noteq> CHR ''R''"
    by code_simp+
  from cluster_rulebook_starts [OF this] show ?thesis by simp
qed

text \<open>
  Claim C21: the code's tail-vowel protection (\<open>protectSet\<close>) protects the same original
  vowels as the rulebook's two rules, taking ``ends in AH'' as the code's flag
  \<open>endingChangedToAH\<close>, except for a word of exactly four original vowels whose ending was
  changed to AH: the rulebook keeps its last two vowels, the code keeps none.
\<close>

theorem protect_set_vs_rulebook:
  "set (protect_set idx e) = set (rulebook_protect idx e) \<longleftrightarrow> \<not> (e \<and> length idx = 4)"
  by (cases "length idx = 4") (auto simp: protect_set_set rulebook_protect_set last_four)

subsection \<open>Where the code goes beyond the rulebook\<close>

text \<open>
  The code's cluster rule fires after any consonant (Y included) followed by R or L, not only
  after the starts of line 548 (WR, KL); the digraph guard protects only the first vowel of a
  pair, so the A of PLEASANT is swapped though line 591 keeps EA; and the flag
  \<open>endingChangedToAH\<close> is not ``ends in AH'': HANNAH keeps its last vowel.
\<close>

lemma cluster_beyond_rulebook:
  "''WR'' \<notin> set RULEBOOK_CLUSTER_STARTS \<and> convert_text ''wrong'' = ''WARONG'' \<and>
   ''KL'' \<notin> set RULEBOOK_CLUSTER_STARTS \<and> convert_text ''klaxon'' = ''KALOXON''"
  by code_simp

lemma vowel_pair_second_swapped:
  "rulebook_in_vowel_pair (apply_cluster_insertions (seg_from_string ''pleasant'' True)) 4 \<and>
   convert_text ''pleasant'' = ''PALEOSANT''"
  by code_simp

lemma original_AH_keeps_last_vowel:
  "convert_text ''hannah'' = ''HONNAH'' \<and> convert_text ''abracadabra'' = ''OBROCODOBRAH''"
  by code_simp

end
