(* ===== verification/Spec2Isabelle.thy ===== *)
theory Spec2Isabelle
  imports UI Bounds Rulebook
begin

text \<open>
  \<^bold>\<open>Naamrot: a verification development of the phonetic text converter.\<close>

  The program (\<open>src/unnamed/part_000\<close>, lines 1--419, and the older copy
  \<open>src/app.js\<close>) rewrites English text into the stylized Naamrot spelling. Text is scanned
  for word tokens (runs of letters joined by single hyphens or apostrophes); each token is
  split at its separators; each word-part goes through an exception lookup or through the
  rule stages suffix, prefix, cluster insertion and vowel swap, in that order, on an array of
  segments \<open>{ch, origin}\<close>; the pieces are joined again, the text between tokens is
  copied, and the whole output is upper-cased.

  \<^bold>\<open>Theories and correspondence to the code.\<close>
  \<^item> \<open>Prelude\<close>: the named collections \<open>text_simps\<close>, \<open>origin_rules\<close> and
    \<open>letter_rules\<close>; JavaScript's \<open>toUpperCase\<close>/\<open>toLowerCase\<close> on ASCII
    (\<open>to_upper\<close>, \<open>to_lower\<close>), \<open>endsWith\<close>/\<open>startsWith\<close> (\<open>ends_with\<close>,
    \<open>starts_with\<close>), with table code equations that make them fast to evaluate.
  \<^item> \<open>Segments\<close>: the segment model (lines 57--84): \<open>seg\<close> is the record
    \<open>{ch, origin}\<close>, \<open>seg_from_string\<close>, \<open>seg_to_string\<close>, \<open>splice_segs\<close> (the
    in-place \<open>Array.prototype.splice\<close> as a value), \<open>is_letter\<close>,
    \<open>is_consonant_letter\<close>, \<open>VOWELS\<close>, \<open>SWAPPABLE\<close>. Its invariant
    \<open>keeps_origin segs' segs\<close> says that the origin-true segments of \<open>segs'\<close> are a
    subsequence of those of \<open>segs\<close>: a rule may delete typed characters but never
    creates one.
  \<^item> \<open>Exceptions\<close>: the table \<open>EXCEPTIONS\<close> (lines 22--44) as the JavaScript
    objects it holds (\<open>exc_entry\<close>: a property list over the values \<open>js_val\<close>, or a
    nullish element), and \<open>applyExceptions\<close> (lines 88--104): \<open>parse_entry\<close> is what
    the guards \<open>ex?.type === "literal"\<close> and \<open>ex?.type === "regex" && ex.re instanceof
    RegExp\<close> and the defaults \<open>String(x ?? "")\<close> make of an entry (\<open>exc_rule\<close>),
    \<open>apply_exception_rules\<close> is the loop, \<open>apply_exception_entries\<close> and
    \<open>apply_exceptions\<close> return the hit as an option.
  \<^item> \<open>Suffix\<close>: the suffix rules (lines 118--218) and their order in
    \<open>transformWordPart\<close> (lines 368--378): \<open>replace_all_pair\<close> is the index loop of
    \<open>replaceAllERWithAH\<close>/\<open>replaceAllIRWithAR\<close>, the ending rules are
    \<open>replace_ending_*\<close>, \<open>apply_ending_AH\<close> returns the segments and the flag
    \<open>endingChangedToAH\<close>, \<open>suffix_transforms\<close> composes them.
  \<^item> \<open>Endings\<close>: how the ending rules of the suffix stage interact: each leaves a
    final synthesized H when it fires and stops at a final H (\<open>ends_H\<close>, collection
    \<open>ending_stage\<close>), so at most one fires; the reference rule \<open>replace_final_Y\<close> is
    \<open>replaceEndingYToEH\<close> without its guard.
  \<^item> \<open>Prefix\<close>: the SN/SW rules and the RE rule (lines 234--275, 380--384), with their
    invariants.
  \<^item> \<open>Cluster\<close>: \<open>applyClusterInsertions\<close> (lines 277--303).
  \<^item> \<open>Vowels\<close>: the protected-suffix table (lines 46--53), the boundary
    \<open>protectedSuffixStartIndex\<close> (lines 108--114) and \<open>applyVowelSwaps\<close>
    (lines 305--357) as a fold of the loop body \<open>swap_vowel_at\<close> over the indices.
  \<^item> \<open>Pipeline\<close>: \<open>transformWordPart\<close> (lines 359--393) as \<open>word_part_rules\<close>
    and \<open>transform_word_part\<close>.
  \<^item> \<open>Bounds\<close>: the length of a word-part through the rule stages and through
    \<open>transformWordPart\<close>.
  \<^item> \<open>Tokens\<close>: the orchestrator shared by both files, stated over the word-part
    transformation \<open>tp\<close> it calls: \<open>transformWordToken\<close> (lines 395--403) with
    \<open>split_seps\<close> for \<open>token.split(/([-'])/)\<close>; the token pattern \<open>WORD_TOKEN_RE\<close>
    (line 55) as the greedy length function \<open>token_len\<close>; \<open>text.matchAll\<close> as
    \<open>match_all_from\<close>; the loop of \<open>convertText\<close> (lines 407--416) as
    \<open>convert_loop\<close>, proved equal to the recursive scanner \<open>convert_spec\<close>. The
    language of the pattern is the automaton \<open>tok_rest\<close>/\<open>is_token\<close>, a reference
    definition against which \<open>token_len\<close> is proved to be the longest match.
  \<^item> \<open>Converter\<close>: \<open>convertText\<close> of part_000 (lines 405--419) as
    \<open>convert_text\<close>, the orchestrator applied to \<open>transform_word_part\<close>.
  \<^item> \<open>Legacy\<close>: the engine of \<open>src/app.js\<close> (lines 1--342). Its shared code is the
    definitions above; its exception table \<open>EXCEPTIONS_LEGACY\<close>, the U\<open>\<rightarrow>\<close>YAU rule
    \<open>apply_starting_U_yoo\<close> and its stage order (\<open>word_part_rules_legacy\<close>,
    \<open>transform_word_part_legacy\<close>, \<open>convert_text_legacy\<close>) are modelled there, with
    the refinement of its exception table by the newer one.
  \<^item> \<open>UI\<close>: the page glue of both files (part_000 lines 421--500, app.js lines
    344--391) as a state machine. The record \<open>ui\<close> holds the DOM state the handlers touch
    (text box, output, \<open>#status\<close> or its absence, clipboard, focus, the five menu
    attributes), the browser's timer queue with the handles \<open>doConvert._t\<close> and
    \<open>$("copy")._t\<close>, and the pending \<open>writeText\<close> promises. Each handler is a
    definition (\<open>set_status\<close>, \<open>do_convert\<close>, \<open>on_input_keydown\<close>,
    \<open>on_clear\<close>, \<open>on_copy_click\<close>/\<open>on_copy_settle\<close>/\<open>copy_catch\<close> for
    the two halves of the async copy handler, \<open>open_menu\<close>, \<open>close_menu\<close>,
    \<open>doc_keydown\<close>) returning an \<open>outcome\<close> that records a throw together with the
    writes made before it; \<open>ui_step\<close> dispatches an event to the listeners of part_000,
    \<open>ui_step_legacy\<close> to those of app.js, \<open>page_load\<close> is the seed conversion, and
    \<open>reachable_ui\<close> is the inductive set of pages reachable from it.
  \<^item> \<open>Rulebook\<close>: the Markdown rulebook appended to part_000 (lines 502--591), a
    specification of the converter, as data: its fixed words \<open>RULEBOOK_EXCEPTIONS\<close>, its
    examples per rule \<open>RULEBOOK_EXAMPLES\<close> (rules as the datatype \<open>rb_rule\<close>), its cluster
    starts \<open>RULEBOOK_CLUSTER_STARTS\<close>, and its vowel principles as the reference definitions
    \<open>rulebook_protect\<close> and \<open>rulebook_in_vowel_pair\<close>; \<open>exception_entry\<close> reads the
    code's exception table in the rulebook's form.
  \<^item> \<open>Spec2Isabelle\<close> (this theory): the examples of the specification, run
    through \<open>convert_text\<close>.

  \<^bold>\<open>What the lemmas show.\<close>
  Every stage keeps the origin invariant (\<open>origin_rules\<close>) and letters-only text
  (\<open>letter_rules\<close>), so that the whole word-part pipeline never marks synthesized text as
  typed and maps letters to upper-case letters. The index loop of the ER/IR rules refines a
  structural recursion \<open>replace_pairs\<close>; the flag \<open>endingChangedToAH\<close> is
  characterised exactly (the ER branch of \<open>applyEndingAH\<close> is dead code); the vowel swap is
  a pointwise rewrite whose three protections (protected suffix, vowel digraph, last original
  vowel) hold; the exception table is first-match-wins and case-insensitive, skips nullish
  and ill-typed entries, and turns an entry without output into a hit with the empty output;
  the token loop refines a recursive scanner \<open>convert_spec\<close>; the token length is the
  longest match of the pattern, and the matches hold every letter of the input. On ASCII
  input, where the model's case mapping is JavaScript's, \<open>convertText\<close> keeps every
  non-letter character in place and its final upper-casing changes nothing. The guard of \<open>replaceEndingYToEH\<close> is dead code, and the rule
  stages lengthen a word-part by at most two letters. For \<open>src/app.js\<close> the same
  invariants hold, and its exception table is refined by the newer one. On the page, every
  reachable state keeps its timer queue ordered and due within 1200 ms, with a pending reset
  whenever the status is not READY (an invariant by rule induction on \<open>reachable_ui\<close>),
  so waiting 1200 ms always brings the status back to READY; the five menu attributes stay
  consistent along any run; Ctrl/Cmd+Enter converts and Escape closes the menu. Two faults
  are shown: the copy handler cancels only its own reset, so any other pending READY
  callback (of a conversion or of a failed copy) overwrites COPIED at its own due time, and
  app.js throws in its handlers when \<open>#status\<close> is missing. Against the rulebook: every
  listed cluster start is expanded (and the code expands any consonant before R or L), and
  the tail-vowel protection is the rulebook's except for words of four original vowels whose
  ending was changed to AH; evaluated examples show the exception tables agree and 18 of the
  25 rule examples are reproduced.

  \<^bold>\<open>Bounds and fuel.\<close> All loops of the program terminate and are modelled as total
  functions: \<open>replace_all_pair\<close>, \<open>match_all_from\<close> and \<open>convert_spec\<close> are
  \<open>function\<close>s with measures (remaining length), the vowel loop is a \<open>fold\<close> over
  \<open>[0..<length segs]\<close>, the rest is structural recursion. No fuel is needed. The
  \<open>matchAll\<close> loop of \<open>convertText\<close> runs at most once per input character
  (theory \<open>Tokens\<close>), and a word-part of \<open>n\<close> letters yields between \<open>n\<close> and
  \<open>n + 2\<close> letters on the rule path and at most \<open>n + 2\<close> in any case.

  The page model needs no fuel either: \<open>fire_timers\<close> recurses on the timer queue, and
  time advances only by the \<open>Wait\<close> events of a run. The bound 1200 ms is the longest
  delay the page passes to \<open>setTimeout\<close> (the COPY FAILED reset).

  \<^bold>\<open>Not modelled.\<close> The browser itself: the HTML, rendering, \<open>preventDefault\<close>
  and event objects are left out, and \<open>setTimeout\<close>, \<open>clearTimeout\<close>, the event
  loop and \<open>navigator.clipboard\<close> are modelled only as far as the page relies on them
  (theory \<open>UI\<close>). Also left out: the commented-out U\<open>\<rightarrow>\<close>YAU rule of part_000
  (lines 222--232), which is not code; case mapping of non-ASCII characters (\<open>to_upper\<close> is the identity
  outside a--z, while JavaScript also maps accented and other non-ASCII letters, some of
  them, such as German sharp s, to two letters): the properties of the
  whole-text output are therefore stated for ASCII input; the menu with missing elements
  (the listeners use \<open>?.\<close>, but \<open>closeMenu\<close> on Escape would throw at line 487 if
  \<open>#menuPanel\<close> were absent; the model assumes the elements exist); the prose
  principles of the rulebook (lines 504--509, 587--588), which are stated as the theorems on
  non-letters, upper case and origin flags rather than as definitions. The app.js copies of
  the engine functions that are identical to part_000 (app.js lines 43--288) are the
  definitions of part_000; only what differs is a definition of its own (theory
  \<open>Legacy\<close>).
\<close>

subsection \<open>End-to-end scenarios\<close>

text \<open>
  The examples of the specification, run through \<open>convertText\<close>. Two agree
  with the specification (please, clean); three do not: the code gives SANOKE for
  ``snake'' (the specification says SANAKE), ONFORMASHAN for ``information''
  (INFORMASHAN) and DON'T STOP for ``don't stop'' (DAN'T STAP): the swap turns only an
  original A, E or I into O, so the O of ``don'' and ``stop'' stays, and it swaps the A of
  ``snake'' and the first I of ``information'', which no protection covers.
\<close>

lemma spec_examples:
  "convert_text ''please'' = ''PALEASE'' \<and> convert_text ''clean'' = ''CALEAN'' \<and>
   convert_text ''snake'' = ''SANOKE'' \<and> convert_text ''information'' = ''ONFORMASHAN'' \<and>
   convert_text ''don't stop'' = ''DON'T STOP''"
  by code_simp

end
